(* ===== verification/Prelude.thy ===== *)
theory Prelude
  imports Main "HOL-Library.Word" "HOL-Library.While_Combinator" "HOL-Library.Sublist"
begin

text \<open>
  The shared ground of the development: the names of the model's basic types, the two
  collections the component theories add their facts to, and the generic lemmas on lists,
  maps and results they share.

  A Go \<^verbatim>\<open>string\<close> or \<^verbatim>\<open>[]byte\<close> is a list of bytes, which is what HOL's \<open>string\<close>
  (a list of 8-bit \<open>char\<close>) is. A \<^verbatim>\<open>rune\<close> is a natural number. A Go function that returns
  \<^verbatim>\<open>(T, error)\<close> returns a value of type \<open>'e + 'a\<close>, the error on the left. A nil-able pointer
  is an \<open>option\<close>.
\<close>

section \<open>Names of the model's types\<close>

type_synonym rune = nat
type_synonym byte = "8 word"
type_synonym int8 = "8 word"
type_synonym int16 = "16 word"
type_synonym int32 = "32 word"
type_synonym int64 = "64 word"

named_theorems step_simps "unfolding equations of the operations of a stateful component"
named_theorems keeps "preservation facts: an operation keeps an invariant or a field"

section \<open>Results\<close>

text \<open>The \<^verbatim>\<open>if err != nil { return err }\<close> idiom.\<close>

fun bind_res :: "'e + 'a \<Rightarrow> ('a \<Rightarrow> 'e + 'b) \<Rightarrow> 'e + 'b" where
  "bind_res (Inl e) f = Inl e"
| "bind_res (Inr x) f = f x"

lemma bind_res_Inr_conv [simp]:
  "bind_res r f = Inr y \<longleftrightarrow> (\<exists>x. r = Inr x \<and> f x = Inr y)"
  by (cases r) auto

lemma bind_res_Inl_conv:
  "bind_res r f = Inl e \<longleftrightarrow> r = Inl e \<or> (\<exists>x. r = Inr x \<and> f x = Inl e)"
  by (cases r) auto

fun is_err :: "'e + 'a \<Rightarrow> bool" where
  "is_err (Inl e) = True"
| "is_err (Inr x) = False"

lemma is_err_iff: "is_err r \<longleftrightarrow> (\<exists>e. r = Inl e)"
  by (cases r) auto

lemma not_is_err_iff: "\<not> is_err r \<longleftrightarrow> (\<exists>x. r = Inr x)"
  by (cases r) auto

lemma is_err_bind: "is_err (bind_res r f) \<longleftrightarrow> is_err r \<or> (\<exists>x. r = Inr x \<and> is_err (f x))"
  by (cases r) auto

lemma bind_res_cong [fundef_cong]:
  "r = r' \<Longrightarrow> (\<And>x. r' = Inr x \<Longrightarrow> f x = g x) \<Longrightarrow> bind_res r f = bind_res r' g"
  by (cases r') auto

lemma bind_res_assoc: "bind_res (bind_res r f) g = bind_res r (\<lambda>x. bind_res (f x) g)"
  by (cases r) auto

section \<open>Words\<close>

lemma sint_word_of_int_id:
  "- (2 ^ (LENGTH('a) - 1)) \<le> i \<Longrightarrow> i < 2 ^ (LENGTH('a) - 1) \<Longrightarrow>
     sint (word_of_int i :: 'a::len word) = i"
  by (simp only: sint_sbintrunc' signed_take_bit_int_eq_self)

lemma sint_bounds:
  "- (2 ^ (LENGTH('a) - 1)) \<le> sint (v :: 'a::len word)" "sint v < 2 ^ (LENGTH('a) - 1)"
  using sint_range_size [of v] by (simp_all add: word_size)

lemma uint_above_negative: "- (2 ^ n) \<le> uint (v :: 'a::len word)"
  by (rule order_trans [OF _ unsigned_greater_eq]) simp

lemma sint_below_half:
  "uint (v :: 'a::len word) < 2 ^ (LENGTH('a) - 1) \<Longrightarrow> sint v = uint v"
  using signed_take_bit_int_eq_self [OF uint_above_negative] by (simp only: sint_uint One_nat_def)

lemma word_of_int_of_sint [simp]: "word_of_int (sint v) = (v :: 'a::len word)"
  by (metis scast_eq scast_id)

lemma sint_ucast_wide:
  assumes "LENGTH('a::len) < LENGTH('b::len)"
  shows "sint (ucast (v :: 'a word) :: 'b word) = uint v"
  unfolding ucast_eq
proof (rule sint_word_of_int_id [OF uint_above_negative])
  have "(2 :: int) ^ LENGTH('a) \<le> 2 ^ (LENGTH('b) - 1)"
    using assms by (intro power_increasing) auto
  then show "uint v < 2 ^ (LENGTH('b) - 1)"
    by (rule less_le_trans [OF uint_lt2p])
qed

lemma sint_scast_wide:
  assumes "LENGTH('a::len) \<le> LENGTH('b::len)"
  shows "sint (scast (v :: 'a word) :: 'b word) = sint v"
  unfolding scast_eq
proof (rule sint_word_of_int_id)
  have "(2 :: int) ^ (LENGTH('a) - 1) \<le> 2 ^ (LENGTH('b) - 1)"
    using assms by (intro power_increasing) auto
  then show "- (2 ^ (LENGTH('b) - 1)) \<le> sint v" "sint v < 2 ^ (LENGTH('b) - 1)"
    using sint_bounds [of v] by linarith+
qed

section \<open>Lists\<close>

lemma drop_eq_Cons_nth: "i < length xs \<Longrightarrow> drop i xs = xs ! i # drop (Suc i) xs"
  by (simp add: Cons_nth_drop_Suc)

lemma take_Suc_snoc: "i < length xs \<Longrightarrow> take (Suc i) xs = take i xs @ [xs ! i]"
  by (rule take_Suc_conv_app_nth)

lemma list_all2_snoc:
  "list_all2 P xs ys \<Longrightarrow> P x y \<Longrightarrow> list_all2 P (xs @ [x]) (ys @ [y])"
  by (rule list_all2_appendI) simp_all

lemma foldl_invariant:
  "I a \<Longrightarrow> (\<And>b x. I b \<Longrightarrow> x \<in> set xs \<Longrightarrow> I (f b x)) \<Longrightarrow> I (foldl f a xs)"
  by (induction xs arbitrary: a) auto

end
