(* ===== verification/Go_Strings.thy ===== *)
theory Go_Strings
  imports Prelude
begin

text \<open>
  What the driver uses of Go's standard library on strings: UTF-8 decoding and encoding as
  \<^verbatim>\<open>range\<close>, \<^verbatim>\<open>[]rune(s)\<close> and \<^verbatim>\<open>string(r)\<close> do them, the search and split functions of package
  \<^verbatim>\<open>strings\<close>, \<^verbatim>\<open>strconv.ParseBool\<close>, \<^verbatim>\<open>strconv.Atoi\<close>, the \<^verbatim>\<open>%d\<close> verb, \<^verbatim>\<open>url.PathUnescape\<close>, and
  the case operations of package \<^verbatim>\<open>unicode\<close>.

  The case tables of Unicode beyond ASCII are a parameter, the record \<open>unicode\<close>; everything
  Go decides without them (ASCII, UTF-8, white space) is written out. Facts that need the
  tables to behave state it as a hypothesis.
\<close>

section \<open>UTF-8\<close>

text \<open>\<^verbatim>\<open>utf8.RuneError\<close>, the replacement character.\<close>

definition rune_error :: rune where
  "rune_error = 0xFFFD"

definition valid_rune :: "rune \<Rightarrow> bool" where
  "valid_rune r \<longleftrightarrow> r < 0xD800 \<or> 0xE000 \<le> r \<and> r \<le> 0x10FFFF"

definition byte_in :: "nat \<Rightarrow> nat \<Rightarrow> char \<Rightarrow> bool" where
  "byte_in lo hi c \<longleftrightarrow> lo \<le> of_char c \<and> of_char c \<le> hi"

text \<open>
  \<^verbatim>\<open>utf8.DecodeRuneInString\<close>: the first rune and its width; an ill-formed or truncated sequence
  gives the replacement character and width 1.
\<close>

fun decode_rune :: "string \<Rightarrow> rune \<times> nat" where
  "decode_rune [] = (rune_error, 0)"
| "decode_rune (c0 # s) =
    (let b0 = of_char c0 :: nat in
     if b0 < 0x80 then (b0, 1)
     else if 0xC2 \<le> b0 \<and> b0 \<le> 0xDF then
       (case s of
          c1 # _ \<Rightarrow> if byte_in 0x80 0xBF c1
                    then ((b0 - 0xC0) * 64 + (of_char c1 - 0x80), 2) else (rune_error, 1)
        | _ \<Rightarrow> (rune_error, 1))
     else if 0xE0 \<le> b0 \<and> b0 \<le> 0xEF then
       (case s of
          c1 # c2 # _ \<Rightarrow>
            if byte_in (if b0 = 0xE0 then 0xA0 else 0x80) (if b0 = 0xED then 0x9F else 0xBF) c1
               \<and> byte_in 0x80 0xBF c2
            then ((b0 - 0xE0) * 4096 + (of_char c1 - 0x80) * 64 + (of_char c2 - 0x80), 3)
            else (rune_error, 1)
        | _ \<Rightarrow> (rune_error, 1))
     else if 0xF0 \<le> b0 \<and> b0 \<le> 0xF4 then
       (case s of
          c1 # c2 # c3 # _ \<Rightarrow>
            if byte_in (if b0 = 0xF0 then 0x90 else 0x80) (if b0 = 0xF4 then 0x8F else 0xBF) c1
               \<and> byte_in 0x80 0xBF c2 \<and> byte_in 0x80 0xBF c3
            then ((b0 - 0xF0) * 262144 + (of_char c1 - 0x80) * 4096
                  + (of_char c2 - 0x80) * 64 + (of_char c3 - 0x80), 4)
            else (rune_error, 1)
        | _ \<Rightarrow> (rune_error, 1))
     else (rune_error, 1))"

text \<open>The runes a \<^verbatim>\<open>range\<close> loop or the conversion \<^verbatim>\<open>[]rune(s)\<close> visits.\<close>

fun runes :: "string \<Rightarrow> rune list" where
  "runes [] = []"
| "runes (c # s) = fst (decode_rune (c # s)) # runes (drop (snd (decode_rune (c # s)) - 1) s)"

text \<open>\<^verbatim>\<open>string(r)\<close>, \<^verbatim>\<open>WriteRune\<close>: the UTF-8 form of a rune; what is no code point is written as
  the replacement character.\<close>

definition encode_rune :: "rune \<Rightarrow> string" where
  "encode_rune r0 =
    (let r = (if valid_rune r0 then r0 else rune_error) in
     if r < 0x80 then [char_of r]
     else if r < 0x800 then [char_of (0xC0 + r div 64), char_of (0x80 + r mod 64)]
     else if r < 0x10000 then
       [char_of (0xE0 + r div 4096), char_of (0x80 + r div 64 mod 64), char_of (0x80 + r mod 64)]
     else
       [char_of (0xF0 + r div 262144), char_of (0x80 + r div 4096 mod 64),
        char_of (0x80 + r div 64 mod 64), char_of (0x80 + r mod 64)])"

definition encode_runes :: "rune list \<Rightarrow> string" where
  "encode_runes rs = concat (map encode_rune rs)"

definition ascii :: "string \<Rightarrow> bool" where
  "ascii s \<longleftrightarrow> (\<forall>c\<in>set s. of_char c < (0x80::nat))"

lemma encode_runes_simps [simp]:
  "encode_runes [] = []"
  "encode_runes (r # rs) = encode_rune r @ encode_runes rs"
  "encode_runes (rs @ rs') = encode_runes rs @ encode_runes rs'"
  by (simp_all add: encode_runes_def)

lemma ascii_simps [simp]:
  "ascii []"
  "ascii (c # s) \<longleftrightarrow> of_char c < (0x80::nat) \<and> ascii s"
  "ascii (s @ t) \<longleftrightarrow> ascii s \<and> ascii t"
  by (auto simp: ascii_def)

lemma of_char_of_nat [simp]: "n < 256 \<Longrightarrow> of_char (char_of (n::nat)) = n"
  by (simp add: of_char_of)

text \<open>The multi-byte forms over the 6-bit groups of a number.\<close>

lemma groups2: "(r::nat) div 64 * 64 + r mod 64 = r"
  by simp

lemma groups3: "(r::nat) div 4096 * 4096 + r div 64 mod 64 * 64 + r mod 64 = r"
proof -
  have "r div 4096 = r div 64 div 64" by (simp add: div_mult2_eq [symmetric])
  then show ?thesis using groups2 [of r] groups2 [of "r div 64"] by linarith
qed

lemma groups4:
  "(r::nat) div 262144 * 262144 + r div 4096 mod 64 * 4096 + r div 64 mod 64 * 64 + r mod 64 = r"
proof -
  have "r div 262144 = r div 4096 div 64" by (simp add: div_mult2_eq [symmetric])
  then show ?thesis using groups3 [of r] groups2 [of "r div 4096"] by linarith
qed

lemma decode_2:
  "2 \<le> a \<Longrightarrow> a \<le> 31 \<Longrightarrow> b < 64 \<Longrightarrow>
   decode_rune (char_of (0xC0 + a) # char_of (0x80 + b) # s) = (a * 64 + b, 2)"
  by (simp add: byte_in_def Let_def)

lemma decode_3:
  assumes "a \<le> 15" "b < 64" "c < 64" "a = 0 \<Longrightarrow> 32 \<le> b" "a = 13 \<Longrightarrow> b \<le> 31"
  shows "decode_rune (char_of (0xE0 + a) # char_of (0x80 + b) # char_of (0x80 + c) # s)
         = (a * 4096 + b * 64 + c, 3)"
  using assms by (auto simp add: byte_in_def Let_def)

lemma decode_4:
  assumes "a \<le> 4" "b < 64" "c < 64" "d < 64" "a = 0 \<Longrightarrow> 16 \<le> b" "a = 4 \<Longrightarrow> b \<le> 15"
  shows "decode_rune (char_of (0xF0 + a) # char_of (0x80 + b) # char_of (0x80 + c)
           # char_of (0x80 + d) # s) = (a * 262144 + b * 4096 + c * 64 + d, 4)"
  using assms by (auto simp add: byte_in_def Let_def)

lemma decode_encode_1:
  assumes "r < 0x80"
  shows "decode_rune (encode_rune r @ s) = (r, length (encode_rune r))"
  using assms by (simp add: encode_rune_def valid_rune_def)

lemma decode_encode_2:
  assumes "0x80 \<le> r" "r < 0x800"
  shows "decode_rune (encode_rune r @ s) = (r, length (encode_rune r))"
proof -
  have "encode_rune r = [char_of (0xC0 + r div 64), char_of (0x80 + r mod 64)]"
    using assms by (simp add: encode_rune_def valid_rune_def Let_def)
  moreover have "2 \<le> r div 64" "r div 64 \<le> 31" "r mod 64 < 64" using assms by auto
  ultimately show ?thesis using decode_2 [of "r div 64" "r mod 64" s] groups2 [of r]
    by (simp del: decode_rune.simps)
qed

lemma decode_encode_3:
  assumes "0x800 \<le> r" "r < 0x10000" "valid_rune r"
  shows "decode_rune (encode_rune r @ s) = (r, length (encode_rune r))"
proof -
  have enc: "encode_rune r = [char_of (0xE0 + r div 4096), char_of (0x80 + r div 64 mod 64),
      char_of (0x80 + r mod 64)]"
    using assms by (simp add: encode_rune_def Let_def)
  have d: "r div 4096 \<le> 15" "r div 64 mod 64 < 64" "r mod 64 < 64"
    using assms by auto
  have lo: "32 \<le> r div 64 mod 64" if "r div 4096 = 0"
    using groups3 [of r] that d assms(1) by linarith
  have hi: "r div 64 mod 64 \<le> 31" if "r div 4096 = 13"
    using groups3 [of r] that d assms(3) unfolding valid_rune_def by linarith
  show ?thesis
    using decode_3 [OF d lo hi, of s] groups3 [of r] unfolding enc
    by (simp del: decode_rune.simps)
qed

lemma decode_encode_4:
  assumes "0x10000 \<le> r" "valid_rune r"
  shows "decode_rune (encode_rune r @ s) = (r, length (encode_rune r))"
proof -
  have enc: "encode_rune r = [char_of (0xF0 + r div 262144), char_of (0x80 + r div 4096 mod 64),
      char_of (0x80 + r div 64 mod 64), char_of (0x80 + r mod 64)]"
    using assms by (simp add: encode_rune_def Let_def)
  have r: "r \<le> 0x10FFFF" using assms by (auto simp: valid_rune_def)
  have d: "r div 262144 \<le> 4" "r div 4096 mod 64 < 64" "r div 64 mod 64 < 64" "r mod 64 < 64"
    using r by auto
  have lo: "16 \<le> r div 4096 mod 64" if "r div 262144 = 0"
    using groups4 [of r] that d assms(1) by linarith
  have hi: "r div 4096 mod 64 \<le> 15" if "r div 262144 = 4"
    using groups4 [of r] that d r by linarith
  show ?thesis
    using decode_4 [OF d lo hi, of s] groups4 [of r] unfolding enc
    by (simp del: decode_rune.simps)
qed

lemma decode_encode_rune:
  assumes "valid_rune r"
  shows "decode_rune (encode_rune r @ s) = (r, length (encode_rune r))"
  using assms decode_encode_1 decode_encode_2 decode_encode_3 decode_encode_4
  by (cases "r < 0x80"; cases "r < 0x800"; cases "r < 0x10000") (simp_all add: not_less)

lemma encode_rune_nonempty: "encode_rune r \<noteq> []"
  by (simp add: encode_rune_def Let_def)

lemma runes_encode_rune:
  assumes "valid_rune r"
  shows "runes (encode_rune r @ s) = r # runes s"
proof -
  obtain c t where ct: "encode_rune r = c # t"
    using encode_rune_nonempty by (cases "encode_rune r") auto
  have "decode_rune (c # t @ s) = (r, Suc (length t))"
    using decode_encode_rune [OF assms, of s] ct by simp
  then show ?thesis using ct by (simp del: decode_rune.simps)
qed

text \<open>Encoding and decoding again gives the same runes.\<close>

lemma runes_encode_runes:
  "list_all valid_rune rs \<Longrightarrow> runes (encode_runes rs) = rs"
  by (induction rs) (simp_all add: runes_encode_rune)

lemma runes_ascii_Cons [simp]:
  "of_char c < (0x80::nat) \<Longrightarrow> runes (c # s) = of_char c # runes s"
  by simp

lemma runes_ascii: "ascii s \<Longrightarrow> runes s = map of_char s"
  by (induction s) simp_all

lemma encode_rune_ascii: "r < 0x80 \<Longrightarrow> encode_rune r = [char_of r]"
  by (simp add: encode_rune_def valid_rune_def)

lemma encode_runes_ascii: "ascii s \<Longrightarrow> encode_runes (map of_char s) = s"
  by (induction s) (simp_all add: encode_rune_ascii)

section \<open>Package unicode\<close>

text \<open>
  The tables beyond ASCII: \<^verbatim>\<open>unicode.SimpleFold\<close> steps through the code points that are equal
  under simple case folding, \<^verbatim>\<open>unicode.ToLower\<close> maps to lower case. In ASCII the only code
  points with relatives outside are k (U+212A) and s (U+017F).
\<close>

record unicode =
  fold_tab :: "rune \<Rightarrow> rune"
  lower_tab :: "rune \<Rightarrow> rune"

definition simple_fold :: "unicode \<Rightarrow> rune \<Rightarrow> rune" where
  "simple_fold U r =
    (if 65 \<le> r \<and> r \<le> 90 then r + 32
     else if r = 107 then 0x212A
     else if r = 115 then 0x17F
     else if 97 \<le> r \<and> r \<le> 122 then r - 32
     else if r < 128 then r
     else fold_tab U r)"

definition rune_to_lower :: "unicode \<Rightarrow> rune \<Rightarrow> rune" where
  "rune_to_lower U r = (if 65 \<le> r \<and> r \<le> 90 then r + 32 else if r < 128 then r else lower_tab U r)"

definition is_space :: "rune \<Rightarrow> bool" where
  "is_space r \<longleftrightarrow> 9 \<le> r \<and> r \<le> 13 \<or> r = 32 \<or> r = 0x85 \<or> r = 0xA0 \<or> r = 0x1680
     \<or> 0x2000 \<le> r \<and> r \<le> 0x200A \<or> r = 0x2028 \<or> r = 0x2029 \<or> r = 0x202F \<or> r = 0x205F \<or> r = 0x3000"

text \<open>Tables with the three cross-links of ASCII and nothing else, for concrete inputs.\<close>

definition ascii_tables :: unicode where
  "ascii_tables = \<lparr>fold_tab = (\<lambda>r. if r = 0x212A then 75 else if r = 0x17F then 83 else r),
     lower_tab = (\<lambda>r. if r = 0x212A then 107 else r)\<rparr>"

text \<open>\<^verbatim>\<open>strings.ToLower\<close>.\<close>

definition to_lower :: "unicode \<Rightarrow> string \<Rightarrow> string" where
  "to_lower U s = encode_runes (map (rune_to_lower U) (runes s))"

definition ascii_lower :: "char \<Rightarrow> char" where
  "ascii_lower c = (if 65 \<le> (of_char c::nat) \<and> (of_char c::nat) \<le> 90
     then char_of ((of_char c::nat) + 32) else c)"

lemma to_lower_Nil [simp]: "to_lower U [] = []"
  by (simp add: to_lower_def)

lemma to_lower_ascii_Cons:
  "of_char c < (0x80::nat) \<Longrightarrow> to_lower U (c # s) = ascii_lower c # to_lower U s"
  by (auto simp: to_lower_def rune_to_lower_def ascii_lower_def encode_rune_ascii)

lemma to_lower_ascii: "ascii s \<Longrightarrow> to_lower U s = map ascii_lower s"
  by (induction s) (simp_all add: to_lower_ascii_Cons del: runes.simps)

section \<open>strings.TrimSpace\<close>

function (sequential) trim_left :: "string \<Rightarrow> string" where
  "trim_left [] = []"
| "trim_left (c # s) = (if is_space (fst (decode_rune (c # s)))
     then trim_left (drop (snd (decode_rune (c # s)) - 1) s) else c # s)"
  by pat_completeness auto
termination
  by (relation "measure length") auto

text \<open>\<^verbatim>\<open>utf8.DecodeLastRuneInString\<close>: look back at most four bytes for the start of a rune that
  ends with the string.\<close>

definition rune_start :: "char \<Rightarrow> bool" where
  "rune_start c \<longleftrightarrow> \<not> byte_in 0x80 0xBF c"

definition decode_last_rune :: "string \<Rightarrow> rune \<times> nat" where
  "decode_last_rune s =
    (if s = [] then (rune_error, 0)
     else if of_char (last s) < (0x80::nat) then (of_char (last s), 1)
     else (case find (\<lambda>k. k \<le> length s \<and> rune_start (s ! (length s - k))) [2, 3, 4] of
             None \<Rightarrow> (rune_error, 1)
           | Some k \<Rightarrow> (if snd (decode_rune (drop (length s - k) s)) = k
                        then decode_rune (drop (length s - k) s) else (rune_error, 1))))"

lemma decode_last_rune_width: "s \<noteq> [] \<Longrightarrow> 0 < snd (decode_last_rune s)"
  by (auto simp: decode_last_rune_def find_Some_iff2 split: option.splits)

function trim_right :: "string \<Rightarrow> string" where
  "trim_right s = (if s \<noteq> [] \<and> is_space (fst (decode_last_rune s))
     then trim_right (take (length s - snd (decode_last_rune s)) s) else s)"
  by pat_completeness auto
termination
  by (relation "measure length") (auto simp: decode_last_rune_width)

declare trim_right.simps [simp del]

definition trim_space :: "string \<Rightarrow> string" where
  "trim_space s = trim_right (trim_left s)"

definition no_space :: "string \<Rightarrow> bool" where
  "no_space s \<longleftrightarrow> (\<forall>c\<in>set s. \<not> is_space (of_char c))"

lemma trim_space_id:
  assumes "ascii s" "no_space s"
  shows "trim_space s = s"
proof -
  have "trim_left s = s"
    using assms by (cases s) (auto simp: no_space_def)
  moreover have "trim_right s = s"
    using assms by (subst trim_right.simps)
      (auto simp: no_space_def decode_last_rune_def ascii_def)
  ultimately show ?thesis by (simp add: trim_space_def)
qed

section \<open>Searching and splitting\<close>

text \<open>\<^verbatim>\<open>strings.Index\<close>, with \<open>None\<close> for -1, and \<^verbatim>\<open>strings.LastIndex\<close>.\<close>

fun str_index :: "string \<Rightarrow> string \<Rightarrow> nat option" where
  "str_index [] sub = (if sub = [] then Some 0 else None)"
| "str_index (c # s) sub = (if prefix sub (c # s) then Some 0 else map_option Suc (str_index s sub))"

definition last_index :: "string \<Rightarrow> string \<Rightarrow> nat option" where
  "last_index s sub = map_option (\<lambda>i. length s - length sub - i) (str_index (rev s) (rev sub))"

text \<open>\<^verbatim>\<open>strings.Cut\<close>, \<^verbatim>\<open>strings.CutPrefix\<close>, \<^verbatim>\<open>strings.TrimSuffix\<close>, \<^verbatim>\<open>strings.ContainsAny\<close> for
  ASCII characters, \<^verbatim>\<open>strings.Split\<close> at one byte.\<close>

definition str_cut :: "string \<Rightarrow> string \<Rightarrow> string \<times> string \<times> bool" where
  "str_cut s sep = (case str_index s sep of
     None \<Rightarrow> (s, [], False)
   | Some i \<Rightarrow> (take i s, drop (i + length sep) s, True))"

definition cut_prefix :: "string \<Rightarrow> string \<Rightarrow> string \<times> bool" where
  "cut_prefix s p = (if prefix p s then (drop (length p) s, True) else (s, False))"

definition trim_suffix :: "string \<Rightarrow> string \<Rightarrow> string" where
  "trim_suffix s suf = (if suffix suf s then take (length s - length suf) s else s)"

definition contains_any :: "string \<Rightarrow> string \<Rightarrow> bool" where
  "contains_any s chars = list_ex (\<lambda>c. c \<in> set chars) s"

fun split_on :: "char \<Rightarrow> string \<Rightarrow> string list" where
  "split_on sep [] = [[]]"
| "split_on sep (c # s) = (if c = sep then [] # split_on sep s
     else (case split_on sep s of [] \<Rightarrow> [[c]] | w # ws \<Rightarrow> (c # w) # ws))"

lemma str_index_absent: "c \<notin> set s \<Longrightarrow> str_index s (c # sub) = None"
  by (induction s) auto

lemma str_index_first: "c \<notin> set s \<Longrightarrow> str_index (s @ c # sub @ t) (c # sub) = Some (length s)"
  by (induction s) (auto simp: prefix_def)

lemma str_index_Some:
  "str_index s sub = Some i \<Longrightarrow> s = take i s @ sub @ drop (i + length sub) s"
proof (induction s arbitrary: i)
  case (Cons c s)
  show ?case
  proof (cases "prefix sub (c # s)")
    case True
    with Cons.prems show ?thesis by (auto simp: prefix_def)
  next
    case False
    with Cons.prems obtain k where "str_index s sub = Some k" "i = Suc k" by auto
    with Cons.IH [of k] show ?thesis by simp
  qed
qed (auto split: if_splits)

lemma last_index_char:
  assumes "c \<notin> set t"
  shows "last_index (s @ c # t) [c] = Some (length s)"
  using str_index_first [of c "rev t" "[]" "rev s"] assms by (simp add: last_index_def)

lemma last_index_absent: "c \<notin> set s \<Longrightarrow> last_index s [c] = None"
  by (simp add: last_index_def str_index_absent)

lemma str_cut_char:
  "c \<notin> set k \<Longrightarrow> str_cut (k @ c # v) [c] = (k, v, True)"
  using str_index_first [of c k "[]" v] by (simp add: str_cut_def)

lemma split_on_nonempty [simp]: "split_on c s \<noteq> []"
  by (induction s) (auto split: list.splits)

lemma split_on_append:
  "c \<notin> set w \<Longrightarrow> split_on c (w @ c # s) = w # split_on c s"
  by (induction w) auto

lemma split_on_absent: "c \<notin> set w \<Longrightarrow> split_on c w = [w]"
  by (induction w) auto

section \<open>Package strconv and net/url\<close>

text \<open>\<^verbatim>\<open>strconv.ParseBool\<close>.\<close>

definition parse_bool :: "string \<Rightarrow> bool option" where
  "parse_bool s =
    (if s \<in> {''1'', ''t'', ''T'', ''TRUE'', ''true'', ''True''} then Some True
     else if s \<in> {''0'', ''f'', ''F'', ''FALSE'', ''false'', ''False''} then Some False
     else None)"

text \<open>\<^verbatim>\<open>strconv.Atoi\<close>: an optional sign and decimal digits, within the range of a 64-bit
  \<^verbatim>\<open>int\<close>.\<close>

definition digit_val :: "char \<Rightarrow> nat option" where
  "digit_val c = (if byte_in 48 57 c then Some (of_char c - 48) else None)"

fun digits_val :: "nat \<Rightarrow> string \<Rightarrow> nat option" where
  "digits_val acc [] = Some acc"
| "digits_val acc (c # s) =
     (case digit_val c of None \<Rightarrow> None | Some d \<Rightarrow> digits_val (10 * acc + d) s)"

definition in_int64 :: "int \<Rightarrow> bool" where
  "in_int64 v \<longleftrightarrow> - (2 ^ 63) \<le> v \<and> v < 2 ^ 63"

definition atoi_digits :: "bool \<Rightarrow> string \<Rightarrow> int option" where
  "atoi_digits neg ds =
    (if ds = [] then None
     else (case digits_val 0 ds of
             None \<Rightarrow> None
           | Some n \<Rightarrow> (let v = (if neg then - int n else int n) in
               if in_int64 v then Some v else None)))"

fun atoi :: "string \<Rightarrow> int option" where
  "atoi [] = None"
| "atoi (c # s) =
    (if c = CHR ''-'' then atoi_digits True s
     else if c = CHR ''+'' then atoi_digits False s
     else atoi_digits False (c # s))"

text \<open>The \<^verbatim>\<open>%d\<close> verb of package \<^verbatim>\<open>fmt\<close>.\<close>

fun dec_digits :: "nat \<Rightarrow> string" where
  "dec_digits n = (if n < 10 then [char_of (48 + n)]
     else dec_digits (n div 10) @ [char_of (48 + n mod 10)])"

declare dec_digits.simps [simp del]

definition itoa :: "int \<Rightarrow> string" where
  "itoa v = (if v < 0 then CHR ''-'' # dec_digits (nat (- v)) else dec_digits (nat v))"

text \<open>\<^verbatim>\<open>url.PathUnescape\<close>: \<open>None\<close> for a percent sign without two hexadecimal digits.\<close>

definition hex_val :: "char \<Rightarrow> nat option" where
  "hex_val c =
    (if byte_in 48 57 c then Some (of_char c - 48)
     else if byte_in 97 102 c then Some (of_char c - 87)
     else if byte_in 65 70 c then Some (of_char c - 55)
     else None)"

fun path_unescape :: "string \<Rightarrow> string option" where
  "path_unescape [] = Some []"
| "path_unescape (c # s) =
    (if c = CHR ''%'' then
       (case s of
          h # l # rest \<Rightarrow>
            (case (hex_val h, hex_val l) of
               (Some x, Some y) \<Rightarrow> map_option ((#) (char_of (16 * x + y))) (path_unescape rest)
             | _ \<Rightarrow> None)
        | _ \<Rightarrow> None)
     else map_option ((#) c) (path_unescape s))"

text \<open>An escaping that \<open>path_unescape\<close> undoes: every byte that is not an ASCII letter or digit,
  as two hexadecimal digits.\<close>

definition alnum :: "char \<Rightarrow> bool" where
  "alnum c \<longleftrightarrow> byte_in 48 57 c \<or> byte_in 65 90 c \<or> byte_in 97 122 c"

definition hex_digit :: "nat \<Rightarrow> char" where
  "hex_digit n = (if n < 10 then char_of (48 + n) else char_of (55 + n))"

definition escape_byte :: "char \<Rightarrow> string" where
  "escape_byte c = (if alnum c then [c]
     else [CHR ''%'', hex_digit (of_char c div 16), hex_digit (of_char c mod 16)])"

definition path_escape :: "string \<Rightarrow> string" where
  "path_escape s = concat (map escape_byte s)"

lemma hex_val_hex_digit: "n < 16 \<Longrightarrow> hex_val (hex_digit n) = Some n"
  by (simp add: hex_val_def hex_digit_def byte_in_def)

lemma of_char_less_256: "(of_char c :: nat) < 256"
  by (metis of_char_mod_256 mod_less_divisor zero_less_numeral)

lemma alnum_not_percent: "alnum c \<Longrightarrow> c \<noteq> CHR ''%''"
  by (auto simp: alnum_def byte_in_def)

lemma path_unescape_escape_byte:
  "path_unescape (escape_byte c @ s) = map_option ((#) c) (path_unescape s)"
proof (cases "alnum c")
  case True
  then show ?thesis using alnum_not_percent by (simp add: escape_byte_def)
next
  case False
  have "(of_char c :: nat) div 16 < 16" using of_char_less_256 [of c] by linarith
  then show ?thesis using False by (simp add: escape_byte_def hex_val_hex_digit)
qed

lemma path_unescape_escape: "path_unescape (path_escape s) = Some s"
  by (induction s) (simp_all add: path_escape_def path_unescape_escape_byte)

lemma path_escape_chars:
  "c \<in> set (path_escape s) \<Longrightarrow> alnum c \<or> c = CHR ''%''"
proof -
  have "alnum (hex_digit n)" if "n < 16" for n
    using that by (auto simp: hex_digit_def alnum_def byte_in_def)
  moreover have "(of_char x :: nat) div 16 < 16" for x using of_char_less_256 [of x] by linarith
  moreover assume "c \<in> set (path_escape s)"
  ultimately show ?thesis by (auto simp: path_escape_def escape_byte_def split: if_splits)
qed

lemma digits_val_snoc:
  "digits_val acc (s @ [c]) =
    (case digits_val acc s of None \<Rightarrow> None
     | Some n \<Rightarrow> map_option (\<lambda>d. 10 * n + d) (digit_val c))"
  by (induction s arbitrary: acc) (auto split: option.splits)

lemma digits_val_dec_digits: "digits_val 0 (dec_digits n) = Some n"
proof (induction n rule: dec_digits.induct)
  case (1 n)
  have d: "digit_val (char_of (48 + k)) = Some k" if "k < 10" for k :: nat
    using that by (simp add: digit_val_def byte_in_def)
  show ?case
  proof (cases "n < 10")
    case True
    then show ?thesis using d by (subst dec_digits.simps) simp
  next
    case False
    with "1.IH" show ?thesis
      using d [of "n mod 10"] by (subst dec_digits.simps) (simp add: digits_val_snoc)
  qed
qed

lemma dec_digits_chars: "c \<in> set (dec_digits n) \<Longrightarrow> byte_in 48 57 c"
proof (induction n rule: dec_digits.induct)
  case (1 n)
  show ?case
  proof (cases "n < 10")
    case True
    with "1.prems" show ?thesis by (subst (asm) dec_digits.simps) (auto simp: byte_in_def)
  next
    case False
    with "1.prems" consider "c \<in> set (dec_digits (n div 10))" | "c = char_of (48 + n mod 10)"
      by (subst (asm) dec_digits.simps) auto
    then show ?thesis
    proof cases
      case 1
      with "1.IH" False show ?thesis by blast
    next
      case 2
      have "n mod 10 < 10" by simp
      with 2 show ?thesis by (simp add: byte_in_def)
    qed
  qed
qed

lemma dec_digits_nonempty [simp]: "dec_digits n \<noteq> []"
  by (subst dec_digits.simps) simp

text \<open>Printing an \<^verbatim>\<open>int\<close> and reading it back.\<close>

lemma atoi_itoa:
  assumes "in_int64 v"
  shows "atoi (itoa v) = Some v"
proof (cases "v < 0")
  case True
  then show ?thesis
    using assms by (simp add: itoa_def atoi_digits_def digits_val_dec_digits Let_def)
next
  case False
  obtain c s where cs: "dec_digits (nat v) = c # s" by (cases "dec_digits (nat v)") auto
  have "byte_in 48 57 c" using dec_digits_chars [of c "nat v"] cs by simp
  then have "c \<noteq> CHR ''-''" "c \<noteq> CHR ''+''" by (auto simp: byte_in_def)
  moreover have "atoi_digits False (c # s) = Some v"
    using False assms digits_val_dec_digits [of "nat v"] cs
    by (simp add: atoi_digits_def Let_def)
  ultimately show ?thesis using False cs by (simp add: itoa_def)
qed

section \<open>Simple case folding\<close>

text \<open>
  \<^verbatim>\<open>strings.EqualFold\<close> and the driver's own rune comparison follow the orbit of
  \<^verbatim>\<open>unicode.SimpleFold\<close> until it is back at its start. The tables are well-formed when every
  orbit comes back.
\<close>

definition orbits_return :: "unicode \<Rightarrow> bool" where
  "orbits_return U \<longleftrightarrow> (\<forall>r. \<exists>n>0. (simple_fold U ^^ n) r = r)"

end
