(* ===== verification/Name_Patterns.thy ===== *)
theory Name_Patterns
  imports Go_Strings
begin

text \<open>
  The name patterns of \<^verbatim>\<open>driver/spark/objects.go\<close>: \<^verbatim>\<open>equalFold\<close>, the LIKE matcher
  \<^verbatim>\<open>likeMatch\<close> with its backtracking loop, \<^verbatim>\<open>matchesPattern\<close>, \<^verbatim>\<open>filterByPattern\<close>,
  \<^verbatim>\<open>isPattern\<close>, \<^verbatim>\<open>tableTypeAllowed\<close> and the clause \<^verbatim>\<open>likeClause\<close> sends to Spark.

  A function that follows \<^verbatim>\<open>unicode.SimpleFold\<close> or loops gives an \<open>option\<close>: \<open>None\<close> is not
  returning. The section on correctness shows that the matcher returns when the orbits of
  \<^verbatim>\<open>SimpleFold\<close> do, which its documentation promises, and computes the declarative
  reading of a LIKE pattern, \<open>like_spec\<close>, on every name without a percent sign.
\<close>

section \<open>equalFold\<close>

text \<open>The loop leaves with \<^verbatim>\<open>r == b\<close> or, back at the start, with \<^verbatim>\<open>r == a\<close>.\<close>

definition equal_fold :: "unicode \<Rightarrow> rune \<Rightarrow> rune \<Rightarrow> bool option" where
  "equal_fold U a b =
    (if a = b then Some True
     else map_option (\<lambda>r. r \<noteq> a)
       (while_option (\<lambda>r. r \<noteq> a \<and> r \<noteq> b) (simple_fold U) (simple_fold U a)))"

abbreviation folds :: "unicode \<Rightarrow> rune \<Rightarrow> rune \<Rightarrow> bool" where
  "folds U a b \<equiv> equal_fold U a b = Some True"

text \<open>\<^verbatim>\<open>strings.EqualFold\<close>, of the standard library.\<close>

definition str_equal_fold :: "unicode \<Rightarrow> string \<Rightarrow> string \<Rightarrow> bool" where
  "str_equal_fold U s t = list_all2 (folds U) (runes s) (runes t)"

lemma while_option_orbit_Some:
  assumes "(f ^^ n) x = y" and "\<not> b y"
  shows "\<exists>k\<le>n. while_option b f x = Some ((f ^^ k) x)"
proof -
  have ex: "\<exists>k. \<not> b ((f ^^ k) x)" using assms by auto
  then have "while_option b f x = Some ((f ^^ (LEAST k. \<not> b ((f ^^ k) x))) x)"
    by (simp add: while_option_def)
  moreover have "(LEAST k. \<not> b ((f ^^ k) x)) \<le> n" using assms by (auto intro: Least_le)
  ultimately show ?thesis by blast
qed

text \<open>With returning orbits the loop stops, and it decides membership of the orbit.\<close>

lemma equal_fold_loop_returns:
  assumes "orbits_return U"
  shows "\<exists>k. while_option (\<lambda>r. r \<noteq> a \<and> r \<noteq> b) (simple_fold U) (simple_fold U a)
           = Some ((simple_fold U ^^ Suc k) a)"
proof -
  obtain m where m: "m > 0" "(simple_fold U ^^ m) a = a"
    using assms unfolding orbits_return_def by blast
  then have "(simple_fold U ^^ (m - 1)) (simple_fold U a) = a"
    by (metis Suc_pred' comp_apply funpow_Suc_right)
  from while_option_orbit_Some [OF this, of "\<lambda>r. r \<noteq> a \<and> r \<noteq> b"]
  show ?thesis by (auto simp: funpow_swap1)
qed

lemma equal_fold_returns:
  assumes "orbits_return U"
  shows "equal_fold U a b = Some (folds U a b)"
  using equal_fold_loop_returns [OF assms, of a b] by (auto simp: equal_fold_def)

lemma equal_fold_refl [simp]: "equal_fold U a a = Some True"
  by (simp add: equal_fold_def)

text \<open>Short orbits.\<close>

lemma simple_fold_fixed_equal: "simple_fold U a = a \<Longrightarrow> equal_fold U a b = Some (a = b)"
  by (auto simp: equal_fold_def while_option_unfold)

lemma equal_fold_orbit2:
  "simple_fold U a = b \<Longrightarrow> simple_fold U b = a \<Longrightarrow> equal_fold U a x = Some (x = a \<or> x = b)"
  by (auto simp: equal_fold_def while_option_unfold)

lemma equal_fold_orbit3:
  "simple_fold U a = b \<Longrightarrow> simple_fold U b = c \<Longrightarrow> simple_fold U c = a \<Longrightarrow>
   equal_fold U a x = Some (x = a \<or> x = b \<or> x = c)"
  by (auto simp: equal_fold_def while_option_unfold)

section \<open>likeMatch\<close>

abbreviation pct :: rune where "pct \<equiv> 37"
abbreviation underscore :: rune where "underscore \<equiv> 95"

text \<open>The condition \<^verbatim>\<open>i < len(p) && (p[i] == '_' || equalFold(p[i], str[j]))\<close>; \<open>eq\<close> is
  \<open>equal_fold U\<close>.\<close>

definition rune_test :: "(rune \<Rightarrow> rune \<Rightarrow> bool option) \<Rightarrow> rune list \<Rightarrow> nat \<Rightarrow> rune \<Rightarrow> bool option" where
  "rune_test eq p i x =
    (if i < length p then if p ! i = underscore then Some True else eq (p ! i) x else Some False)"

text \<open>
  The loop over the rune slices \<open>p\<close> and \<open>str\<close> with the variables \<open>i\<close>, \<open>j\<close>, \<open>star\<close>
  (\<open>None\<close> for -1) and \<open>mark\<close>. \<open>Some None\<close> is the early \<^verbatim>\<open>return false\<close>,
  \<open>Some (Some i)\<close> leaving the loop with \<open>i\<close>.
\<close>

partial_function (option) like_loop ::
  "(rune \<Rightarrow> rune \<Rightarrow> bool option) \<Rightarrow> rune list \<Rightarrow> rune list \<Rightarrow> nat \<Rightarrow> nat \<Rightarrow> nat option \<Rightarrow> nat
    \<Rightarrow> nat option option" where
  "like_loop eq p str i j star mark =
    (if j < length str then
       (case rune_test eq p i (str ! j) of
          None \<Rightarrow> None
        | Some fits \<Rightarrow>
            if fits then like_loop eq p str (i + 1) (j + 1) star mark
            else if i < length p \<and> p ! i = pct then like_loop eq p str (i + 1) j (Some i) j
            else (case star of
                    Some st \<Rightarrow> like_loop eq p str (st + 1) (mark + 1) star (mark + 1)
                  | None \<Rightarrow> Some None))
     else Some (Some i))"

text \<open>The loop after it: \<^verbatim>\<open>for i < len(p) && p[i] == '%' { i++ }\<close>, then \<^verbatim>\<open>i == len(p)\<close>.\<close>

definition skip_pct :: "rune list \<Rightarrow> nat \<Rightarrow> nat" where
  "skip_pct p i = i + length (takeWhile (\<lambda>c. c = pct) (drop i p))"

definition like_runes :: "(rune \<Rightarrow> rune \<Rightarrow> bool option) \<Rightarrow> rune list \<Rightarrow> rune list \<Rightarrow> bool option" where
  "like_runes eq p str = map_option
     (\<lambda>r. case r of None \<Rightarrow> False | Some i \<Rightarrow> skip_pct p i = length p)
     (like_loop eq p str 0 0 None 0)"

definition like_match :: "unicode \<Rightarrow> string \<Rightarrow> string \<Rightarrow> bool option" where
  "like_match U pattern s = like_runes (equal_fold U) (runes pattern) (runes s)"

definition matches_pattern :: "unicode \<Rightarrow> string option \<Rightarrow> string \<Rightarrow> bool option" where
  "matches_pattern U pattern name = (case pattern of
     None \<Rightarrow> Some True | Some p \<Rightarrow> if p = [] then Some True else like_match U p name)"

text \<open>The elements a test keeps, when it returns on all of them.\<close>

fun filter_opt :: "('a \<Rightarrow> bool option) \<Rightarrow> 'a list \<Rightarrow> 'a list option" where
  "filter_opt f [] = Some []"
| "filter_opt f (x # xs) = (case f x of
     None \<Rightarrow> None
   | Some b \<Rightarrow> map_option (\<lambda>ys. if b then x # ys else ys) (filter_opt f xs))"

definition filter_by_pattern :: "unicode \<Rightarrow> string list \<Rightarrow> string option \<Rightarrow> string list option" where
  "filter_by_pattern U names pattern = (case pattern of
     None \<Rightarrow> Some names | Some p \<Rightarrow> if p = [] then Some names else filter_opt (like_match U p) names)"

definition is_pattern :: "string \<Rightarrow> bool" where
  "is_pattern s = contains_any s ''%_''"

definition table_type_allowed :: "unicode \<Rightarrow> string \<Rightarrow> string list \<Rightarrow> bool" where
  "table_type_allowed U tt flt = (flt = [] \<or> list_ex (\<lambda>f. str_equal_fold U f tt) flt)"

section \<open>likeClause\<close>

text \<open>\<open>like_chars\<close> is the loop over the runes of the pattern; \<open>None\<close> is the \<^verbatim>\<open>return ""\<close> at a
  rune Spark cannot take.\<close>

definition plain_rune :: "rune \<Rightarrow> bool" where
  "plain_rune r \<longleftrightarrow> 97 \<le> r \<and> r \<le> 122 \<or> 65 \<le> r \<and> r \<le> 90 \<or> 48 \<le> r \<and> r \<le> 57"

fun like_chars :: "rune list \<Rightarrow> string option" where
  "like_chars [] = Some []"
| "like_chars (r # rs) =
    (if r = pct then map_option ((#) CHR ''*'') (like_chars rs)
     else if r = underscore then map_option ((#) CHR ''.'') (like_chars rs)
     else if plain_rune r then map_option ((@) (encode_rune r)) (like_chars rs)
     else None)"

definition like_clause :: "string option \<Rightarrow> string" where
  "like_clause pattern = (case pattern of
     None \<Rightarrow> []
   | Some p \<Rightarrow> if p = [] then []
       else (case like_chars (runes p) of
               None \<Rightarrow> []
             | Some like \<Rightarrow> '' LIKE '' @ [CHR 39] @ like @ [CHR 39]))"

section \<open>What a LIKE pattern means\<close>

text \<open>A percent sign stands for any runes, an underscore for any one rune, any other rune for
  a rune equal to it.\<close>

fun like_spec :: "(rune \<Rightarrow> rune \<Rightarrow> bool) \<Rightarrow> rune list \<Rightarrow> rune list \<Rightarrow> bool" where
  "like_spec eq [] s = (s = [])"
| "like_spec eq (c # p) [] = (c = pct \<and> like_spec eq p [])"
| "like_spec eq (c # p) (x # s) =
    (if c = pct then like_spec eq p (x # s) \<or> like_spec eq (c # p) s
     else (c = underscore \<or> eq c x) \<and> like_spec eq p s)"

definition rune_fits :: "(rune \<Rightarrow> rune \<Rightarrow> bool) \<Rightarrow> rune \<Rightarrow> rune \<Rightarrow> bool" where
  "rune_fits eq c x \<longleftrightarrow> c = underscore \<or> eq c x"

lemma like_spec_Nil_iff: "like_spec eq p [] \<longleftrightarrow> (\<forall>c\<in>set p. c = pct)"
  by (induction p) auto

lemma like_spec_pct:
  "like_spec eq (pct # p) s \<longleftrightarrow> (\<exists>k\<le>length s. like_spec eq p (drop k s))"
proof (induction s)
  case (Cons x s)
  have "(\<exists>k\<le>length (x # s). like_spec eq p (drop k (x # s))) \<longleftrightarrow>
        like_spec eq p (x # s) \<or> (\<exists>k\<le>length s. like_spec eq p (drop k s))"
  proof
    assume "\<exists>k\<le>length (x # s). like_spec eq p (drop k (x # s))"
    then obtain k where k: "k \<le> length (x # s)" "like_spec eq p (drop k (x # s))" by blast
    then show "like_spec eq p (x # s) \<or> (\<exists>k\<le>length s. like_spec eq p (drop k s))"
      by (cases k) auto
  next
    assume "like_spec eq p (x # s) \<or> (\<exists>k\<le>length s. like_spec eq p (drop k s))"
    then show "\<exists>k\<le>length (x # s). like_spec eq p (drop k (x # s))"
      by (metis Suc_le_mono drop0 drop_Suc_Cons le0 length_Cons)
  qed
  with Cons.IH show ?case by simp
qed simp

lemma like_spec_pct_drop:
  "like_spec eq (pct # p) (drop m s) \<Longrightarrow> like_spec eq (pct # p) s"
  unfolding like_spec_pct
  by (metis drop_all drop_drop le_cases length_0_conv le_zero_eq length_drop)

text \<open>A literal segment (no percent sign) is consumed rune by rune.\<close>

lemma like_spec_segment:
  assumes "pct \<notin> set seg"
  shows "like_spec eq (seg @ q) s \<longleftrightarrow>
    length seg \<le> length s \<and> list_all2 (rune_fits eq) seg (take (length seg) s)
    \<and> like_spec eq q (drop (length seg) s)"
  using assms
proof (induction seg arbitrary: s)
  case (Cons c seg)
  then show ?case by (cases s) (auto simp: rune_fits_def)
qed simp

lemma like_spec_length:
  "like_spec eq p s \<Longrightarrow> length (filter (\<lambda>c. c \<noteq> pct) p) \<le> length s"
proof (induction eq p s rule: like_spec.induct)
  case (3 eq c p x s)
  show ?case
  proof (cases "c = pct")
    case True
    with "3.prems" consider "like_spec eq p (x # s)" | "like_spec eq (c # p) s" by auto
    then show ?thesis using True "3.IH"(1,2) by cases auto
  next
    case False
    then show ?thesis using "3.IH"(3) "3.prems" by simp
  qed
qed auto

section \<open>The loop computes the meaning of the pattern\<close>

text \<open>
  Between the iterations: with no percent sign seen, what is left to match is the rest of
  both slices. Once the last percent sign stands at \<open>st\<close>, the answer is that of the pattern
  from \<open>st\<close> on the name from \<open>mark\<close> on, and the segment after the percent sign fits the
  runes from \<open>mark\<close> to \<open>j\<close>.
\<close>

fun like_inv :: "(rune \<Rightarrow> rune \<Rightarrow> bool) \<Rightarrow> rune list \<Rightarrow> rune list \<Rightarrow> nat \<Rightarrow> nat \<Rightarrow> nat option \<Rightarrow> nat \<Rightarrow> bool"
  where
  "like_inv eq p str i j None mark \<longleftrightarrow>
     i \<le> length p \<and> j \<le> length str \<and> mark = 0 \<and>
     like_spec eq p str = like_spec eq (drop i p) (drop j str)"
| "like_inv eq p str i j (Some st) mark \<longleftrightarrow>
     st < i \<and> i \<le> length p \<and> mark \<le> j \<and> j \<le> length str \<and> p ! st = pct \<and>
     (\<exists>seg. drop (Suc st) p = seg @ drop i p \<and> pct \<notin> set seg \<and> length seg = j - mark \<and>
        list_all2 (rune_fits eq) seg (take (j - mark) (drop mark str))) \<and>
     like_spec eq p str = like_spec eq (drop st p) (drop mark str)"

lemma like_inv_SomeI:
  "st < i \<Longrightarrow> i \<le> length p \<Longrightarrow> mark \<le> j \<Longrightarrow> j \<le> length str \<Longrightarrow> p ! st = pct \<Longrightarrow>
   drop (Suc st) p = seg @ drop i p \<Longrightarrow> pct \<notin> set seg \<Longrightarrow> length seg = j - mark \<Longrightarrow>
   list_all2 (rune_fits eq) seg (take (j - mark) (drop mark str)) \<Longrightarrow>
   like_spec eq p str = like_spec eq (drop st p) (drop mark str) \<Longrightarrow>
   like_inv eq p str i j (Some st) mark"
  by auto

lemma like_inv_SomeE:
  assumes "like_inv eq p str i j (Some st) mark"
  obtains seg where "st < i" "i \<le> length p" "mark \<le> j" "j \<le> length str" "p ! st = pct"
    "drop (Suc st) p = seg @ drop i p" "pct \<notin> set seg" "length seg = j - mark"
    "list_all2 (rune_fits eq) seg (take (j - mark) (drop mark str))"
    "like_spec eq p str = like_spec eq (drop st p) (drop mark str)"
  using assms by auto

lemma drop_star:
  assumes "p ! st = pct" "st < length p" "drop (Suc st) p = seg @ q"
  shows "drop st p = pct # seg @ q"
  using assms by (metis drop_eq_Cons_nth)

lemma like_inv_advance:
  assumes inv: "like_inv eq p str i j star mark"
    and lt: "j < length str" "i < length p"
    and fits: "rune_fits eq (p ! i) (str ! j)" and lit: "p ! i \<noteq> pct"
  shows "like_inv eq p str (Suc i) (Suc j) star mark"
proof (cases star)
  case None
  have "like_spec eq (drop i p) (drop j str) = like_spec eq (drop (Suc i) p) (drop (Suc j) str)"
    unfolding drop_eq_Cons_nth [OF lt(1)] drop_eq_Cons_nth [OF lt(2)]
    using fits lit by (simp add: rune_fits_def)
  then show ?thesis using inv lt None by auto
next
  case (Some st)
  with inv have "like_inv eq p str i j (Some st) mark" by simp
  then obtain seg where seg: "st < i" "i \<le> length p" "mark \<le> j" "j \<le> length str" "p ! st = pct"
    "drop (Suc st) p = seg @ drop i p" "pct \<notin> set seg" "length seg = j - mark"
    "list_all2 (rune_fits eq) seg (take (j - mark) (drop mark str))"
    "like_spec eq p str = like_spec eq (drop st p) (drop mark str)" by (rule like_inv_SomeE)
  have tk: "take (Suc j - mark) (drop mark str) = take (j - mark) (drop mark str) @ [str ! j]"
    using seg lt(1) take_Suc_snoc [of "j - mark" "drop mark str"]
    by (auto simp: Suc_diff_le)
  have "list_all2 (rune_fits eq) (seg @ [p ! i]) (take (Suc j - mark) (drop mark str))"
    unfolding tk using seg(9) fits by (rule list_all2_snoc)
  then show ?thesis unfolding Some using seg lt lit drop_eq_Cons_nth [OF lt(2)]
    by (intro like_inv_SomeI [of _ _ _ _ _ _ "seg @ [p ! i]"]) simp_all
qed

lemma like_inv_star:
  assumes inv: "like_inv eq p str i j star mark"
    and lt: "i < length p" and star: "p ! i = pct"
  shows "like_inv eq p str (Suc i) j (Some i) j"
proof -
  have j: "j \<le> length str" using inv by (cases star) auto
  have "like_spec eq p str = like_spec eq (drop i p) (drop j str)"
  proof (cases star)
    case None
    with inv show ?thesis by simp
  next
    case (Some st)
    with inv have "like_inv eq p str i j (Some st) mark" by simp
    then obtain seg where seg: "st < i" "i \<le> length p" "mark \<le> j" "j \<le> length str" "p ! st = pct"
      "drop (Suc st) p = seg @ drop i p" "pct \<notin> set seg" "length seg = j - mark"
      "list_all2 (rune_fits eq) seg (take (j - mark) (drop mark str))"
      "like_spec eq p str = like_spec eq (drop st p) (drop mark str)" by (rule like_inv_SomeE)
    have pi: "drop i p = pct # drop (Suc i) p" using drop_eq_Cons_nth [OF lt] star by simp
    have ps: "drop st p = pct # seg @ drop i p"
      using seg lt by (intro drop_star) auto
    have dd: "drop (length seg) (drop mark str) = drop j str"
      using seg by simp
    have "like_spec eq (drop st p) (drop mark str) \<longleftrightarrow> like_spec eq (drop i p) (drop j str)"
    proof
      assume "like_spec eq (drop st p) (drop mark str)"
      then obtain k where "like_spec eq (seg @ drop i p) (drop k (drop mark str))"
        unfolding ps like_spec_pct by blast
      then have "like_spec eq (drop i p) (drop k (drop j str))"
        unfolding like_spec_segment [OF seg(7)] dd [symmetric] by (simp add: add_ac)
      then show "like_spec eq (drop i p) (drop j str)"
        unfolding pi by (rule like_spec_pct_drop)
    next
      assume "like_spec eq (drop i p) (drop j str)"
      then have "like_spec eq (seg @ drop i p) (drop mark str)"
        unfolding like_spec_segment [OF seg(7)] dd using seg by simp
      then show "like_spec eq (drop st p) (drop mark str)"
        unfolding ps like_spec_pct by (metis drop0 le0)
    qed
    with seg show ?thesis by simp
  qed
  then show ?thesis using lt star j by (intro like_inv_SomeI [of _ _ _ _ _ _ "[]"]) simp_all
qed

lemma like_stuck:
  assumes "j < length str" "i \<le> length p"
    and "\<not> (i < length p \<and> rune_fits eq (p ! i) (str ! j))" "\<not> (i < length p \<and> p ! i = pct)"
  shows "\<not> like_spec eq (drop i p) (drop j str)"
proof (cases "i < length p")
  case True
  then show ?thesis
    unfolding drop_eq_Cons_nth [OF assms(1)] drop_eq_Cons_nth [OF True]
    using assms by (simp add: rune_fits_def)
qed (use assms in simp)

lemma like_inv_back:
  assumes inv: "like_inv eq p str i j (Some st) mark" and lt: "j < length str"
    and stuck: "\<not> (i < length p \<and> rune_fits eq (p ! i) (str ! j))" "\<not> (i < length p \<and> p ! i = pct)"
  shows "like_inv eq p str (Suc st) (Suc mark) (Some st) (Suc mark)"
proof -
  from inv obtain seg where seg: "st < i" "i \<le> length p" "mark \<le> j" "j \<le> length str" "p ! st = pct"
    "drop (Suc st) p = seg @ drop i p" "pct \<notin> set seg" "length seg = j - mark"
    "list_all2 (rune_fits eq) seg (take (j - mark) (drop mark str))"
    "like_spec eq p str = like_spec eq (drop st p) (drop mark str)" by (rule like_inv_SomeE)
  have ps: "drop st p = pct # seg @ drop i p" using seg by (intro drop_star) auto
  have dd: "drop (length seg) (drop mark str) = drop j str" using seg by simp
  have "\<not> like_spec eq (seg @ drop i p) (drop mark str)"
    unfolding like_spec_segment [OF seg(7)] dd using like_stuck [OF lt seg(2) stuck] by blast
  moreover have "drop mark str = str ! mark # drop (Suc mark) str"
    using seg lt by (intro drop_eq_Cons_nth) simp
  ultimately have "like_spec eq (drop st p) (drop mark str)
      = like_spec eq (drop st p) (drop (Suc mark) str)"
    unfolding ps by simp
  then show ?thesis using seg lt by (intro like_inv_SomeI [of _ _ _ _ _ _ "[]"]) simp_all
qed

lemma skip_pct_all: "i \<le> length p \<Longrightarrow> skip_pct p i = length p \<longleftrightarrow> (\<forall>c\<in>set (drop i p). c = pct)"
proof -
  assume "i \<le> length p"
  then have "skip_pct p i = length p \<longleftrightarrow> length (takeWhile (\<lambda>c. c = pct) (drop i p)) = length (drop i p)"
    by (auto simp: skip_pct_def)
  also have "\<dots> \<longleftrightarrow> takeWhile (\<lambda>c. c = pct) (drop i p) = drop i p"
    by (metis takeWhile_eq_take take_all_iff le_refl)
  also have "\<dots> \<longleftrightarrow> (\<forall>c\<in>set (drop i p). c = pct)" by (rule takeWhile_eq_all_conv)
  finally show ?thesis .
qed

lemma like_inv_exit:
  assumes inv: "like_inv eq p str i j star mark" and j: "\<not> j < length str"
  shows "like_spec eq p str = (skip_pct p i = length p)"
proof (cases star)
  case None
  with inv j show ?thesis by (auto simp: like_spec_Nil_iff skip_pct_all)
next
  case (Some st)
  with inv have "like_inv eq p str i j (Some st) mark" by simp
  then obtain seg where seg: "st < i" "i \<le> length p" "mark \<le> j" "j \<le> length str" "p ! st = pct"
    "drop (Suc st) p = seg @ drop i p" "pct \<notin> set seg" "length seg = j - mark"
    "list_all2 (rune_fits eq) seg (take (j - mark) (drop mark str))"
    "like_spec eq p str = like_spec eq (drop st p) (drop mark str)" by (rule like_inv_SomeE)
  have ps: "drop st p = pct # seg @ drop i p" using seg by (intro drop_star) auto
  have len: "length (filter (\<lambda>c. c \<noteq> pct) seg) = length seg"
    using seg(7) by (metis (mono_tags, lifting) filter_True)
  have "like_spec eq (drop st p) (drop mark str) \<longleftrightarrow> (\<forall>c\<in>set (drop i p). c = pct)"
  proof
    assume "like_spec eq (drop st p) (drop mark str)"
    then have "length seg + length (filter (\<lambda>c. c \<noteq> pct) (drop i p)) \<le> length str - mark"
      using like_spec_length [of eq "drop st p" "drop mark str"] len unfolding ps by simp
    then have "length (filter (\<lambda>c. c \<noteq> pct) (drop i p)) = 0"
      using seg(3,4,8) j by linarith
    then have "filter (\<lambda>c. c \<noteq> pct) (drop i p) = []" by simp
    then show "\<forall>c\<in>set (drop i p). c = pct" by (simp add: filter_empty_conv)
  next
    assume "\<forall>c\<in>set (drop i p). c = pct"
    then have "like_spec eq (drop i p) (drop j str)" using j by (simp add: like_spec_Nil_iff)
    then have "like_spec eq (seg @ drop i p) (drop mark str)"
      unfolding like_spec_segment [OF seg(7)] using seg by simp
    then show "like_spec eq (drop st p) (drop mark str)"
      unfolding ps like_spec_pct by (metis drop0 le0)
  qed
  with seg show ?thesis by (simp add: skip_pct_all)
qed

text \<open>Each iteration moves the last percent sign on, or the mark, or \<open>i\<close>: the loop returns, with
  the meaning of the pattern.\<close>

definition like_rel :: "rune list \<Rightarrow> rune list \<Rightarrow> ((nat \<times> nat \<times> nat option \<times> nat) \<times> (nat \<times> nat \<times> nat option \<times> nat)) set"
  where
  "like_rel p str = measures
     [\<lambda>(i, j, star, mark). length p - (case star of None \<Rightarrow> 0 | Some st \<Rightarrow> Suc st),
      \<lambda>(i, j, star, mark). length str - mark, \<lambda>(i, j, star, mark). length p - i]"

lemma wf_like_rel: "wf (like_rel p str)"
  unfolding like_rel_def by (rule wf_measures)

text \<open>On runes on which the comparison returns, the loop is the one over its result \<open>e\<close>.\<close>

definition eq_returns :: "(rune \<Rightarrow> rune \<Rightarrow> bool option) \<Rightarrow> (rune \<Rightarrow> rune \<Rightarrow> bool) \<Rightarrow> rune list \<Rightarrow> rune list \<Rightarrow> bool"
  where
  "eq_returns eq e p str \<longleftrightarrow> (\<forall>c\<in>set p. \<forall>x\<in>set str. eq c x = Some (e c x))"

lemma like_loop_step:
  assumes "eq_returns eq e p str"
  shows "like_loop eq p str i j star mark =
    (if j < length str then
       if i < length p \<and> rune_fits e (p ! i) (str ! j) then
         like_loop eq p str (i + 1) (j + 1) star mark
       else if i < length p \<and> p ! i = pct then
         like_loop eq p str (i + 1) j (Some i) j
       else (case star of
               Some st \<Rightarrow> like_loop eq p str (st + 1) (mark + 1) star (mark + 1)
             | None \<Rightarrow> Some None)
     else Some (Some i))"
proof -
  have "rune_test eq p i (str ! j) = Some (i < length p \<and> rune_fits e (p ! i) (str ! j))" if "j < length str"
    using assms that by (simp add: rune_test_def eq_returns_def rune_fits_def)
  then show ?thesis by (subst like_loop.simps) simp
qed

lemma like_loop_spec:
  assumes eq: "eq_returns eq e p str" and nopct: "\<forall>x\<in>set str. \<not> e pct x"
  shows "like_inv e p str i j star mark \<Longrightarrow>
    \<exists>r. like_loop eq p str i j star mark = Some r \<and>
      like_spec e p str = (case r of None \<Rightarrow> False | Some i' \<Rightarrow> skip_pct p i' = length p)"
proof (induction "(i, j, star, mark)" arbitrary: i j star mark
    rule: wf_induct_rule [OF wf_like_rel [of p str]])
  case (1 i j star mark)
  note IH = "1.hyps" and inv = "1.prems"
  show ?case
  proof (cases "j < length str")
    case False
    then have "like_loop eq p str i j star mark = Some (Some i)" by (simp add: like_loop_step [OF eq])
    with like_inv_exit [OF inv False] show ?thesis by simp
  next
    case j: True
    consider (fits) "i < length p" "rune_fits e (p ! i) (str ! j)"
      | (star) "i < length p" "p ! i = pct" "\<not> rune_fits e (p ! i) (str ! j)"
      | (stuck) "\<not> (i < length p \<and> rune_fits e (p ! i) (str ! j))" "\<not> (i < length p \<and> p ! i = pct)"
      by blast
    then show ?thesis
    proof cases
      case fits
      have "p ! i \<noteq> pct" using fits(2) nopct j by (auto simp: rune_fits_def)
      from like_inv_advance [OF inv j fits(1,2) this]
      have "like_inv e p str (i + 1) (j + 1) star mark" by simp
      moreover have "((i + 1, j + 1, star, mark), (i, j, star, mark)) \<in> like_rel p str"
        using fits(1) by (simp add: like_rel_def)
      moreover have "like_loop eq p str i j star mark = like_loop eq p str (i + 1) (j + 1) star mark"
        using fits j by (subst like_loop_step [OF eq]) auto
      ultimately show ?thesis using IH by simp
    next
      case star
      from like_inv_star [OF inv star(1,2)]
      have "like_inv e p str (i + 1) j (Some i) j" by simp
      moreover have "((i + 1, j, Some i, j), (i, j, star, mark)) \<in> like_rel p str"
        using star(1) inv by (cases "star :: nat option") (auto simp: like_rel_def)
      moreover have "like_loop eq p str i j star mark = like_loop eq p str (i + 1) j (Some i) j"
        using star j by (subst like_loop_step [OF eq]) auto
      ultimately show ?thesis using IH by simp
    next
      case stuck
      show ?thesis
      proof (cases star)
        case None
        have "i \<le> length p" using inv None by simp
        then have "\<not> like_spec e p str" using like_stuck [OF j _ stuck] inv None by simp
        moreover have "like_loop eq p str i j star mark = Some None"
          using stuck j None by (subst like_loop_step [OF eq]) auto
        ultimately show ?thesis by simp
      next
        case (Some st)
        from like_inv_back [OF inv [unfolded Some] j stuck] Some
        have "like_inv e p str (st + 1) (mark + 1) star (mark + 1)" by simp
        moreover have "((st + 1, mark + 1, star, mark + 1), (i, j, star, mark)) \<in> like_rel p str"
          using inv Some j by (auto simp: like_rel_def)
        moreover have "like_loop eq p str i j star mark
            = like_loop eq p str (st + 1) (mark + 1) star (mark + 1)"
          using stuck j Some by (subst like_loop_step [OF eq]) auto
        ultimately show ?thesis using IH by simp
      qed
    qed
  qed
qed

lemma like_runes_spec:
  assumes "eq_returns eq e p str" "\<forall>x\<in>set str. \<not> e pct x"
  shows "like_runes eq p str = Some (like_spec e p str)"
  using like_loop_spec [OF assms, of 0 0 None 0]
  by (auto simp: like_runes_def split: option.splits)

text \<open>Returning does not depend on the name: the loop stops on every input on which the comparison returns.\<close>

fun like_bounds :: "rune list \<Rightarrow> nat \<Rightarrow> nat \<Rightarrow> nat option \<Rightarrow> nat \<Rightarrow> bool" where
  "like_bounds p i j None mark \<longleftrightarrow> i \<le> length p"
| "like_bounds p i j (Some st) mark \<longleftrightarrow> st < i \<and> i \<le> length p \<and> mark \<le> j"

lemma like_loop_returns:
  assumes eq: "eq_returns eq e p str"
  shows "like_bounds p i j star mark \<Longrightarrow> \<exists>r. like_loop eq p str i j star mark = Some r"
proof (induction "(i, j, star, mark)" arbitrary: i j star mark
    rule: wf_induct_rule [OF wf_like_rel [of p str]])
  case (1 i j star mark)
  note IH = "1.hyps" and inv = "1.prems"
  show ?case
  proof (cases "j < length str")
    case False
    then show ?thesis by (simp add: like_loop_step [OF eq])
  next
    case j: True
    consider (fits) "i < length p" "rune_fits e (p ! i) (str ! j)"
      | (star) "i < length p" "p ! i = pct" "\<not> rune_fits e (p ! i) (str ! j)"
      | (stuck) "\<not> (i < length p \<and> rune_fits e (p ! i) (str ! j))"
          "\<not> (i < length p \<and> p ! i = pct)"
      by blast
    then show ?thesis
    proof cases
      case fits
      then have "like_bounds p (i + 1) (j + 1) star mark" using inv by (cases star) auto
      moreover have "((i + 1, j + 1, star, mark), (i, j, star, mark)) \<in> like_rel p str"
        using fits(1) by (simp add: like_rel_def)
      ultimately show ?thesis using IH fits j by (subst like_loop_step [OF eq]) auto
    next
      case star
      then have "like_bounds p (i + 1) j (Some i) j" by simp
      moreover have "((i + 1, j, Some i, j), (i, j, star, mark)) \<in> like_rel p str"
        using star(1) inv by (cases "star :: nat option") (auto simp: like_rel_def)
      ultimately show ?thesis using IH star j by (subst like_loop_step [OF eq]) auto
    next
      case stuck
      show ?thesis
      proof (cases star)
        case None
        then show ?thesis using stuck j by (subst like_loop_step [OF eq]) auto
      next
        case (Some st)
        then have "like_bounds p (st + 1) (mark + 1) (Some st) (mark + 1)" using inv by auto
        moreover have "((st + 1, mark + 1, star, mark + 1), (i, j, star, mark)) \<in> like_rel p str"
          using inv Some j by (auto simp: like_rel_def)
        ultimately show ?thesis using IH stuck j Some by (subst like_loop_step [OF eq]) auto
      qed
    qed
  qed
qed

lemma eq_returns_fold: "orbits_return U \<Longrightarrow> eq_returns (equal_fold U) (folds U) p str"
  using equal_fold_returns by (simp add: eq_returns_def)

lemma like_match_returned:
  assumes "orbits_return U"
  shows "\<exists>b. like_match U pattern s = Some b"
  using like_loop_returns [OF eq_returns_fold [OF assms], of "runes pattern" 0 0 None 0 "runes s"]
  by (auto simp: like_match_def like_runes_def)

text \<open>What the filters compute then.\<close>

abbreviation name_matches :: "unicode \<Rightarrow> string option \<Rightarrow> string \<Rightarrow> bool" where
  "name_matches U pattern name \<equiv> matches_pattern U pattern name = Some True"

lemma matches_pattern_returned:
  assumes "orbits_return U"
  shows "matches_pattern U pattern name = Some (name_matches U pattern name)"
  using like_match_returned [OF assms, of "the pattern" name]
  by (cases pattern) (auto simp: matches_pattern_def)

lemma filter_opt_returned:
  "(\<And>x. x \<in> set xs \<Longrightarrow> f x = Some (g x)) \<Longrightarrow> filter_opt f xs = Some (filter g xs)"
  by (induction xs) auto

lemma filter_opt_subset: "filter_opt f xs = Some ys \<Longrightarrow> set ys \<subseteq> set xs"
  by (induction xs arbitrary: ys) (fastforce split: option.splits if_splits)+

lemma filter_by_pattern_returned:
  assumes "orbits_return U"
  shows "filter_by_pattern U names pattern = Some (filter (name_matches U pattern) names)"
proof (cases "pattern = None \<or> pattern = Some []")
  case True
  then show ?thesis by (auto simp: filter_by_pattern_def matches_pattern_def)
next
  case False
  then obtain p where p: "pattern = Some p" "p \<noteq> []" by auto
  have "filter_opt (like_match U p) names = Some (filter (\<lambda>n. like_match U p n = Some True) names)"
  proof (rule filter_opt_returned)
    fix n show "like_match U p n = Some (like_match U p n = Some True)"
      using like_match_returned [OF assms, of p n] by auto
  qed
  then show ?thesis using p by (simp add: filter_by_pattern_def matches_pattern_def)
qed

section \<open>The clause sent to Spark\<close>

text \<open>
  Spark's own syntax, as the comment of \<^verbatim>\<open>likeClause\<close> documents it, on patterns of letters,
  digits, dots and stars and on ASCII names: a star stands for any characters, a dot for any
  one, a letter for itself in either case.
\<close>

fun spark_glob :: "string \<Rightarrow> string \<Rightarrow> bool" where
  "spark_glob [] s = (s = [])"
| "spark_glob (c # p) [] = (c = CHR ''*'' \<and> spark_glob p [])"
| "spark_glob (c # p) (x # s) =
    (if c = CHR ''*'' then spark_glob p (x # s) \<or> spark_glob (c # p) s
     else (c = CHR ''.'' \<or> ascii_lower c = ascii_lower x) \<and> spark_glob p s)"

text \<open>The two links of \<^verbatim>\<open>unicode.SimpleFold\<close> back into ASCII.\<close>

definition fold_links :: "unicode \<Rightarrow> bool" where
  "fold_links U \<longleftrightarrow> fold_tab U 0x212A = 75 \<and> fold_tab U 0x17F = 83"

definition lower_rune :: "rune \<Rightarrow> rune" where
  "lower_rune r = (if 65 \<le> r \<and> r \<le> 90 then r + 32 else r)"

lemma equal_fold_ascii:
  assumes "fold_links U" "a < 128" "x < 128"
  shows "equal_fold U a x = Some (lower_rune a = lower_rune x)"
proof -
  consider "a = 75" | "a = 107" | "a = 83" | "a = 115"
    | "65 \<le> a \<and> a \<le> 90 \<and> a \<noteq> 75 \<and> a \<noteq> 83" | "97 \<le> a \<and> a \<le> 122 \<and> a \<noteq> 107 \<and> a \<noteq> 115"
    | "\<not> (65 \<le> a \<and> a \<le> 90)" "\<not> (97 \<le> a \<and> a \<le> 122)"
    by linarith
  then show ?thesis
  proof cases
    case 1
    with assms show ?thesis
      by (subst equal_fold_orbit3 [of U a 107 "0x212A"])
        (auto simp: simple_fold_def fold_links_def lower_rune_def)
  next
    case 2
    with assms show ?thesis
      by (subst equal_fold_orbit3 [of U a "0x212A" 75])
        (auto simp: simple_fold_def fold_links_def lower_rune_def)
  next
    case 3
    with assms show ?thesis
      by (subst equal_fold_orbit3 [of U a 115 "0x17F"])
        (auto simp: simple_fold_def fold_links_def lower_rune_def)
  next
    case 4
    with assms show ?thesis
      by (subst equal_fold_orbit3 [of U a "0x17F" 83])
        (auto simp: simple_fold_def fold_links_def lower_rune_def)
  next
    case 5
    with assms show ?thesis
      by (subst equal_fold_orbit2 [of U a "a + 32"]) (auto simp: simple_fold_def lower_rune_def)
  next
    case 6
    with assms show ?thesis
      by (subst equal_fold_orbit2 [of U a "a - 32"]) (auto simp: simple_fold_def lower_rune_def)
  next
    case 7
    with assms show ?thesis
      by (subst simple_fold_fixed_equal) (auto simp: simple_fold_def lower_rune_def)
  qed
qed

lemma equal_fold_pct: "equal_fold U pct x = Some (x = pct)"
  by (subst simple_fold_fixed_equal) (auto simp: simple_fold_def)

lemma ascii_lower_eq_iff:
  "of_char c < (128::nat) \<Longrightarrow> of_char x < (128::nat) \<Longrightarrow>
   ascii_lower c = ascii_lower x \<longleftrightarrow> lower_rune (of_char c) = lower_rune (of_char x)"
proof -
  assume "of_char c < (128::nat)" "of_char x < (128::nat)"
  moreover have "of_char (ascii_lower y) = lower_rune (of_char y)" if "of_char y < (128::nat)" for y
    using that by (auto simp: ascii_lower_def lower_rune_def)
  ultimately show ?thesis by (metis char_of_char)
qed

lemma plain_rune_bounds: "plain_rune r \<Longrightarrow> 48 \<le> r \<and> r \<le> 122"
  by (auto simp: plain_rune_def)

lemma plain_rune_char:
  assumes "plain_rune r"
  shows "encode_rune r = [char_of r]" "char_of r \<noteq> CHR ''*''" "char_of r \<noteq> CHR ''.''"
proof -
  have r: "48 \<le> r" "r < 128" using plain_rune_bounds [OF assms] by auto
  then show "encode_rune r = [char_of r]" by (simp add: encode_rune_ascii)
  have "of_char (char_of r :: char) = r" using r by simp
  moreover have "of_char (CHR ''*'') = (42::nat)" "of_char (CHR ''.'') = (46::nat)" by simp_all
  ultimately show "char_of r \<noteq> CHR ''*''" "char_of r \<noteq> CHR ''.''"
    using r by (auto dest: arg_cong [of _ _ "of_char :: char \<Rightarrow> nat"])
qed

lemma like_chars_ascii: "like_chars rs = Some q \<Longrightarrow> c \<in> set rs \<Longrightarrow> c < 128"
  by (induction rs arbitrary: q) (auto dest: plain_rune_bounds split: if_splits)

text \<open>The tables with the links of ASCII and nothing else have orbits of up to three runes.\<close>

lemma ascii_orbits: "orbits_return ascii_tables"
proof -
  let ?f = "simple_fold ascii_tables"
  have "?f (?f (?f r)) = r \<or> ?f (?f r) = r" for r
  proof (cases "r \<in> {75, 107, 0x212A, 83, 115, 0x17F}")
    case True
    have "?f 75 = 107" "?f 107 = 0x212A" "?f 0x212A = 75" "?f 83 = 115" "?f 115 = 0x17F" "?f 0x17F = 83"
      by (simp_all add: simple_fold_def ascii_tables_def)
    then show ?thesis using True by (elim insertE emptyE) simp_all
  next
    case False
    consider "65 \<le> r" "r \<le> 90" | "97 \<le> r" "r \<le> 122" | "r < 65 \<or> 90 < r \<and> r < 97 \<or> 122 < r" by linarith
    then show ?thesis
    proof cases
      case 1
      then have "?f r = r + 32" "?f (r + 32) = r" using False by (simp_all add: simple_fold_def)
      then show ?thesis by simp
    next
      case 2
      then have "?f r = r - 32" "?f (r - 32) = r" using False by (auto simp: simple_fold_def)
      then show ?thesis by simp
    next
      case 3
      then have "?f r = r" using False by (auto simp: simple_fold_def ascii_tables_def)
      then show ?thesis by simp
    qed
  qed
  then have "(?f ^^ 3) r = r \<or> (?f ^^ 2) r = r" for r by (simp add: numeral_eq_Suc)
  then show ?thesis unfolding orbits_return_def by (metis zero_less_numeral)
qed

lemma like_chars_glob:
  assumes "fold_links U" "ascii n" "like_chars rs = Some q"
  shows "like_spec (folds U) rs (map of_char n) \<longleftrightarrow> spark_glob q n"
  using assms(2,3)
proof (induction "folds U" rs "map of_char n :: rune list" arbitrary: n q rule: like_spec.induct)
  case (2 c p)
  then show ?case by (auto split: if_splits simp: plain_rune_char)
next
  case (3 c p x s)
  then obtain y n' where n: "n = y # n'" "x = of_char y" "s = map of_char n'" by auto
  with 3 have y: "of_char y < (128::nat)" "ascii n'" by auto
  consider "c = pct" | "c = underscore" | "plain_rune c" "c \<noteq> pct" "c \<noteq> underscore"
    using "3.prems"(2) by (auto split: if_splits)
  then show ?case
  proof cases
    case 1
    with "3.prems" obtain q' where q: "q = CHR ''*'' # q'" "like_chars p = Some q'"
      by (auto split: if_splits)
    have "like_spec (folds U) p (map of_char n) = spark_glob q' n"
      using "3.hyps"(1) [of n q'] 1 "3.prems"(1) q(2) "3.hyps"(4) by simp
    moreover have "like_spec (folds U) (c # p) (map of_char n') = spark_glob q n'"
      using "3.hyps"(2) [of n' q] 1 "3.prems"(2) y(2) n(3) by simp
    ultimately show ?thesis using 1 n q(1) by simp
  next
    case 2
    with "3.prems" obtain q' where q: "q = CHR ''.'' # q'" "like_chars p = Some q'"
      by (auto split: if_splits)
    then show ?thesis using 2 n y "3.hyps"(3) [of n' q'] by simp
  next
    case 3
    have c: "c < 128" using plain_rune_bounds [OF 3(1)] by simp
    with 3 "3.prems" obtain q' where q: "q = char_of c # q'" "like_chars p = Some q'"
      by (auto split: if_splits simp: encode_rune_ascii)
    note plain_rune_char(2,3) [OF 3(1)]
    then show ?thesis
      using 3 n q y c "3.hyps"(3) [of n' q'] equal_fold_ascii [OF assms(1) c y(1)]
        ascii_lower_eq_iff [of "char_of c" y]
      by simp
  qed
qed auto

section \<open>Properties\<close>

text \<open>C30: \<^verbatim>\<open>likeMatch\<close> always returns: whatever the pattern and the name, the two-pointer loop with its
  backtracking ends, and so does every comparison of two runes in it, because \<^verbatim>\<open>unicode.SimpleFold\<close>
  comes back to the rune it starts from, as it is documented to.\<close>

theorem like_match_returns:
  assumes "orbits_return U"
  shows "\<exists>b. like_match U pattern s = Some b"
  using assms by (rule like_match_returned)

theorem like_match_returns_witness: "\<exists>b. like_match ascii_tables ''%_b%'' ''aaBc'' = Some b"
  by (rule like_match_returns [OF ascii_orbits])

text \<open>C11: on names without a percent sign \<^verbatim>\<open>likeMatch\<close> is SQL LIKE: it returns, and accepts exactly what
  the recursive definition accepts, in which a percent sign stands for any runes, an underscore for
  one and a rune for its case-folding class.\<close>

theorem like_match_is_sql_like:
  assumes "orbits_return U" "pct \<notin> set (runes s)"
  shows "like_match U pattern s = Some (like_spec (folds U) (runes pattern) (runes s))"
proof -
  have "\<forall>x\<in>set (runes s). \<not> folds U pct x" using assms(2) by (auto simp: equal_fold_pct)
  then show ?thesis unfolding like_match_def by (rule like_runes_spec [OF eq_returns_fold [OF assms(1)]])
qed

theorem like_match_is_sql_like_witness:
  "like_match ascii_tables ''%_b'' ''aaB'' =
     Some (like_spec (folds ascii_tables) (runes ''%_b'') (runes ''aaB''))"
  by (rule like_match_is_sql_like [OF ascii_orbits]) simp

text \<open>C13: the clause sent to Spark only narrows the listing. When a pattern has a clause, Spark's
  pattern (in the syntax its documentation gives) accepts an ASCII name without a percent sign exactly
  when the client's filter does, so no such name that the client wants is missing from the answer. A
  percent sign in the name is where the two can differ: for the name \<^verbatim>\<open>%a\<close> Spark accepts what
  the pattern \<^verbatim>\<open>%\<close> is sent as, and the client does not accept the name.\<close>

theorem like_clause_narrows:
  assumes "fold_links U" and "like_clause (Some p) = '' LIKE '' @ [CHR 0x27] @ q @ [CHR 0x27]"
    and "ascii n" "CHR ''%'' \<notin> set n"
  shows "matches_pattern U (Some p) n = Some (spark_glob q n)"
proof -
  from assms(2) have p: "p \<noteq> []" "like_chars (runes p) = Some q"
    by (auto simp: like_clause_def split: if_splits option.splits)
  have r: "runes n = map of_char n" using assms(3) by (rule runes_ascii)
  have "pct \<notin> set (runes n)"
  proof
    assume "pct \<in> set (runes n)"
    then obtain c where "c \<in> set n" "of_char c = (37::nat)" by (auto simp: r)
    moreover have "of_char (CHR ''%'') = (37::nat)" by simp
    ultimately have "c = CHR ''%''" by (metis char_of_char)
    with \<open>c \<in> set n\<close> assms(4) show False by simp
  qed
  then have "\<forall>x\<in>set (runes n). \<not> folds U pct x" by (auto simp: equal_fold_pct)
  moreover have "eq_returns (equal_fold U) (folds U) (runes p) (runes n)"
    using like_chars_ascii [OF p(2)] assms(3) equal_fold_ascii [OF assms(1)]
    by (auto simp: eq_returns_def r ascii_def)
  ultimately have "like_match U p n = Some (like_spec (folds U) (runes p) (runes n))"
    unfolding like_match_def by (rule like_runes_spec [rotated])
  then show ?thesis using like_chars_glob [OF assms(1,3) p(2)] p(1)
    by (simp add: matches_pattern_def r)
qed

theorem like_clause_narrows_witness:
  "matches_pattern ascii_tables (Some ''s%_1'') ''Sales_1'' = Some (spark_glob ''s*.1'' ''Sales_1'')"
  by (rule like_clause_narrows)
    (simp_all add: fold_links_def ascii_tables_def like_clause_def
      plain_rune_def encode_rune_def valid_rune_def ascii_def char_of_def bit_0)

end
