(* ===== verification/Sql_Names.thy ===== *)
theory Sql_Names
  imports Go_Strings
begin

text \<open>
  The quoting of identifiers in \<^verbatim>\<open>driver/spark/connection.go\<close>: \<^verbatim>\<open>quoteIdent\<close> and
  \<^verbatim>\<open>quoteQualifiedName\<close>, and a scanner that reads quoted names back: a doubled backtick stands
  for one, a single one closes the identifier. The names the driver puts into SQL are read back
  exactly, whatever bytes of valid UTF-8 they hold.
\<close>

abbreviation backtick :: char where "backtick \<equiv> CHR 0x60"

section \<open>quoteIdent and quoteQualifiedName\<close>

text \<open>The loop over the runes of the identifier, appending to \<^verbatim>\<open>escaped\<close>.\<close>

definition escape_rune :: "string \<Rightarrow> rune \<Rightarrow> string" where
  "escape_rune escaped r =
    (if r = 0x60 then escaped @ [backtick, backtick] else escaped @ encode_rune r)"

definition quote_ident :: "string \<Rightarrow> string" where
  "quote_ident ident = [backtick] @ foldl escape_rune [] (runes ident) @ [backtick]"

definition name_parts :: "string option \<Rightarrow> string option \<Rightarrow> string \<Rightarrow> string list" where
  "name_parts catalog db_schema table =
     (case catalog of Some c \<Rightarrow> if c \<noteq> [] then [c] else [] | None \<Rightarrow> [])
     @ (case db_schema of Some d \<Rightarrow> if d \<noteq> [] then [d] else [] | None \<Rightarrow> [])
     @ [table]"

definition quote_qualified_name :: "string option \<Rightarrow> string option \<Rightarrow> string \<Rightarrow> string" where
  "quote_qualified_name catalog db_schema table =
    (let parts = map quote_ident (name_parts catalog db_schema table)
     in foldl (\<lambda>out p. out @ ''.'' @ p) (hd parts) (tl parts))"

section \<open>Reading quoted names back\<close>

definition prepend :: "string \<Rightarrow> (string \<times> string) option \<Rightarrow> (string \<times> string) option" where
  "prepend w r = map_option (apfst ((@) w)) r"

fun read_body :: "string \<Rightarrow> (string \<times> string) option" where
  "read_body [] = None"
| "read_body (c # s) =
    (if c = backtick then
       (case s of
          [] \<Rightarrow> Some ([], [])
        | c' # s' \<Rightarrow> if c' = backtick then prepend [backtick] (read_body s')
                     else Some ([], c' # s'))
     else prepend [c] (read_body s))"

definition read_ident :: "string \<Rightarrow> (string \<times> string) option" where
  "read_ident s = (case s of c # s' \<Rightarrow> if c = backtick then read_body s' else None | [] \<Rightarrow> None)"

text \<open>A dot-separated list of quoted identifiers that spans the whole string.\<close>

fun read_names :: "nat \<Rightarrow> string \<Rightarrow> string list option" where
  "read_names 0 s = None"
| "read_names (Suc fuel) s =
    (case read_ident s of
       None \<Rightarrow> None
     | Some (n, rest) \<Rightarrow>
         (case rest of
            [] \<Rightarrow> Some [n]
          | d # rest' \<Rightarrow> if d = CHR ''.'' then map_option ((#) n) (read_names fuel rest') else None))"

definition read_qualified :: "string \<Rightarrow> string list option" where
  "read_qualified s = read_names (Suc (length s)) s"

section \<open>Quoting is read back\<close>

definition valid_utf8 :: "string \<Rightarrow> bool" where
  "valid_utf8 s \<longleftrightarrow> encode_runes (runes s) = s"

definition escape_one :: "rune \<Rightarrow> string" where
  "escape_one r = (if r = 0x60 then [backtick, backtick] else encode_rune r)"

lemma foldl_escape: "foldl escape_rune acc rs = acc @ concat (map escape_one rs)"
  by (induction rs arbitrary: acc) (auto simp: escape_rune_def escape_one_def)

lemma quote_ident_eq: "quote_ident s = [backtick] @ concat (map escape_one (runes s)) @ [backtick]"
  by (simp add: quote_ident_def foldl_escape)

lemma of_char_backtick: "of_char backtick = (0x60::nat)"
  by simp

lemma char_of_96 [simp]: "char_of (0x60::nat) = backtick"
proof -
  have "char_of (of_char backtick :: nat) = backtick" by (rule char_of_char)
  then show ?thesis by (simp only: of_char_backtick)
qed

lemma char_of_backtick:
  assumes "n < 256" shows "backtick = char_of (n::nat) \<longleftrightarrow> n = 0x60"
proof
  assume "backtick = char_of n"
  then have "of_char backtick = (of_char (char_of n :: char) :: nat)" by (rule arg_cong)
  then show "n = 0x60" using assms by simp
qed simp

lemma encode_rune_backtick:
  assumes "r \<noteq> 0x60" shows "backtick \<notin> set (encode_rune r)"
proof -
  define q where "q = (if valid_rune r then r else rune_error)"
  have q: "q \<noteq> 0x60" "q \<le> 0x10FFFF"
    using assms by (auto simp: q_def rune_error_def valid_rune_def)
  have enc: "encode_rune r = (if q < 0x80 then [char_of q]
     else if q < 0x800 then [char_of (0xC0 + q div 64), char_of (0x80 + q mod 64)]
     else if q < 0x10000 then
       [char_of (0xE0 + q div 4096), char_of (0x80 + q div 64 mod 64), char_of (0x80 + q mod 64)]
     else
       [char_of (0xF0 + q div 262144), char_of (0x80 + q div 4096 mod 64),
        char_of (0x80 + q div 64 mod 64), char_of (0x80 + q mod 64)])"
    by (simp add: encode_rune_def q_def Let_def)
  have m: "n mod 64 < 64" for n :: nat by simp
  have b: "backtick \<noteq> char_of (0x80 + n mod 64)" for n :: nat
    using m [of n] by (subst char_of_backtick) linarith+
  have "q < 0x800 \<Longrightarrow> q div 64 < 32" "q < 0x10000 \<Longrightarrow> q div 4096 < 16" "q div 262144 \<le> 4"
    using q(2) by auto
  then show ?thesis
    using q b char_of_backtick [of q] char_of_backtick [of "0xC0 + q div 64"]
      char_of_backtick [of "0xE0 + q div 4096"] char_of_backtick [of "0xF0 + q div 262144"]
    by (auto simp: enc)
qed

lemma prepend_simps [simp]:
  "prepend u (Some (w, s)) = Some (u @ w, s)" "prepend u None = None"
  by (simp_all add: prepend_def)

lemma prepend_prepend [simp]: "prepend [] r = r" "prepend u (prepend v r) = prepend (u @ v) r"
  by (cases r; auto)+

lemma read_body_plain: "backtick \<notin> set w \<Longrightarrow> read_body (w @ s) = prepend w (read_body s)"
  by (induction w) auto

lemma read_body_escape_one: "read_body (escape_one r @ s) = prepend (encode_rune r) (read_body s)"
proof (cases "r = 0x60")
  case True
  then show ?thesis by (simp add: escape_one_def encode_rune_ascii)
next
  case False
  then show ?thesis by (simp add: escape_one_def read_body_plain encode_rune_backtick)
qed

lemma read_body_escapes:
  "read_body (concat (map escape_one rs) @ s) = prepend (encode_runes rs) (read_body s)"
  by (induction rs) (simp_all add: read_body_escape_one)

definition no_tick :: "string \<Rightarrow> bool" where
  "no_tick s \<longleftrightarrow> (case s of [] \<Rightarrow> True | c # _ \<Rightarrow> c \<noteq> backtick)"

lemma read_quote_ident:
  assumes "valid_utf8 s" "no_tick rest"
  shows "read_ident (quote_ident s @ rest) = Some (s, rest)"
proof -
  have "read_body (backtick # rest) = Some ([], rest)"
    using assms(2) by (auto simp: no_tick_def split: list.splits)
  with read_body_escapes [of "runes s" "backtick # rest"] assms(1)
  show ?thesis by (simp add: read_ident_def quote_ident_eq valid_utf8_def del: read_body.simps)
qed

fun dotted :: "string list \<Rightarrow> string" where
  "dotted [] = []"
| "dotted [p] = quote_ident p"
| "dotted (p # ps) = quote_ident p @ ''.'' @ dotted ps"

lemma foldl_dots:
  "foldl (\<lambda>out p. out @ CHR ''.'' # p) acc (map quote_ident ps)
     = acc @ concat (map (\<lambda>p. CHR ''.'' # quote_ident p) ps)"
  by (induction ps arbitrary: acc) auto

lemma dotted_Cons: "dotted (p # ps) = quote_ident p @ concat (map (\<lambda>p. CHR ''.'' # quote_ident p) ps)"
  by (induction ps arbitrary: p) auto

lemma quote_qualified_name_dotted:
  "quote_qualified_name c d t = dotted (name_parts c d t)"
proof -
  obtain p ps where ps: "name_parts c d t = p # ps"
    by (cases "name_parts c d t") (auto simp: name_parts_def)
  then show ?thesis
    by (simp add: quote_qualified_name_def foldl_dots dotted_Cons Let_def)
qed

lemma quote_ident_nonempty: "2 \<le> length (quote_ident s)"
  by (simp add: quote_ident_eq)

lemma read_names_dotted:
  assumes "ps \<noteq> []" "list_all valid_utf8 ps" "length (dotted ps) < fuel"
  shows "read_names fuel (dotted ps) = Some ps"
  using assms
proof (induction ps arbitrary: fuel rule: dotted.induct)
  case (2 p)
  then obtain f where "fuel = Suc f" by (cases fuel) auto
  with 2 show ?case using read_quote_ident [of p "[]"] by (simp add: no_tick_def)
next
  case (3 p q qs)
  then obtain f where f: "fuel = Suc f" by (cases fuel) auto
  have "read_ident (dotted (p # q # qs)) = Some (p, ''.'' @ dotted (q # qs))"
    using read_quote_ident [of p "''.'' @ dotted (q # qs)"] 3 by (simp add: no_tick_def)
  moreover have "read_names f (dotted (q # qs)) = Some (q # qs)"
    using 3 f quote_ident_nonempty [of p] by simp
  ultimately show ?case using f by simp
qed simp

lemma read_quote_qualified_name:
  "list_all valid_utf8 (name_parts c d t) \<Longrightarrow>
   read_qualified (quote_qualified_name c d t) = Some (name_parts c d t)"
  unfolding read_qualified_def quote_qualified_name_dotted
  by (rule read_names_dotted) (auto simp: name_parts_def)

section \<open>Properties\<close>

text \<open>C14: no name can escape its backticks. Whatever catalog, schema and table names are given
  (as valid UTF-8), a lexer that reads backtick-quoted identifiers separated by dots reads from
  the text \<^verbatim>\<open>quoteQualifiedName\<close> builds exactly the names that are not empty, and nothing after
  them.\<close>

theorem quoted_names_read_back:
  assumes "list_all valid_utf8 (name_parts catalog db_schema table)"
  shows "read_qualified (quote_qualified_name catalog db_schema table) =
    Some (name_parts catalog db_schema table)"
  using assms by (rule read_quote_qualified_name)

theorem quoted_names_read_back_witness:
  "read_qualified (quote_qualified_name (Some ''a`.`b'') None ''t; DROP'') = Some [''a`.`b'', ''t; DROP'']"
  using quoted_names_read_back [of "Some ''a`.`b''" None "''t; DROP''"]
  by (simp add: name_parts_def valid_utf8_def encode_rune_def valid_rune_def char_of_def bit_0)

end
