(* ===== verification/Conn_Config.thy ===== *)
theory Conn_Config
  imports Go_Strings
begin

text \<open>
  \<^verbatim>\<open>internal/sparkconnect/config.go\<close>: the \<^verbatim>\<open>Config\<close> structure, the parser of connection strings
  \<^verbatim>\<open>ParseConnectionString\<close> with \<^verbatim>\<open>applyParam\<close> and \<^verbatim>\<open>splitHostPort\<close>, and \<^verbatim>\<open>Endpoint\<close>. Errors are
  constructors that carry the values the message is formatted from. The lemmas show what each
  stage does on the text a printer produces, and what parameters can do to a configuration.
\<close>

section \<open>Config\<close>

record config =
  cfg_host :: string
  cfg_port :: int
  cfg_use_tls :: bool
  cfg_token :: string
  cfg_user_id :: string
  cfg_user_agent :: string
  cfg_session_id :: string
  cfg_headers :: "string \<rightharpoonup> string"

definition default_port :: int where
  "default_port = 15002"

definition default_user_agent :: string where
  "default_user_agent = ''adbc-driver-spark''"

datatype config_error =
    EmptyConnection
  | UnsupportedScheme string
  | MissingHost string
  | InvalidPort string
  | MalformedParam string
  | InvalidBool string

section \<open>ParseConnectionString\<close>

text \<open>The literal the function starts from; every field not named is Go's zero value.\<close>

definition new_config :: config where
  "new_config = \<lparr>cfg_host = [], cfg_port = default_port, cfg_use_tls = False, cfg_token = [],
     cfg_user_id = [], cfg_user_agent = default_user_agent, cfg_session_id = [],
     cfg_headers = Map.empty\<rparr>"

definition split_scheme :: "unicode \<Rightarrow> string \<Rightarrow> string \<times> string" where
  "split_scheme U conn = (case str_index conn ''://'' of
     Some i \<Rightarrow> (to_lower U (take i conn), drop (i + 3) conn)
   | None \<Rightarrow> ([], conn))"

definition scheme_tls :: "string \<Rightarrow> bool option" where
  "scheme_tls scheme =
    (if scheme \<in> {'''', ''sc'', ''grpc''} then Some False
     else if scheme \<in> {''grpcs'', ''sc+tls''} then Some True
     else None)"

definition split_params :: "string \<Rightarrow> string \<times> string" where
  "split_params rest = (case str_index rest ''/;'' of
     Some i \<Rightarrow> (take i rest, drop (i + 2) rest)
   | None \<Rightarrow> (case str_index rest '';'' of
       Some i \<Rightarrow> (take i rest, drop (i + 1) rest)
     | None \<Rightarrow> (case str_index rest ''/'' of
         Some i \<Rightarrow> (take i rest, [])
       | None \<Rightarrow> (rest, []))))"

text \<open>\<open>None\<close> is the result with \<^verbatim>\<open>ok\<close> false: an opening bracket that is not closed.\<close>

definition split_host_port :: "string \<Rightarrow> (string \<times> string) option" where
  "split_host_port s =
    (if prefix ''['' s then
       (case str_index s '']'' of
          None \<Rightarrow> None
        | Some e \<Rightarrow>
            (let host = take (e - 1) (drop 1 s) in
             if length s > e + 1 \<and> s ! (e + 1) = CHR '':'' then Some (host, drop (e + 2) s)
             else Some (host, [])))
     else (case last_index s '':'' of
             Some i \<Rightarrow> Some (take i s, drop (i + 1) s)
           | None \<Rightarrow> Some (s, [])))"

definition set_host_port :: "string \<Rightarrow> config \<Rightarrow> config_error + config" where
  "set_host_port host_port cfg = (case split_host_port host_port of
     Some (host, port) \<Rightarrow>
       (let cfg = cfg\<lparr>cfg_host := host\<rparr> in
        if port \<noteq> [] then
          (case atoi port of
             None \<Rightarrow> Inl (InvalidPort port)
           | Some p \<Rightarrow> Inr (cfg\<lparr>cfg_port := p\<rparr>))
        else Inr cfg)
   | None \<Rightarrow> Inr (cfg\<lparr>cfg_host := host_port\<rparr>))"

definition user_keys :: "string list" where "user_keys = [''user_id'', ''userid'', ''user'']"
definition agent_keys :: "string list" where "agent_keys = [''user_agent'', ''useragent'']"
definition session_keys :: "string list" where "session_keys = [''session_id'', ''sessionid'']"
definition tls_keys :: "string list" where
  "tls_keys = [''use_ssl'', ''usessl'', ''use_tls'', ''usetls'', ''ssl'']"

definition apply_param :: "string \<Rightarrow> string \<Rightarrow> config \<Rightarrow> config_error + config" where
  "apply_param key value c =
    (if key \<in> set user_keys then Inr (c\<lparr>cfg_user_id := value\<rparr>)
     else if key = ''token'' then Inr (c\<lparr>cfg_token := value\<rparr>)
     else if key \<in> set agent_keys then Inr (c\<lparr>cfg_user_agent := value\<rparr>)
     else if key \<in> set session_keys then Inr (c\<lparr>cfg_session_id := value\<rparr>)
     else if key \<in> set tls_keys then
       (case parse_bool value of
          None \<Rightarrow> Inl (InvalidBool key)
        | Some b \<Rightarrow> Inr (c\<lparr>cfg_use_tls := b\<rparr>))
     else Inr (c\<lparr>cfg_headers := (cfg_headers c)(key \<mapsto> value)\<rparr>))"

text \<open>One \<^verbatim>\<open>key=value\<close> item of the parameter list, then the loop over the list.\<close>

definition unescape_or_keep :: "string \<Rightarrow> string" where
  "unescape_or_keep value = (case path_unescape value of Some v \<Rightarrow> v | None \<Rightarrow> value)"

definition apply_item :: "unicode \<Rightarrow> string \<Rightarrow> config \<Rightarrow> config_error + config" where
  "apply_item U kv cfg =
    (if kv = [] then Inr cfg
     else (case str_cut kv ''='' of (key, value, found) \<Rightarrow>
       if \<not> found then Inl (MalformedParam kv)
       else apply_param (to_lower U (trim_space key)) (unescape_or_keep value) cfg))"

fun apply_items :: "unicode \<Rightarrow> string list \<Rightarrow> config \<Rightarrow> config_error + config" where
  "apply_items U [] cfg = Inr cfg"
| "apply_items U (kv # kvs) cfg = bind_res (apply_item U kv cfg) (apply_items U kvs)"

definition parse_connection_string :: "unicode \<Rightarrow> string \<Rightarrow> config_error + config" where
  "parse_connection_string U conn =
    (if conn = [] then Inl EmptyConnection
     else (case split_scheme U conn of (scheme, rest) \<Rightarrow>
       (case scheme_tls scheme of
          None \<Rightarrow> Inl (UnsupportedScheme scheme)
        | Some tls \<Rightarrow>
            (case split_params rest of (host_port0, params) \<Rightarrow>
              let host_port = trim_suffix host_port0 ''/'' in
              if host_port = [] then Inl (MissingHost conn)
              else bind_res (set_host_port host_port (new_config\<lparr>cfg_use_tls := tls\<rparr>))
                (\<lambda>cfg. if params \<noteq> [] then apply_items U (split_on CHR '';'' params) cfg
                       else Inr cfg)))))"

text \<open>\<^verbatim>\<open>Endpoint\<close>: \<^verbatim>\<open>fmt.Sprintf("%s:%d", c.Host, c.Port)\<close>.\<close>

definition endpoint :: "config \<Rightarrow> string" where
  "endpoint c = cfg_host c @ '':'' @ itoa (cfg_port c)"

text \<open>The names of parameters that set a field; any other is the name of a header.\<close>

definition parameter_names :: "string list list" where
  "parameter_names =
    [[''user_id'', ''userid'', ''user''], [''token''], [''user_agent'', ''useragent''],
     [''session_id'', ''sessionid''], [''use_ssl'', ''usessl'', ''use_tls'', ''usetls'', ''ssl'']]"

definition reserved_keys :: "string set" where
  "reserved_keys = set (concat parameter_names)"

lemmas key_list_defs = parameter_names_def user_keys_def agent_keys_def session_keys_def tls_keys_def

section \<open>Printing a connection string\<close>

text \<open>The canonical \<^verbatim>\<open>sc://host:port/;key=value;...\<close> form of a configuration, with percent-escaped
  values; \<open>hs\<close> lists the headers.\<close>

definition conn_params :: "config \<Rightarrow> (string \<times> string) list \<Rightarrow> (string \<times> string) list" where
  "conn_params c hs =
    [(''user_id'', cfg_user_id c), (''token'', cfg_token c), (''user_agent'', cfg_user_agent c),
     (''session_id'', cfg_session_id c),
     (''use_ssl'', if cfg_use_tls c then ''true'' else ''false'')] @ hs"

definition print_item :: "string \<times> string \<Rightarrow> string" where
  "print_item kv = fst kv @ ''='' @ path_escape (snd kv)"

fun join :: "char \<Rightarrow> string list \<Rightarrow> string" where
  "join sep [] = []"
| "join sep [w] = w"
| "join sep (w # ws) = w @ sep # join sep ws"

text \<open>An IPv6 literal is written in brackets.\<close>

definition print_host :: "string \<Rightarrow> string" where
  "print_host h = (if CHR '':'' \<in> set h then ''['' @ h @ '']'' else h)"

definition print_connection :: "config \<Rightarrow> (string \<times> string) list \<Rightarrow> string" where
  "print_connection c hs =
     ''sc://'' @ print_host (cfg_host c) @ '':'' @ itoa (cfg_port c) @ ''/;''
       @ join CHR '';'' (map print_item (conn_params c hs))"

text \<open>Hosts and header names the form can carry.\<close>

definition plain_host :: "string \<Rightarrow> bool" where
  "plain_host h \<longleftrightarrow> set h \<inter> set ''/[]'' = {}"

definition plain_key :: "string \<Rightarrow> bool" where
  "plain_key k \<longleftrightarrow> (\<forall>c\<in>set k. byte_in 97 122 c \<or> byte_in 48 57 c \<or> c \<in> set ''-_.'')"

lemma split_on_join:
  "ws \<noteq> [] \<Longrightarrow> \<forall>w\<in>set ws. sep \<notin> set w \<Longrightarrow> split_on sep (join sep ws) = ws"
proof (induction sep ws rule: join.induct)
  case (3 sep w v ws)
  then show ?case by (simp add: split_on_append)
qed (simp_all add: split_on_absent)

lemma plain_key_facts:
  assumes "plain_key k"
  shows "to_lower U (trim_space k) = k" "CHR ''='' \<notin> set k" "CHR '';'' \<notin> set k"
proof -
  have c: "45 \<le> (of_char c :: nat) \<and> of_char c \<le> (122::nat) \<and> \<not> (65 \<le> (of_char c :: nat) \<and> of_char c \<le> (90::nat))
      \<and> of_char c \<noteq> (61::nat) \<and> of_char c \<noteq> (59::nat)"
    if "c \<in> set k" for c
    using assms that by (auto simp: plain_key_def byte_in_def)
  then have "ascii k" "no_space k"
    by (fastforce simp: ascii_def, fastforce simp: no_space_def is_space_def)
  moreover have "map ascii_lower k = k"
    using c by (intro map_idI) (auto simp: ascii_lower_def)
  ultimately show "to_lower U (trim_space k) = k" by (simp add: trim_space_id to_lower_ascii)
  have "of_char (CHR ''='') = (61::nat)" "of_char (CHR '';'') = (59::nat)" by simp_all
  then show "CHR ''='' \<notin> set k" "CHR '';'' \<notin> set k" using c by fastforce+
qed

lemma path_escape_no_sep: "c \<in> {CHR '';'', CHR ''=''} \<Longrightarrow> c \<notin> set (path_escape s)"
  by (auto dest!: path_escape_chars simp: alnum_def byte_in_def)

lemma apply_print_item:
  assumes "plain_key k"
  shows "apply_item U (print_item (k, v)) c = apply_param k v c"
proof -
  have "str_cut (k @ CHR ''='' # path_escape v) ''='' = (k, path_escape v, True)"
    using plain_key_facts(2) [OF assms] by (rule str_cut_char)
  then show ?thesis
    using plain_key_facts(1) [OF assms]
    by (simp add: apply_item_def print_item_def unescape_or_keep_def path_unescape_escape)
qed

fun apply_params :: "(string \<times> string) list \<Rightarrow> config \<Rightarrow> config_error + config" where
  "apply_params [] c = Inr c"
| "apply_params (kv # kvs) c = bind_res (apply_param (fst kv) (snd kv) c) (apply_params kvs)"

lemma apply_printed_items:
  "\<forall>kv\<in>set kvs. plain_key (fst kv) \<Longrightarrow> apply_items U (map print_item kvs) c = apply_params kvs c"
proof (induction kvs arbitrary: c)
  case (Cons kv kvs)
  then show ?case
    by (cases kv) (auto simp: apply_print_item intro: bind_res_cong)
qed simp

fun put_all :: "(string \<rightharpoonup> string) \<Rightarrow> (string \<times> string) list \<Rightarrow> (string \<rightharpoonup> string)" where
  "put_all m [] = m"
| "put_all m (kv # kvs) = put_all (m(fst kv \<mapsto> snd kv)) kvs"

lemma apply_params_headers:
  assumes "\<forall>kv\<in>set hs. fst kv \<notin> reserved_keys"
  shows "apply_params hs c = Inr (c\<lparr>cfg_headers := put_all (cfg_headers c) hs\<rparr>)"
  using assms
proof (induction hs arbitrary: c)
  case (Cons kv hs)
  then have "apply_param (fst kv) (snd kv) c
      = Inr (c\<lparr>cfg_headers := (cfg_headers c)(fst kv \<mapsto> snd kv)\<rparr>)"
    by (auto simp: apply_param_def reserved_keys_def key_list_defs)
  then show ?case using Cons by simp
qed simp

lemma put_all_map_of: "distinct (map fst hs) \<Longrightarrow> put_all m hs = m ++ map_of hs"
proof (induction hs arbitrary: m)
  case (Cons kv hs)
  then have "fst kv \<notin> dom (map_of hs)" by (simp add: dom_map_of_conv_image_fst)
  then have "m(fst kv \<mapsto> snd kv) ++ map_of hs = (m ++ map_of hs)(fst kv \<mapsto> snd kv)"
    by (rule map_add_upd_left)
  moreover have "put_all (m(fst kv \<mapsto> snd kv)) hs = m(fst kv \<mapsto> snd kv) ++ map_of hs"
    using Cons by simp
  ultimately show ?case by (simp only: put_all.simps map_of.simps map_add_upd)
qed simp

section \<open>Parsing what was printed\<close>

lemma split_scheme_sc: "split_scheme U (''sc://'' @ rest) = (''sc'', rest)"
  by (simp add: split_scheme_def to_lower_ascii ascii_lower_def)

lemma itoa_chars: "c \<in> set (itoa v) \<Longrightarrow> byte_in 48 57 c \<or> c = CHR ''-''"
  by (auto simp: itoa_def dest: dec_digits_chars split: if_splits)

lemma itoa_no_sep: "c \<in> {CHR ''/'', CHR '';'', CHR '':''} \<Longrightarrow> c \<notin> set (itoa v)"
  by (auto dest!: itoa_chars simp: byte_in_def)

lemma split_params_canonical:
  assumes "CHR ''/'' \<notin> set hp"
  shows "split_params (hp @ ''/;'' @ params) = (hp, params)"
  using str_index_first [OF assms, of "'';''" params] by (simp add: split_params_def)

lemma split_host_port_plain:
  assumes "plain_host h" "CHR '':'' \<notin> set port"
  shows "split_host_port (print_host h @ CHR '':'' # port) = Some (h, port)"
proof (cases "CHR '':'' \<in> set h")
  case True
  have "CHR '']'' \<notin> set (CHR ''['' # h)" using assms(1) by (auto simp: plain_host_def)
  from str_index_first [OF this, of "[]" "CHR '':'' # port"] show ?thesis using True
    by (simp add: split_host_port_def print_host_def nth_append)
next
  case False
  have "\<not> prefix ''['' (h @ CHR '':'' # port)"
    using assms(1) by (cases h) (auto simp: plain_host_def)
  then show ?thesis
    using last_index_char [OF assms(2), of h] False by (simp add: split_host_port_def print_host_def)
qed

lemma itoa_nonempty [simp]: "itoa v \<noteq> []"
  by (simp add: itoa_def)

lemma trim_suffix_absent: "c \<notin> set s \<Longrightarrow> trim_suffix s [c] = s"
  by (auto simp: trim_suffix_def suffix_def)

lemma apply_conn_params:
  assumes "distinct (map fst hs)" "fst ` set hs \<inter> reserved_keys = {}" "cfg_headers c = map_of hs"
    and "cfg_host d = cfg_host c" "cfg_port d = cfg_port c" "cfg_headers d = Map.empty"
  shows "apply_params (conn_params c hs) d = Inr c"
proof -
  have "\<forall>kv\<in>set hs. fst kv \<notin> reserved_keys" using assms(2) by auto
  note headers = apply_params_headers [OF this] put_all_map_of [OF assms(1)]
  have b: "parse_bool (if cfg_use_tls c then ''true'' else ''false'') = Some (cfg_use_tls c)"
    by (simp add: parse_bool_def)
  show ?thesis
    using assms(3-6) b
    by (simp add: conn_params_def apply_param_def key_list_defs headers)
qed

lemma parse_print_connection:
  assumes host: "plain_host (cfg_host c)" and port: "in_int64 (cfg_port c)"
    and hs: "distinct (map fst hs)" "fst ` set hs \<inter> reserved_keys = {}" "cfg_headers c = map_of hs"
    and keys: "\<forall>kv\<in>set hs. plain_key (fst kv)"
  shows "parse_connection_string U (print_connection c hs) = Inr c"
proof -
  let ?hp = "print_host (cfg_host c) @ CHR '':'' # itoa (cfg_port c)"
  let ?items = "map print_item (conn_params c hs)"
  have slash: "CHR ''/'' \<notin> set ?hp" using host itoa_no_sep by (auto simp: plain_host_def print_host_def)
  have keys': "\<forall>kv\<in>set (conn_params c hs). plain_key (fst kv)"
    using keys by (auto simp: conn_params_def plain_key_def byte_in_def)
  have semi: "CHR '';'' \<notin> set (print_item kv)" if "kv \<in> set (conn_params c hs)" for kv
    using keys' that plain_key_facts(3) path_escape_no_sep [of "CHR '';''"]
    by (auto simp: print_item_def)
  have items: "split_on CHR '';'' (join CHR '';'' ?items) = ?items"
    using semi by (intro split_on_join) (auto simp: conn_params_def)
  have ne: "join CHR '';'' ?items \<noteq> []"
    by (simp add: conn_params_def print_item_def)
  have eq: "print_connection c hs = ''sc://'' @ ?hp @ ''/;'' @ join CHR '';'' ?items"
    by (simp add: print_connection_def)
  define d where "d = new_config\<lparr>cfg_host := cfg_host c, cfg_port := cfg_port c\<rparr>"
  have "set_host_port ?hp (new_config\<lparr>cfg_use_tls := False\<rparr>) = Inr d"
    using split_host_port_plain [OF host itoa_no_sep [of "CHR '':''"]] atoi_itoa [OF port]
    by (simp add: set_host_port_def d_def new_config_def)
  moreover have "apply_items U ?items d = Inr c"
    unfolding apply_printed_items [OF keys']
    by (rule apply_conn_params) (use hs in \<open>auto simp: d_def new_config_def\<close>)
  moreover have "trim_suffix ?hp ''/'' = ?hp" by (rule trim_suffix_absent [OF slash])
  ultimately show ?thesis
    unfolding parse_connection_string_def eq split_scheme_sc split_params_canonical [OF slash]
    by (simp add: split_params_canonical [OF slash, simplified] scheme_tls_def items ne
        del: split_on.simps join.simps list.map)
qed

section \<open>Spellings of a parameter\<close>

definition blank :: "char \<Rightarrow> bool" where
  "blank c \<longleftrightarrow> c = CHR '' '' \<or> c = CHR 0x09"

text \<open>A name in any case with blanks around it.\<close>

definition spells :: "string \<Rightarrow> string \<Rightarrow> bool" where
  "spells k name \<longleftrightarrow> name \<noteq> [] \<and> plain_key name \<and>
     (\<exists>l k' r. k = l @ k' @ r \<and> (\<forall>c\<in>set (l @ r). blank c) \<and> map ascii_lower k' = name)"

definition same_name :: "string \<Rightarrow> string \<Rightarrow> bool" where
  "same_name a b \<longleftrightarrow> a = b \<or> (\<exists>g\<in>set parameter_names. a \<in> set g \<and> b \<in> set g)"

definition same_item :: "string \<times> string \<Rightarrow> string \<times> string \<Rightarrow> bool" where
  "same_item kv kv' \<longleftrightarrow> snd kv = snd kv' \<and>
     (\<exists>a b. spells (fst kv) a \<and> spells (fst kv') b \<and> same_name a b)"

lemma blank_facts: "blank c \<Longrightarrow> is_space (of_char c) \<and> of_char c < (128::nat)"
  by (auto simp: blank_def is_space_def)

lemma trim_left_blanks: "\<forall>c\<in>set l. blank c \<Longrightarrow> trim_left (l @ s) = trim_left s"
proof (induction l)
  case (Cons c l)
  then have c: "is_space (of_char c)" "of_char c < (128::nat)" by (simp_all add: blank_facts)
  have "decode_rune (c # l @ s) = (of_char c, 1)" using c(2) by simp
  then show ?case using Cons c by simp
qed simp

lemma trim_right_blanks: "\<forall>c\<in>set r. blank c \<Longrightarrow> trim_right (s @ r) = trim_right s"
proof (induction r rule: rev_induct)
  case (snoc c r)
  then have c: "is_space (of_char c)" "of_char c < (128::nat)" by (simp_all add: blank_facts)
  then have "decode_last_rune (s @ r @ [c]) = (of_char c, 1)" by (simp add: decode_last_rune_def)
  then have "trim_right (s @ r @ [c]) = trim_right (s @ r)" using c(1) by (subst trim_right.simps) simp
  then show ?case using snoc by simp
qed simp

lemma plain_lower:
  assumes "byte_in 97 122 (ascii_lower c) \<or> byte_in 48 57 (ascii_lower c) \<or> ascii_lower c \<in> set ''-_.''"
  shows "45 \<le> (of_char c :: nat) \<and> of_char c \<le> (122::nat) \<and> of_char c \<noteq> (61::nat) \<and> of_char c \<noteq> (59::nat)"
proof (cases "65 \<le> (of_char c :: nat) \<and> of_char c \<le> (90::nat)")
  case True
  then show ?thesis by simp
next
  case False
  then have "ascii_lower c = c" by (auto simp: ascii_lower_def)
  then show ?thesis using assms by (auto simp: byte_in_def)
qed

lemma spells_read:
  assumes "spells k name"
  shows "to_lower U (trim_space k) = name" "CHR ''='' \<notin> set k" "CHR '';'' \<notin> set k"
proof -
  obtain l k' r where k: "k = l @ k' @ r" "\<forall>c\<in>set (l @ r). blank c" "map ascii_lower k' = name"
    using assms by (auto simp: spells_def)
  have name: "plain_key name" "name \<noteq> []" using assms by (simp_all add: spells_def)
  have c: "45 \<le> (of_char c :: nat) \<and> of_char c \<le> (122::nat) \<and> of_char c \<noteq> (61::nat) \<and> of_char c \<noteq> (59::nat)"
    if "c \<in> set k'" for c
  proof (rule plain_lower)
    have "ascii_lower c \<in> set name" using that k(3) by auto
    then show "byte_in 97 122 (ascii_lower c) \<or> byte_in 48 57 (ascii_lower c) \<or> ascii_lower c \<in> set ''-_.''"
      using name(1) unfolding plain_key_def by blast
  qed
  then have "ascii k'" "no_space k'"
    by (fastforce simp: ascii_def, fastforce simp: no_space_def is_space_def)
  moreover have "k' \<noteq> []" using k(3) name(2) by auto
  ultimately have "trim_left (k' @ r) = k' @ r" "trim_right k' = k'"
    using trim_space_id [of k']
    by (cases k'; simp add: no_space_def trim_space_def)+
  then have "trim_space k = k'"
    using k(1,2) trim_left_blanks [of l "k' @ r"] trim_right_blanks [of r k'] by (simp add: trim_space_def)
  then show "to_lower U (trim_space k) = name" using \<open>ascii k'\<close> k(3) by (simp add: to_lower_ascii)
  have "CHR ''='' \<notin> set k'" "CHR '';'' \<notin> set k'" using c [of "CHR ''=''"] c [of "CHR '';''"] by auto
  moreover have "\<not> blank (CHR ''='')" "\<not> blank (CHR '';'')" by (simp_all add: blank_def)
  ultimately show "CHR ''='' \<notin> set k" "CHR '';'' \<notin> set k" using k(1,2) by (metis Un_iff set_append)+
qed

lemma apply_spelled:
  assumes "spells k name"
  shows "apply_item U (print_item (k, v)) c = apply_param name v c"
proof -
  have "str_cut (k @ CHR ''='' # path_escape v) ''='' = (k, path_escape v, True)"
    using spells_read(2) [OF assms] by (rule str_cut_char)
  then show ?thesis
    using spells_read(1) [OF assms]
    by (simp add: apply_item_def print_item_def unescape_or_keep_def path_unescape_escape)
qed

lemma key_lists_disjoint:
  "a \<in> set agent_keys \<Longrightarrow> a \<notin> set user_keys \<and> a \<noteq> ''token''"
  "a \<in> set session_keys \<Longrightarrow> a \<notin> set user_keys \<and> a \<noteq> ''token'' \<and> a \<notin> set agent_keys"
  "a \<in> set tls_keys \<Longrightarrow> a \<notin> set user_keys \<and> a \<noteq> ''token'' \<and> a \<notin> set agent_keys \<and> a \<notin> set session_keys"
  by (auto simp: key_list_defs)

lemma same_name_param:
  assumes "same_name a b"
  shows "apply_param a v c = Inr c' \<longleftrightarrow> apply_param b v c = Inr c'"
proof -
  have names: "parameter_names = [user_keys, [''token''], agent_keys, session_keys, tls_keys]"
    by (simp add: key_list_defs)
  have "a = b \<or> (\<exists>g\<in>{user_keys, [''token''], agent_keys, session_keys, tls_keys}. a \<in> set g \<and> b \<in> set g)"
    using assms unfolding same_name_def names by simp
  then consider "a = b" | "a \<in> set user_keys" "b \<in> set user_keys" | "a \<in> set agent_keys" "b \<in> set agent_keys"
    | "a \<in> set session_keys" "b \<in> set session_keys" | "a \<in> set tls_keys" "b \<in> set tls_keys"
    by force
  then show ?thesis
    by cases (simp_all add: apply_param_def key_lists_disjoint split: option.split)
qed

lemma same_item_apply:
  assumes "same_item kv kv'"
  shows "apply_item U (print_item kv) c = Inr c' \<longleftrightarrow> apply_item U (print_item kv') c = Inr c'"
proof -
  obtain a b where ab: "spells (fst kv) a" "spells (fst kv') b" "same_name a b" "snd kv = snd kv'"
    using assms by (auto simp: same_item_def)
  have "apply_item U (print_item kv) c = apply_param a (snd kv) c"
    "apply_item U (print_item kv') c = apply_param b (snd kv) c"
    using apply_spelled [OF ab(1), of U "snd kv" c] apply_spelled [OF ab(2), of U "snd kv'" c] ab(4)
    by (cases kv; cases kv'; simp)+
  then show ?thesis using same_name_param [OF ab(3)] by simp
qed

lemma bind_res_Inr: "bind_res m f = Inr y \<longleftrightarrow> (\<exists>x. m = Inr x \<and> f x = Inr y)"
  by (cases m) simp_all

lemma apply_items_Nil: "apply_items U [] = Inr"
  by (rule ext) simp

lemma same_items_apply:
  "list_all2 same_item kvs kvs' \<Longrightarrow>
     apply_items U (map print_item kvs) c = Inr c' \<longleftrightarrow> apply_items U (map print_item kvs') c = Inr c'"
  by (induction arbitrary: c rule: list_all2_induct) (simp_all add: bind_res_Inr same_item_apply)

lemma same_items_read:
  assumes "list_all2 same_item kvs kvs'"
  shows "\<forall>kv\<in>set kvs. CHR '';'' \<notin> set (fst kv)" "\<forall>kv\<in>set kvs'. CHR '';'' \<notin> set (fst kv)"
  using assms
  by (induction rule: list_all2_induct) (auto simp: same_item_def dest: spells_read(3))

lemma parse_items:
  assumes "\<forall>kv\<in>set kvs. CHR '';'' \<notin> set (fst kv)" "CHR ''/'' \<notin> set hp"
  shows "parse_connection_string U (''sc://'' @ hp @ ''/;'' @ join CHR '';'' (map print_item kvs)) =
    (if hp = [] then Inl (MissingHost (''sc://'' @ hp @ ''/;'' @ join CHR '';'' (map print_item kvs)))
     else bind_res (set_host_port hp (new_config\<lparr>cfg_use_tls := False\<rparr>)) (apply_items U (map print_item kvs)))"
proof -
  have semi: "CHR '';'' \<notin> set (print_item kv)" if "kv \<in> set kvs" for kv
    using assms(1) that path_escape_no_sep [of "CHR '';''"] by (auto simp: print_item_def)
  have items: "split_on CHR '';'' (join CHR '';'' (map print_item kvs)) = map print_item kvs" if "kvs \<noteq> []"
    using semi that by (intro split_on_join) auto
  have ne: "join CHR '';'' (map print_item kvs) = [] \<longleftrightarrow> kvs = []"
  proof (cases kvs)
    case (Cons kv kvs')
    then show ?thesis by (cases kvs') (simp_all add: print_item_def)
  qed simp
  have "trim_suffix hp ''/'' = hp" by (rule trim_suffix_absent [OF assms(2)])
  then show ?thesis
    unfolding parse_connection_string_def split_scheme_sc
    using items ne
    by (cases "kvs = []") (simp_all add: split_params_canonical [OF assms(2), simplified] scheme_tls_def
        apply_items_Nil del: split_on.simps join.simps)
qed

section \<open>Properties\<close>

text \<open>C9: \<^verbatim>\<open>ParseConnectionString\<close> reads back what a configuration is written as. Every
  configuration whose host has no slash and no square bracket (an IPv6 literal is written in brackets),
  whose port is an \<^verbatim>\<open>int\<close> and whose header keys consist of lower-case letters, digits, hyphens,
  underscores and dots and are no names of parameters is the result of parsing its connection string,
  with arbitrary bytes in the user, the token, the user agent, the session id and the header values.\<close>

theorem connection_string_round_trip:
  assumes "plain_host (cfg_host c)" "in_int64 (cfg_port c)"
    and "distinct (map fst hs)" "fst ` set hs \<inter> reserved_keys = {}" "cfg_headers c = map_of hs"
    and "\<forall>kv\<in>set hs. plain_key (fst kv)"
  shows "parse_connection_string U (print_connection c hs) = Inr c"
  using assms by (rule parse_print_connection)

theorem connection_string_round_trip_witness:
  "parse_connection_string ascii_tables (print_connection
     (new_config\<lparr>cfg_host := ''::1'', cfg_token := ''a;b=%'', cfg_headers := map_of [(''x-y'', ''/'')]\<rparr>)
     [(''x-y'', ''/'')]) =
   Inr (new_config\<lparr>cfg_host := ''::1'', cfg_token := ''a;b=%'', cfg_headers := map_of [(''x-y'', ''/'')]\<rparr>)"
  by (rule connection_string_round_trip)
    (simp_all add: plain_host_def new_config_def default_port_def in_int64_def reserved_keys_def
      key_list_defs plain_key_def byte_in_def)



end
