(* ===== verification/Adbc_Errors.thy ===== *)
theory Adbc_Errors
  imports Conn_Config
begin

text \<open>
  The error values of the driver: the ADBC status codes (\<^verbatim>\<open>c/arrow-adbc/adbc.h\<close>), the Go value
  \<^verbatim>\<open>adbc.Error\<close>, and \<^verbatim>\<open>internal/sparkconnect/errors.go\<close>, which turns the errors of gRPC
  calls into it.
\<close>

section \<open>ADBC errors\<close>

datatype status =
    StatusOK | StatusUnknown | StatusNotImplemented | StatusNotFound | StatusAlreadyExists
  | StatusInvalidArgument | StatusInvalidState | StatusInvalidData | StatusIntegrity
  | StatusInternal | StatusIO | StatusCancelled | StatusTimeout | StatusUnauthenticated
  | StatusUnauthorized

fun status_code :: "status \<Rightarrow> nat" where
  "status_code StatusOK = 0"
| "status_code StatusUnknown = 1"
| "status_code StatusNotImplemented = 2"
| "status_code StatusNotFound = 3"
| "status_code StatusAlreadyExists = 4"
| "status_code StatusInvalidArgument = 5"
| "status_code StatusInvalidState = 6"
| "status_code StatusInvalidData = 7"
| "status_code StatusIntegrity = 8"
| "status_code StatusInternal = 9"
| "status_code StatusIO = 10"
| "status_code StatusCancelled = 11"
| "status_code StatusTimeout = 12"
| "status_code StatusUnauthenticated = 13"
| "status_code StatusUnauthorized = 14"

lemma status_code_inject [simp]: "status_code s = status_code t \<longleftrightarrow> s = t"
  by (cases s; cases t) simp_all

text \<open>A message is a text; the texts of the connection string's errors quote their argument with
  \<^verbatim>\<open>%q\<close> and are kept as the error. A detail of an error is a key and the outcome of \<^verbatim>\<open>Serialize\<close>, the
  bytes or the text of its error.\<close>

datatype message = Text string | ConfigMsg config_error

record error_detail =
  det_key :: string
  det_serialized :: "string + string"

record adbc_error =
  err_msg :: message
  err_code :: status
  err_vendor_code :: int32
  err_sqlstate :: "byte list"
  err_details :: "error_detail list"

definition no_sqlstate :: "byte list" where
  "no_sqlstate = [0, 0, 0, 0, 0]"

definition adbc_err :: "message \<Rightarrow> status \<Rightarrow> adbc_error" where
  "adbc_err m c = \<lparr>err_msg = m, err_code = c, err_vendor_code = 0, err_sqlstate = no_sqlstate,
     err_details = []\<rparr>"

text \<open>A Go \<^verbatim>\<open>error\<close> of the driver is an \<^verbatim>\<open>adbc.Error\<close> or made by \<^verbatim>\<open>fmt.Errorf\<close>.\<close>

datatype go_error = Adbc adbc_error | Plain message

fun error_status :: "go_error \<Rightarrow> status" where
  "error_status (Adbc e) = err_code e"
| "error_status (Plain m) = StatusUnknown"

abbreviation fail :: "status \<Rightarrow> string \<Rightarrow> go_error" where
  "fail c m \<equiv> Adbc (adbc_err (Text m) c)"

section \<open>gRPC errors\<close>

text \<open>
  A gRPC code is an unsigned 32-bit number, 0 to 16 being assigned. \<^verbatim>\<open>status.FromError\<close> finds a
  status in an error or not.
\<close>

type_synonym grpc_code = int32

datatype grpc_error = StatusError grpc_code string | OtherError string

definition grpc_to_adbc :: "grpc_code \<Rightarrow> status" where
  "grpc_to_adbc code =
    (if code = 0 then StatusOK
     else if code = 1 then StatusCancelled
     else if code = 3 then StatusInvalidArgument
     else if code = 4 then StatusTimeout
     else if code = 5 then StatusNotFound
     else if code = 6 then StatusAlreadyExists
     else if code = 16 then StatusUnauthenticated
     else if code = 7 then StatusUnauthorized
     else if code = 12 then StatusNotImplemented
     else if code = 14 then StatusIO
     else StatusInternal)"

fun wrap_grpc :: "grpc_error \<Rightarrow> go_error" where
  "wrap_grpc (OtherError text) = Adbc (adbc_err (Text text) StatusInternal)"
| "wrap_grpc (StatusError code text) =
     Adbc ((adbc_err (Text text) (grpc_to_adbc code))\<lparr>err_vendor_code := code\<rparr>)"

lemma grpc_to_adbc_OK [simp]: "grpc_to_adbc code = StatusOK \<longleftrightarrow> code = 0"
  by (simp add: grpc_to_adbc_def)

text \<open>The codes with a status of their own are told apart by it; every other code is internal.\<close>

definition named_codes :: "grpc_code set" where
  "named_codes = {0, 1, 3, 4, 5, 6, 7, 12, 14, 16}"

lemma grpc_to_adbc_named:
  "grpc_to_adbc c = StatusInternal \<longleftrightarrow> c \<notin> named_codes"
  by (auto simp: grpc_to_adbc_def named_codes_def)

lemma grpc_to_adbc_inj: "inj_on grpc_to_adbc named_codes"
  by (rule inj_onI) (auto simp: grpc_to_adbc_def named_codes_def split: if_splits)

section \<open>Properties\<close>

text \<open>The status of a failed call is never OK unless gRPC said OK; the ten codes the table
  names are told apart by their status, every other code is \<^verbatim>\<open>StatusInternal\<close>, and the code itself
  is kept as the vendor code.\<close>

theorem grpc_status_mapping:
  "(error_status (wrap_grpc (StatusError code text)) = StatusOK \<longleftrightarrow> code = 0) \<and>
   (error_status (wrap_grpc (StatusError code text)) = StatusInternal \<longleftrightarrow> code \<notin> named_codes) \<and>
   (error_status (wrap_grpc (StatusError code text)) = error_status (wrap_grpc (StatusError code' text'))
     \<longleftrightarrow> code = code' \<or> code \<notin> named_codes \<and> code' \<notin> named_codes) \<and>
   (\<exists>e. wrap_grpc (StatusError code text) = Adbc e \<and> err_vendor_code e = code)"
  using grpc_to_adbc_named [of code] grpc_to_adbc_named [of code']
    inj_onD [OF grpc_to_adbc_inj, of code code']
  by (auto simp: adbc_err_def)

end
