(* ===== verification/Database.thy ===== *)
theory Database
  imports Adbc_Errors "HOL-Library.Multiset"
begin

text \<open>
  \<^verbatim>\<open>driver/spark/database.go\<close> and the constructor in \<^verbatim>\<open>driver.go\<close>: the options of a database.
  The configuration is a heap object, because \<^verbatim>\<open>database.cfg\<close> and every client opened from the
  database point to the same one. A Go map is given as the list of its entries in the order
  \<^verbatim>\<open>range\<close> happens to visit them.
\<close>

section \<open>The heap of configurations\<close>

record heap =
  hp_cfgs :: "nat \<rightharpoonup> config"
  hp_next :: nat

record database =
  db_cfg :: "nat option"

definition heap_ok :: "heap \<Rightarrow> bool" where
  "heap_ok h \<longleftrightarrow> (\<forall>r. hp_next h \<le> r \<longrightarrow> hp_cfgs h r = None)"

definition db_ok :: "heap \<Rightarrow> database \<Rightarrow> bool" where
  "db_ok h d \<longleftrightarrow> (\<forall>r. db_cfg d = Some r \<longrightarrow> hp_cfgs h r \<noteq> None)"

section \<open>Option keys\<close>

definition key_uri :: string where "key_uri = ''uri''"
definition key_uri2 :: string where "key_uri2 = ''adbc.spark.uri''"
definition key_username :: string where "key_username = ''username''"
definition key_password :: string where "key_password = ''password''"
definition key_token :: string where "key_token = ''adbc.spark.token''"
definition key_user_id :: string where "key_user_id = ''adbc.spark.user_id''"
definition key_user_agent :: string where "key_user_agent = ''adbc.spark.user_agent''"
definition key_session_id :: string where "key_session_id = ''adbc.spark.session_id''"
definition key_tls_enabled :: string where "key_tls_enabled = ''adbc.spark.tls.enabled''"
definition key_header_prefix :: string where "key_header_prefix = ''adbc.spark.headers.''"

lemmas key_defs = key_uri_def key_uri2_def key_username_def key_password_def key_token_def
  key_user_id_def key_user_agent_def key_session_id_def key_tls_enabled_def key_header_prefix_def

section \<open>SetOptions\<close>

fun first_non_empty :: "string list \<Rightarrow> string" where
  "first_non_empty [] = []"
| "first_non_empty (v # vs) = (if v \<noteq> [] then v else first_non_empty vs)"

text \<open>\<^verbatim>\<open>opts[k]\<close>: the empty string for a key the map does not have.\<close>

definition opt_get :: "(string \<times> string) list \<Rightarrow> string \<Rightarrow> string" where
  "opt_get opts k = (case map_of opts k of Some v \<Rightarrow> v | None \<Rightarrow> [])"

text \<open>The body of the loop over the options.\<close>

definition apply_option :: "string \<Rightarrow> string \<Rightarrow> config \<Rightarrow> go_error + config" where
  "apply_option key value cfg =
    (if key = key_uri \<or> key = key_uri2 then Inr cfg
     else if key = key_token \<or> key = key_password then Inr (cfg\<lparr>cfg_token := value\<rparr>)
     else if key = key_user_id \<or> key = key_username then Inr (cfg\<lparr>cfg_user_id := value\<rparr>)
     else if key = key_user_agent then Inr (cfg\<lparr>cfg_user_agent := value\<rparr>)
     else if key = key_session_id then Inr (cfg\<lparr>cfg_session_id := value\<rparr>)
     else if key = key_tls_enabled then
       (case parse_bool value of
          None \<Rightarrow> Inl (Adbc (adbc_err (Text (''spark: invalid boolean for adbc.spark.tls.enabled: '' @ value))
                         StatusInvalidArgument))
        | Some b \<Rightarrow> Inr (cfg\<lparr>cfg_use_tls := b\<rparr>))
     else (case cut_prefix key key_header_prefix of (name, ok) \<Rightarrow>
       if ok \<and> name \<noteq> [] then Inr (cfg\<lparr>cfg_headers := (cfg_headers cfg)(name \<mapsto> value)\<rparr>)
       else if prefix ''adbc.spark.'' key then
         Inl (Adbc (adbc_err (Text (''spark: unknown option '' @ key)) StatusNotImplemented))
       else Inr cfg))"

text \<open>The loop; an error leaves it with the assignments made so far.\<close>

fun apply_options :: "(string \<times> string) list \<Rightarrow> config \<Rightarrow> config \<times> go_error option" where
  "apply_options [] cfg = (cfg, None)"
| "apply_options (kv # kvs) cfg =
    (case apply_option (fst kv) (snd kv) cfg of
       Inl e \<Rightarrow> (cfg, Some e)
     | Inr cfg' \<Rightarrow> apply_options kvs cfg')"

text \<open>Where \<^verbatim>\<open>cfg\<close> points after the URI was looked at: the database's own object, or a new one.\<close>

definition target_cfg ::
  "unicode \<Rightarrow> (string \<times> string) list \<Rightarrow> heap \<Rightarrow> database \<Rightarrow> go_error + (heap \<times> nat)" where
  "target_cfg U opts h d =
    (let uri = first_non_empty [opt_get opts key_uri, opt_get opts key_uri2] in
     if uri \<noteq> [] then
       (case parse_connection_string U uri of
          Inl e \<Rightarrow> Inl (Adbc (adbc_err (ConfigMsg e) StatusInvalidArgument))
        | Inr parsed \<Rightarrow> Inr (h\<lparr>hp_cfgs := (hp_cfgs h)(hp_next h \<mapsto> parsed),
                                hp_next := Suc (hp_next h)\<rparr>, hp_next h))
     else (case db_cfg d of
             None \<Rightarrow> Inl (fail StatusInvalidArgument
               ''spark: a connection URI is required (set the \"uri\" option to an sc:// string)'')
           | Some r \<Rightarrow> Inr (h, r)))"

definition set_options ::
  "unicode \<Rightarrow> (string \<times> string) list \<Rightarrow> heap \<Rightarrow> database \<Rightarrow> go_error option \<times> heap \<times> database" where
  "set_options U opts h d = (case target_cfg U opts h d of
     Inl e \<Rightarrow> (Some e, h, d)
   | Inr (h', r) \<Rightarrow>
       (case apply_options opts (the (hp_cfgs h' r)) of
          (cfg', err) \<Rightarrow>
            (let h'' = h'\<lparr>hp_cfgs := (hp_cfgs h')(r \<mapsto> cfg')\<rparr> in
             case err of
               Some e \<Rightarrow> (Some e, h'', d)
             | None \<Rightarrow> (None, h'', d\<lparr>db_cfg := Some r\<rparr>))))"

text \<open>\<^verbatim>\<open>NewDatabase\<close>, \<^verbatim>\<open>NewDatabaseWithContext\<close>, \<^verbatim>\<open>Close\<close>.\<close>

definition new_database ::
  "unicode \<Rightarrow> (string \<times> string) list \<Rightarrow> heap \<Rightarrow> (go_error + database) \<times> heap" where
  "new_database U opts h = (case set_options U opts h \<lparr>db_cfg = None\<rparr> of
     (Some e, h', d) \<Rightarrow> (Inl e, h')
   | (None, h', d) \<Rightarrow> (Inr d, h'))"

definition new_database_with_context ::
  "'ctx \<Rightarrow> unicode \<Rightarrow> (string \<times> string) list \<Rightarrow> heap \<Rightarrow> (go_error + database) \<times> heap" where
  "new_database_with_context ctx U opts h = new_database U opts h"

definition database_close :: "database \<Rightarrow> go_error option" where
  "database_close d = None"

section \<open>Which options fail\<close>

text \<open>Whether an option fails depends on its key and value only.\<close>

definition bad_option :: "string \<times> string \<Rightarrow> bool" where
  "bad_option kv = is_err (apply_option (fst kv) (snd kv) new_config)"

lemma is_err_apply_option: "is_err (apply_option k v c) = bad_option (k, v)"
  by (auto simp: bad_option_def apply_option_def split: option.splits prod.splits)

definition upd_option :: "string \<times> string \<Rightarrow> config \<Rightarrow> config" where
  "upd_option kv c = (case apply_option (fst kv) (snd kv) c of Inr c' \<Rightarrow> c' | Inl e \<Rightarrow> c)"

lemma apply_option_good: "\<not> bad_option kv \<Longrightarrow> apply_option (fst kv) (snd kv) c = Inr (upd_option kv c)"
  using is_err_apply_option [of "fst kv" "snd kv" c]
  by (auto simp: upd_option_def split: sum.splits)

lemma apply_options_result:
  "\<not> list_ex bad_option kvs \<Longrightarrow> apply_options kvs c = (fold upd_option kvs c, None)"
  by (induction kvs arbitrary: c) (auto simp: apply_option_good)

lemma apply_options_ok_iff: "snd (apply_options kvs c) = None \<longleftrightarrow> \<not> list_ex bad_option kvs"
proof (induction kvs arbitrary: c)
  case (Cons kv kvs)
  then show ?case
    using is_err_apply_option [of "fst kv" "snd kv" c]
    by (cases "apply_option (fst kv) (snd kv) c") auto
qed simp

text \<open>A key under \<^verbatim>\<open>adbc.spark.\<close> that is neither recognised nor a header is refused.\<close>

definition known_keys :: "string set" where
  "known_keys = {key_uri2, key_token, key_user_id, key_user_agent, key_session_id, key_tls_enabled}"

lemma unknown_option_bad:
  assumes "prefix ''adbc.spark.'' k" "k \<notin> known_keys"
    and "\<not> strict_prefix key_header_prefix k"
  shows "bad_option (k, v)"
proof -
  have "\<not> (snd (cut_prefix k key_header_prefix) \<and> fst (cut_prefix k key_header_prefix) \<noteq> [])"
    using assms(3) by (auto simp: cut_prefix_def strict_prefix_def prefix_def)
  moreover have "k \<noteq> key_uri" "k \<noteq> key_username" "k \<noteq> key_password"
    using assms(1) by (auto simp: key_defs)
  ultimately show ?thesis using assms(1,2)
    by (auto simp: bad_option_def apply_option_def known_keys_def split: prod.splits)
qed

section \<open>The order of the options\<close>

text \<open>The field an option sets, and two options of one field: their order decides.\<close>

datatype option_field =
    NoField | TokenField | UserField | AgentField | SessionField | TlsField | HeaderField string

definition field_of :: "string \<Rightarrow> option_field" where
  "field_of key =
    (if key = key_uri \<or> key = key_uri2 then NoField
     else if key = key_token \<or> key = key_password then TokenField
     else if key = key_user_id \<or> key = key_username then UserField
     else if key = key_user_agent then AgentField
     else if key = key_session_id then SessionField
     else if key = key_tls_enabled then TlsField
     else if strict_prefix key_header_prefix key then HeaderField (drop (length key_header_prefix) key)
     else NoField)"

fun set_field :: "option_field \<Rightarrow> string \<Rightarrow> config \<Rightarrow> config" where
  "set_field NoField v c = c"
| "set_field TokenField v c = c\<lparr>cfg_token := v\<rparr>"
| "set_field UserField v c = c\<lparr>cfg_user_id := v\<rparr>"
| "set_field AgentField v c = c\<lparr>cfg_user_agent := v\<rparr>"
| "set_field SessionField v c = c\<lparr>cfg_session_id := v\<rparr>"
| "set_field TlsField v c = (case parse_bool v of Some b \<Rightarrow> c\<lparr>cfg_use_tls := b\<rparr> | None \<Rightarrow> c)"
| "set_field (HeaderField n) v c = c\<lparr>cfg_headers := (cfg_headers c)(n \<mapsto> v)\<rparr>"

lemma cut_header_prefix:
  "snd (cut_prefix k key_header_prefix) \<and> fst (cut_prefix k key_header_prefix) \<noteq> []
     \<longleftrightarrow> strict_prefix key_header_prefix k"
  "strict_prefix key_header_prefix k \<Longrightarrow>
     fst (cut_prefix k key_header_prefix) = drop (length key_header_prefix) k"
  by (auto simp: cut_prefix_def strict_prefix_def prefix_def)

lemma upd_option_field: "upd_option kv = set_field (field_of (fst kv)) (snd kv)"
proof
  fix c
  show "upd_option kv c = set_field (field_of (fst kv)) (snd kv) c"
    by (simp add: upd_option_def apply_option_def field_of_def case_prod_beta cut_header_prefix
        split: option.split)
qed

lemma set_field_commute:
  "f \<noteq> g \<Longrightarrow> set_field f v (set_field g w c) = set_field g w (set_field f v c)"
  by (cases f; cases g) (auto simp: fun_upd_twist split: option.splits)

lemma set_no_field_commute:
  "set_field NoField v (set_field g w c) = set_field g w (set_field NoField v c)"
  by simp

definition clash :: "string \<Rightarrow> string \<Rightarrow> bool" where
  "clash j k \<longleftrightarrow>
     j = key_token \<and> k = key_password \<or> j = key_password \<and> k = key_token \<or>
     j = key_user_id \<and> k = key_username \<or> j = key_username \<and> k = key_user_id"

lemma field_of_cases:
  "field_of k = TokenField \<Longrightarrow> k = key_token \<or> k = key_password"
  "field_of k = UserField \<Longrightarrow> k = key_user_id \<or> k = key_username"
  "field_of k = AgentField \<Longrightarrow> k = key_user_agent"
  "field_of k = SessionField \<Longrightarrow> k = key_session_id"
  "field_of k = TlsField \<Longrightarrow> k = key_tls_enabled"
  by (simp_all add: field_of_def split: if_splits)

lemma field_of_header: "field_of k = HeaderField n \<Longrightarrow> k = key_header_prefix @ n"
proof -
  assume "field_of k = HeaderField n"
  then have "strict_prefix key_header_prefix k" "n = drop (length key_header_prefix) k"
    by (simp_all add: field_of_def split: if_splits)
  then show ?thesis by (auto simp: strict_prefix_def prefix_def)
qed

lemma field_of_NoField_or_inj:
  assumes "field_of j = field_of k" "field_of k \<noteq> NoField"
  shows "j = k \<or> clash j k"
proof (cases "field_of k")
  case TokenField
  with assms have "j = key_token \<or> j = key_password" "k = key_token \<or> k = key_password"
    by (simp_all add: field_of_cases)
  then show ?thesis by (auto simp: clash_def)
next
  case UserField
  with assms have "j = key_user_id \<or> j = key_username" "k = key_user_id \<or> k = key_username"
    by (simp_all add: field_of_cases)
  then show ?thesis by (auto simp: clash_def)
next
  case (HeaderField n)
  with assms field_of_header [of j n] field_of_header [of k n] show ?thesis by simp
qed (use assms field_of_cases(3-5) [of j] field_of_cases(3-5) [of k] in auto)

lemma upd_option_commute:
  assumes "fst x \<noteq> fst y" "\<not> clash (fst x) (fst y)"
  shows "upd_option x \<circ> upd_option y = upd_option y \<circ> upd_option x"
proof
  fix c
  show "(upd_option x \<circ> upd_option y) c = (upd_option y \<circ> upd_option x) c"
  proof (cases "field_of (fst x) = field_of (fst y)")
    case True
    then have "field_of (fst y) = NoField" "field_of (fst x) = NoField"
      using field_of_NoField_or_inj assms by auto
    then show ?thesis by (simp add: upd_option_field)
  qed (simp add: upd_option_field set_field_commute)
qed

text \<open>
  Two orders of the same map give the same outcome, unless the map names one field by two
  keys.
\<close>

definition unambiguous :: "(string \<times> string) list \<Rightarrow> bool" where
  "unambiguous opts \<longleftrightarrow> distinct (map fst opts) \<and>
     (\<forall>x\<in>set opts. \<forall>y\<in>set opts. \<not> clash (fst x) (fst y))"

lemma apply_options_order:
  assumes "unambiguous opts" "mset opts = mset opts'" "\<not> list_ex bad_option opts"
  shows "apply_options opts c = apply_options opts' c"
proof -
  have set: "set opts = set opts'" using assms(2) by (metis set_mset_mset)
  have "fold upd_option opts = fold upd_option opts'"
  proof (rule fold_multiset_equiv [OF _ assms(2)])
    fix x y assume xy: "x \<in> set opts" "y \<in> set opts"
    show "upd_option x \<circ> upd_option y = upd_option y \<circ> upd_option x"
    proof (cases "x = y")
      case False
      then have "fst x \<noteq> fst y" using assms(1) xy
        by (auto simp: unambiguous_def distinct_map inj_on_def)
      moreover have "\<not> clash (fst x) (fst y)"
        using assms(1) xy by (simp add: unambiguous_def)
      ultimately show ?thesis by (rule upd_option_commute)
    qed simp
  qed
  moreover have "\<not> list_ex bad_option opts'" using assms(3) set by (auto simp: list_ex_iff)
  ultimately show ?thesis using assms(3) by (simp add: apply_options_result)
qed

lemma opt_get_order:
  "distinct (map fst opts) \<Longrightarrow> mset opts = mset opts' \<Longrightarrow> opt_get opts k = opt_get opts' k"
proof -
  assume a: "distinct (map fst opts)" "mset opts = mset opts'"
  then have "distinct (map fst opts')" "set opts = set opts'"
    by (metis mset_eq_imp_distinct_iff mset_map, metis set_mset_mset)
  with a have "map_of opts = map_of opts'" by (metis map_of_inject_set)
  then show ?thesis by (simp add: opt_get_def)
qed

lemma target_cfg_order:
  "distinct (map fst opts) \<Longrightarrow> mset opts = mset opts' \<Longrightarrow>
   target_cfg U opts h d = target_cfg U opts' h d"
  using opt_get_order [of opts opts'] by (simp add: target_cfg_def)

lemma set_options_order:
  assumes "unambiguous opts" "mset opts = mset opts'" "\<not> list_ex bad_option opts"
  shows "set_options U opts h d = set_options U opts' h d"
proof -
  have "target_cfg U opts h d = target_cfg U opts' h d"
    using assms by (intro target_cfg_order) (auto simp: unambiguous_def)
  moreover have "apply_options opts = apply_options opts'"
    using apply_options_order [OF assms] by (rule ext)
  ultimately show ?thesis by (simp add: set_options_def split: sum.split)
qed

text \<open>Whether \<^verbatim>\<open>SetOptions\<close> succeeds does not depend on the order at all.\<close>

lemma set_options_ok_iff:
  "fst (set_options U opts h d) = None \<longleftrightarrow>
     \<not> is_err (target_cfg U opts h d) \<and> \<not> list_ex bad_option opts"
proof (cases "target_cfg U opts h d")
  case (Inr hr)
  obtain h' r where hr: "hr = (h', r)" by fastforce
  obtain c' err where ap: "apply_options opts (the (hp_cfgs h' r)) = (c', err)" by fastforce
  have "err = None \<longleftrightarrow> \<not> list_ex bad_option opts"
    using apply_options_ok_iff [of opts "the (hp_cfgs h' r)"] ap by simp
  then show ?thesis
    using Inr hr ap by (auto simp: set_options_def Let_def split: option.splits)
qed (simp add: set_options_def)

lemma set_options_ok_order:
  assumes "distinct (map fst opts)" "mset opts = mset opts'"
  shows "fst (set_options U opts h d) = None \<longleftrightarrow> fst (set_options U opts' h d) = None"
proof -
  have "set opts = set opts'" using assms(2) by (metis set_mset_mset)
  then have "list_ex bad_option opts = list_ex bad_option opts'" by (simp add: list_ex_iff)
  then show ?thesis using target_cfg_order [OF assms] by (simp add: set_options_ok_iff)
qed

section \<open>What SetOptions changes\<close>

text \<open>With a URI the options go to a new object: whatever fails, the database and every
  configuration that existed are unchanged.\<close>

lemma set_options_uri_frame:
  assumes "first_non_empty [opt_get opts key_uri, opt_get opts key_uri2] \<noteq> []"
    and "heap_ok h" "hp_cfgs h r = Some c"
  shows "hp_cfgs (fst (snd (set_options U opts h d))) r = Some c"
    and "fst (set_options U opts h d) \<noteq> None \<Longrightarrow> snd (snd (set_options U opts h d)) = d"
proof -
  have "r \<noteq> hp_next h" using assms(2,3) by (auto simp: heap_ok_def)
  then show "hp_cfgs (fst (snd (set_options U opts h d))) r = Some c"
    using assms(1,3)
    by (auto simp: set_options_def target_cfg_def Let_def split: sum.splits prod.splits option.splits)
  show "fst (set_options U opts h d) \<noteq> None \<Longrightarrow> snd (snd (set_options U opts h d)) = d"
    by (auto simp: set_options_def Let_def split: sum.splits prod.splits option.splits)
qed

lemma set_options_ok [keeps]:
  assumes "heap_ok h" "db_ok h d" "set_options U opts h d = (err, h', d')"
  shows "heap_ok h'" "db_ok h' d'"
proof -
  have t: "heap_ok h1 \<and> hp_cfgs h1 r \<noteq> None \<and> (\<forall>q. hp_cfgs h q \<noteq> None \<longrightarrow> hp_cfgs h1 q \<noteq> None)"
    if "target_cfg U opts h d = Inr (h1, r)" for h1 r
    using that assms(1,2)
    by (auto simp: target_cfg_def heap_ok_def db_ok_def Let_def split: if_splits sum.splits option.splits)
  show "heap_ok h'" "db_ok h' d'"
    using assms t
    by (fastforce simp: set_options_def Let_def heap_ok_def db_ok_def
        split: sum.splits prod.splits option.splits)+
qed

section \<open>Properties\<close>

text \<open>C19: the outcome of \<^verbatim>\<open>SetOptions\<close> does not depend on the order in which Go visits the map,
  provided no option fails and no field is named by two keys (token and password, user id and
  username).\<close>

theorem set_options_order_free:
  assumes "unambiguous opts" "mset opts = mset opts'" "\<not> list_ex bad_option opts"
  shows "set_options U opts h d = set_options U opts' h d"
  using assms by (rule set_options_order)

definition sample_opts :: "(string \<times> string) list" where
  "sample_opts = [(key_uri, ''sc://h''), (key_token, ''t''), (key_header_prefix @ ''x'', ''1'')]"

definition empty_heap :: heap where
  "empty_heap = \<lparr>hp_cfgs = Map.empty, hp_next = 0\<rparr>"

theorem set_options_order_free_witness:
  "set_options ascii_tables sample_opts empty_heap \<lparr>db_cfg = None\<rparr> =
   set_options ascii_tables (rev sample_opts) empty_heap \<lparr>db_cfg = None\<rparr>"
  by (rule set_options_order_free)
    (auto simp: sample_opts_def unambiguous_def clash_def key_defs bad_option_def apply_option_def
      cut_prefix_def)

text \<open>C26: whether \<^verbatim>\<open>SetOptions\<close> succeeds never depends on that order: it succeeds exactly when the
  URI, if there is one, parses, or there is a configuration already, and no option is refused by
  its own key and value.\<close>

theorem set_options_succeeds_iff:
  "fst (set_options U opts h d) = None \<longleftrightarrow>
     (let uri = first_non_empty [opt_get opts key_uri, opt_get opts key_uri2] in
      (if uri \<noteq> [] then \<not> is_err (parse_connection_string U uri) else db_cfg d \<noteq> None)) \<and>
     list_all (\<lambda>kv. \<not> is_err (apply_option (fst kv) (snd kv) new_config)) opts"
  by (auto simp: set_options_ok_iff target_cfg_def Let_def list_ex_iff list_all_iff bad_option_def is_err_iff
      split: sum.splits option.splits)

text \<open>C18: with a URI the options go to a new configuration. Whatever fails then, the database keeps
  its configuration and every configuration that clients already use is unchanged.\<close>

theorem set_options_with_uri_is_atomic:
  assumes "first_non_empty [opt_get opts key_uri, opt_get opts key_uri2] \<noteq> []"
    and "heap_ok h" "hp_cfgs h r = Some c"
  shows "hp_cfgs (fst (snd (set_options U opts h d))) r = Some c \<and>
    (fst (set_options U opts h d) \<noteq> None \<longrightarrow> snd (snd (set_options U opts h d)) = d)"
  using set_options_uri_frame [OF assms, of U d] by blast

theorem set_options_with_uri_is_atomic_witness:
  "hp_cfgs (fst (snd (set_options ascii_tables [(key_uri, ''sc://h''), (''adbc.spark.x'', ''1'')]
     \<lparr>hp_cfgs = [0 \<mapsto> new_config], hp_next = 1\<rparr> \<lparr>db_cfg = Some 0\<rparr>))) 0 = Some new_config"
  by (rule set_options_with_uri_is_atomic [THEN conjunct1])
    (auto simp: opt_get_def key_defs heap_ok_def)

text \<open>A key under \<^verbatim>\<open>adbc.spark.\<close> that names no option and no header is never accepted, in
  whatever company it comes.\<close>

theorem unknown_option_refused:
  assumes "prefix ''adbc.spark.'' k" "k \<notin> known_keys" "\<not> strict_prefix key_header_prefix k"
    and "(k, v) \<in> set opts"
  shows "fst (set_options U opts h d) \<noteq> None"
  using unknown_option_bad [OF assms(1-3), of v] assms(4) by (auto simp: set_options_ok_iff list_ex_iff)

theorem unknown_option_refused_witness:
  "fst (set_options ascii_tables (sample_opts @ [(''adbc.spark.tokens'', ''t'')]) empty_heap
     \<lparr>db_cfg = None\<rparr>) \<noteq> None"
  by (rule unknown_option_refused [where k = "''adbc.spark.tokens''" and v = "''t''"])
    (auto simp: known_keys_def key_defs strict_prefix_def)

end
