(* ===== verification/Params.thy ===== *)
theory Params
  imports Adbc_Errors "HOL-Library.Signed_Division"
begin

text \<open>
  \<^verbatim>\<open>driver/spark/params.go\<close>: the conversion of a cell of an Arrow column to a Spark Connect
  literal. Integers keep the width they have in the code, floating-point values are their bit
  patterns. \<open>None\<close> is a run-time panic (an index out of range).
\<close>

section \<open>Columns and literals\<close>

datatype time_unit = Second | Millisecond | Microsecond | Nanosecond | OtherUnit string

record timestamp_type =
  ts_unit :: time_unit
  ts_zone :: string

record decimal_type =
  dec_precision :: int32
  dec_scale :: int32

text \<open>The array types the type switch names, each a list of cells, null or a value; any other
  array is known by the name of its type. A timestamp array whose data type is no
  \<^verbatim>\<open>TimestampType\<close> has \<open>None\<close> for it.\<close>

datatype arrow_array =
    ABoolean "bool option list"
  | AInt8 "int8 option list"
  | AInt16 "int16 option list"
  | AInt32 "int32 option list"
  | AInt64 "int64 option list"
  | AUint8 "int8 option list"
  | AUint16 "int16 option list"
  | AUint32 "int32 option list"
  | AUint64 "int64 option list"
  | AFloat32 "int32 option list"
  | AFloat64 "int64 option list"
  | AString "string option list"
  | ALargeString "string option list"
  | ABinary "string option list"
  | ALargeBinary "string option list"
  | ADate32 "int32 option list"
  | ADate64 "int64 option list"
  | ATimestamp "timestamp_type option" "int64 option list"
  | ADecimal128 decimal_type "128 word option list"
  | ADecimal256 decimal_type "256 word option list"
  | AOther string "unit option list"

text \<open>The members of \<^verbatim>\<open>Expression_Literal\<close> the conversion builds.\<close>

datatype literal =
    LNull
  | LBoolean bool
  | LByte int32
  | LShort int32
  | LInteger int32
  | LLong int64
  | LFloat int32
  | LDouble int64
  | LString string
  | LBinary string
  | LDate int32
  | LTimestamp int64
  | LTimestampNtz int64
  | LDecimal string int32 int32

text \<open>Arrow's decimal printing is a library function.\<close>

record decimal_format =
  dec128_string :: "128 word \<Rightarrow> int32 \<Rightarrow> string"
  dec256_string :: "256 word \<Rightarrow> int32 \<Rightarrow> string"

section \<open>timestampToMicros\<close>

text \<open>Go's division of two \<^verbatim>\<open>int64\<close> values truncates towards zero.\<close>

definition go_div :: "int64 \<Rightarrow> int64 \<Rightarrow> int64" where
  "go_div a b = word_of_int (sint a sdiv sint b)"

text \<open>Another unit comes with the text its \<^verbatim>\<open>String\<close> method gives.\<close>

fun timestamp_to_micros :: "int64 \<Rightarrow> time_unit \<Rightarrow> go_error + int64" where
  "timestamp_to_micros v Second = Inr (v * 1000000)"
| "timestamp_to_micros v Millisecond = Inr (v * 1000)"
| "timestamp_to_micros v Microsecond = Inr v"
| "timestamp_to_micros v Nanosecond = Inr (go_div v 1000)"
| "timestamp_to_micros v (OtherUnit u) =
     Inl (Adbc (adbc_err (Text (''spark: unsupported timestamp unit '' @ u)) StatusNotImplemented))"

section \<open>columnToLiteral\<close>

definition ms_per_day :: int64 where
  "ms_per_day = 24 * 60 * 60 * 1000"

definition max_int64 :: int64 where
  "max_int64 = 0x7FFFFFFFFFFFFFFF"

text \<open>\<open>cell f xs row\<close>: a null cell is the null literal, a value goes to \<open>f\<close>.\<close>

definition cell :: "('a \<Rightarrow> go_error + literal) \<Rightarrow> 'a option list \<Rightarrow> nat \<Rightarrow> (go_error + literal) option"
  where
  "cell f xs row =
    (if row < length xs then
       Some (case xs ! row of None \<Rightarrow> Inr LNull | Some v \<Rightarrow> f v)
     else None)"

definition uint64_literal :: "int64 \<Rightarrow> go_error + literal" where
  "uint64_literal v =
    (if v > max_int64 then
       Inl (fail StatusInvalidArgument (''spark: uint64 parameter '' @ itoa (uint v) @
         '' exceeds the maximum bind value (Spark long is signed)''))
     else Inr (LLong v))"

definition date64_literal :: "int64 \<Rightarrow> go_error + literal" where
  "date64_literal v = Inr (LDate (scast (go_div v ms_per_day)))"

definition timestamp_literal :: "timestamp_type option \<Rightarrow> int64 \<Rightarrow> go_error + literal" where
  "timestamp_literal dt v = (case dt of
     None \<Rightarrow> Inl (fail StatusInternal ''spark: timestamp column has no TimestampType'')
   | Some tt \<Rightarrow> bind_res (timestamp_to_micros v (ts_unit tt))
       (\<lambda>micros. if ts_zone tt \<noteq> [] then Inr (LTimestamp micros) else Inr (LTimestampNtz micros)))"

fun column_to_literal :: "decimal_format \<Rightarrow> arrow_array \<Rightarrow> nat \<Rightarrow> (go_error + literal) option" where
  "column_to_literal D (ABoolean xs) row = cell (\<lambda>v. Inr (LBoolean v)) xs row"
| "column_to_literal D (AInt8 xs) row = cell (\<lambda>v. Inr (LByte (scast v))) xs row"
| "column_to_literal D (AInt16 xs) row = cell (\<lambda>v. Inr (LShort (scast v))) xs row"
| "column_to_literal D (AInt32 xs) row = cell (\<lambda>v. Inr (LInteger v)) xs row"
| "column_to_literal D (AInt64 xs) row = cell (\<lambda>v. Inr (LLong v)) xs row"
| "column_to_literal D (AUint8 xs) row = cell (\<lambda>v. Inr (LShort (ucast v))) xs row"
| "column_to_literal D (AUint16 xs) row = cell (\<lambda>v. Inr (LInteger (ucast v))) xs row"
| "column_to_literal D (AUint32 xs) row = cell (\<lambda>v. Inr (LLong (ucast v))) xs row"
| "column_to_literal D (AUint64 xs) row = cell uint64_literal xs row"
| "column_to_literal D (AFloat32 xs) row = cell (\<lambda>v. Inr (LFloat v)) xs row"
| "column_to_literal D (AFloat64 xs) row = cell (\<lambda>v. Inr (LDouble v)) xs row"
| "column_to_literal D (AString xs) row = cell (\<lambda>v. Inr (LString v)) xs row"
| "column_to_literal D (ALargeString xs) row = cell (\<lambda>v. Inr (LString v)) xs row"
| "column_to_literal D (ABinary xs) row = cell (\<lambda>v. Inr (LBinary v)) xs row"
| "column_to_literal D (ALargeBinary xs) row = cell (\<lambda>v. Inr (LBinary v)) xs row"
| "column_to_literal D (ADate32 xs) row = cell (\<lambda>v. Inr (LDate v)) xs row"
| "column_to_literal D (ADate64 xs) row = cell date64_literal xs row"
| "column_to_literal D (ATimestamp dt xs) row = cell (timestamp_literal dt) xs row"
| "column_to_literal D (ADecimal128 dt xs) row =
     cell (\<lambda>v. Inr (LDecimal (dec128_string D v (dec_scale dt)) (dec_precision dt) (dec_scale dt))) xs row"
| "column_to_literal D (ADecimal256 dt xs) row =
     cell (\<lambda>v. Inr (LDecimal (dec256_string D v (dec_scale dt)) (dec_precision dt) (dec_scale dt))) xs row"
| "column_to_literal D (AOther ty xs) row =
     cell (\<lambda>v. Inl (Adbc (adbc_err (Text (''spark: cannot bind parameter of Arrow type '' @ ty))
       StatusNotImplemented))) xs row"

section \<open>Integers keep their value\<close>

text \<open>The number an integer column holds in a row, and the number of a literal.\<close>

fun column_int :: "arrow_array \<Rightarrow> nat \<Rightarrow> int option" where
  "column_int (AInt8 xs) row = (if row < length xs then map_option sint (xs ! row) else None)"
| "column_int (AInt16 xs) row = (if row < length xs then map_option sint (xs ! row) else None)"
| "column_int (AInt32 xs) row = (if row < length xs then map_option sint (xs ! row) else None)"
| "column_int (AInt64 xs) row = (if row < length xs then map_option sint (xs ! row) else None)"
| "column_int (AUint8 xs) row = (if row < length xs then map_option uint (xs ! row) else None)"
| "column_int (AUint16 xs) row = (if row < length xs then map_option uint (xs ! row) else None)"
| "column_int (AUint32 xs) row = (if row < length xs then map_option uint (xs ! row) else None)"
| "column_int (AUint64 xs) row = (if row < length xs then map_option uint (xs ! row) else None)"
| "column_int _ row = None"

text \<open>Spark's types behind the literal members have 8, 16, 32 and 64 bits.\<close>

fun literal_int :: "literal \<Rightarrow> int option" where
  "literal_int (LByte v) = (if - (2 ^ 7) \<le> sint v \<and> sint v < 2 ^ 7 then Some (sint v) else None)"
| "literal_int (LShort v) = (if - (2 ^ 15) \<le> sint v \<and> sint v < 2 ^ 15 then Some (sint v) else None)"
| "literal_int (LInteger v) = Some (sint v)"
| "literal_int (LLong v) = Some (sint v)"
| "literal_int _ = None"

lemmas wide_casts = sint_scast_wide sint_ucast_wide

lemma above_max_int64: "v > max_int64 \<longleftrightarrow> 2 ^ 63 \<le> uint v"
  unfolding max_int64_def word_less_def by auto

text \<open>Every integer a column can hold reaches Spark with its value, or, past the signed 64-bit
  range, is refused.\<close>

lemma column_to_literal_int:
  assumes "column_int col row = Some v"
  shows "case column_to_literal D col row of
           Some (Inr lit) \<Rightarrow> literal_int lit = Some v
         | Some (Inl e) \<Rightarrow> 2 ^ 63 \<le> v \<and> error_status e = StatusInvalidArgument
         | None \<Rightarrow> False"
proof (cases col)
  case (AInt8 xs)
  then show ?thesis using assms sint_bounds [where 'a = 8]
    by (auto simp: cell_def wide_casts split: if_splits)
next
  case (AInt16 xs)
  then show ?thesis using assms sint_bounds [where 'a = 16]
    by (auto simp: cell_def wide_casts split: if_splits)
next
  case (AUint8 xs)
  have "- (2 ^ 15) \<le> uint w \<and> uint w < 2 ^ 15" for w :: int8
    using uint_lt2p [of w] uint_above_negative [of 15 w] by simp
  with AUint8 show ?thesis using assms
    by (auto simp: cell_def wide_casts split: if_splits)
next
  case (AUint64 xs)
  then show ?thesis using assms
    by (auto simp: cell_def uint64_literal_def above_max_int64 sint_below_half adbc_err_def
        split: if_splits)
qed (use assms in \<open>auto simp: cell_def wide_casts split: if_splits\<close>)

section \<open>Null cells\<close>

text \<open>\<^verbatim>\<open>IsNull\<close>, where the row exists.\<close>

fun cell_null :: "arrow_array \<Rightarrow> nat \<Rightarrow> bool option" where
  "cell_null (ABoolean xs) row = (if row < length xs then Some (xs ! row = None) else None)"
| "cell_null (AInt8 xs) row = (if row < length xs then Some (xs ! row = None) else None)"
| "cell_null (AInt16 xs) row = (if row < length xs then Some (xs ! row = None) else None)"
| "cell_null (AInt32 xs) row = (if row < length xs then Some (xs ! row = None) else None)"
| "cell_null (AInt64 xs) row = (if row < length xs then Some (xs ! row = None) else None)"
| "cell_null (AUint8 xs) row = (if row < length xs then Some (xs ! row = None) else None)"
| "cell_null (AUint16 xs) row = (if row < length xs then Some (xs ! row = None) else None)"
| "cell_null (AUint32 xs) row = (if row < length xs then Some (xs ! row = None) else None)"
| "cell_null (AUint64 xs) row = (if row < length xs then Some (xs ! row = None) else None)"
| "cell_null (AFloat32 xs) row = (if row < length xs then Some (xs ! row = None) else None)"
| "cell_null (AFloat64 xs) row = (if row < length xs then Some (xs ! row = None) else None)"
| "cell_null (AString xs) row = (if row < length xs then Some (xs ! row = None) else None)"
| "cell_null (ALargeString xs) row = (if row < length xs then Some (xs ! row = None) else None)"
| "cell_null (ABinary xs) row = (if row < length xs then Some (xs ! row = None) else None)"
| "cell_null (ALargeBinary xs) row = (if row < length xs then Some (xs ! row = None) else None)"
| "cell_null (ADate32 xs) row = (if row < length xs then Some (xs ! row = None) else None)"
| "cell_null (ADate64 xs) row = (if row < length xs then Some (xs ! row = None) else None)"
| "cell_null (ATimestamp dt xs) row = (if row < length xs then Some (xs ! row = None) else None)"
| "cell_null (ADecimal128 dt xs) row = (if row < length xs then Some (xs ! row = None) else None)"
| "cell_null (ADecimal256 dt xs) row = (if row < length xs then Some (xs ! row = None) else None)"
| "cell_null (AOther ty xs) row = (if row < length xs then Some (xs ! row = None) else None)"

lemma cell_LNull:
  assumes "\<And>v. f v \<noteq> Inr LNull"
  shows "cell f xs row = Some (Inr LNull) \<longleftrightarrow> row < length xs \<and> xs ! row = None"
  using assms by (auto simp: cell_def split: option.splits)

lemma timestamp_literal_LNull: "timestamp_literal dt v \<noteq> Inr LNull"
  by (auto simp: timestamp_literal_def split: option.splits if_splits)

lemma column_to_literal_LNull:
  "column_to_literal D col row = Some (Inr LNull) \<longleftrightarrow> cell_null col row = Some True"
  by (cases col)
    (simp_all add: cell_LNull timestamp_literal_LNull uint64_literal_def date64_literal_def)

section \<open>Timestamps and dates\<close>

text \<open>The microseconds a timestamp denotes: its nanoseconds, cut at the microsecond.\<close>

fun unit_nanos :: "time_unit \<Rightarrow> int" where
  "unit_nanos Second = 1000000000"
| "unit_nanos Millisecond = 1000000"
| "unit_nanos Microsecond = 1000"
| "unit_nanos Nanosecond = 1"
| "unit_nanos (OtherUnit u) = 0"

definition exact_micros :: "int64 \<Rightarrow> time_unit \<Rightarrow> int" where
  "exact_micros v u = (sint v * unit_nanos u) sdiv 1000"

definition fits64 :: "int \<Rightarrow> bool" where
  "fits64 i \<longleftrightarrow> - (2 ^ 63) \<le> i \<and> i < 2 ^ 63"

lemma sdiv_pos: "0 < l \<Longrightarrow> 0 \<le> k \<Longrightarrow> k sdiv l = k div (l :: int)"
  by (cases "k = 0") (auto simp: signed_divide_int_def)

lemma sdiv_neg: "0 < l \<Longrightarrow> k < 0 \<Longrightarrow> k sdiv l = - ((- k) div (l :: int))"
  by (simp add: signed_divide_int_def)

lemma sdiv_mult:
  assumes "0 < (l :: int)"
  shows "(k * l) sdiv l = k"
proof (cases "0 \<le> k")
  case False
  then have "k * l < 0" using assms by (simp add: mult_neg_pos)
  then have "(k * l) sdiv l = - ((- (k * l)) div l)" by (rule sdiv_neg [OF assms])
  also have "- (k * l) = (- k) * l" by simp
  also have "(- k) * l div l = - k" using assms by (intro nonzero_mult_div_cancel_right) simp
  finally show ?thesis by simp
qed (use assms in \<open>simp add: sdiv_pos\<close>)

lemma fits64_sint: "fits64 (sint (v :: int64))"
  using sint_bounds [of v] by (simp add: fits64_def)

lemma sint64_word_of_int: "sint (word_of_int i :: int64) = i \<longleftrightarrow> fits64 i"
  using fits64_sint [of "word_of_int i"] sint_word_of_int_id [where 'a = 64, of i]
  by (auto simp: fits64_def)

lemma sint_mult_numeral:
  "v * word_of_int k = (word_of_int (sint v * k) :: int64)"
  by (simp only: of_int_mult word_of_int_of_sint)

lemma sdiv_bounds:
  assumes "1 < l" "fits64 k"
  shows "fits64 (k sdiv l)"
proof (cases "0 \<le> k")
  case True
  then have "0 \<le> k div l" "k div l \<le> k"
    using assms(1) using zdiv_mono2 [of _ 1 l] by (simp_all add: pos_imp_zdiv_nonneg_iff)
  then show ?thesis using assms True by (simp add: sdiv_pos fits64_def)
next
  case False
  then have "0 \<le> (- k) div l" "(- k) div l \<le> - k"
    using assms(1) using zdiv_mono2 [of _ 1 l] by (simp_all add: pos_imp_zdiv_nonneg_iff)
  then show ?thesis using assms False by (simp add: sdiv_neg fits64_def)
qed

lemma sint_go_div:
  assumes "1 < sint b"
  shows "sint (go_div a b) = sint a sdiv sint b"
  using sdiv_bounds [OF assms fits64_sint [of a]] by (simp add: go_div_def sint64_word_of_int)

text \<open>The literal is the exact number of microseconds just when that number has 64 bits; seconds
  and milliseconds beyond it wrap around.\<close>

lemma timestamp_exact:
  assumes "timestamp_to_micros v u = Inr m"
  shows "sint m = exact_micros v u \<longleftrightarrow> fits64 (exact_micros v u)"
proof (cases u)
  case Second
  have "v * 1000000 = word_of_int (sint v * 1000000)" using sint_mult_numeral [of v 1000000] by simp
  moreover have "exact_micros v u = sint v * 1000000" using Second sdiv_mult [of 1000 "sint v * 1000000"] by (simp add: exact_micros_def mult.commute)
  ultimately show ?thesis using assms Second sint64_word_of_int [of "sint v * 1000000"] by simp
next
  case Millisecond
  have "v * 1000 = word_of_int (sint v * 1000)" using sint_mult_numeral [of v 1000] by simp
  moreover have "exact_micros v u = sint v * 1000" using Millisecond sdiv_mult [of 1000 "sint v * 1000"] by (simp add: exact_micros_def mult.commute)
  ultimately show ?thesis using assms Millisecond sint64_word_of_int [of "sint v * 1000"] by simp
next
  case Microsecond
  then show ?thesis using assms fits64_sint [of v] by (simp add: exact_micros_def sdiv_mult)
next
  case Nanosecond
  have "sint (go_div v 1000) = sint v sdiv 1000" using sint_go_div [of 1000 v] by simp
  then show ?thesis using assms Nanosecond fits64_sint [of m] by (simp add: exact_micros_def)
qed (use assms in simp)

text \<open>Days: the division truncates, so a time before 1970 that is no midnight becomes the day
  after the one it is in.\<close>

definition date_days :: "int64 \<Rightarrow> int" where
  "date_days v = sint v sdiv 86400000"

lemma date64_wraps:
  assumes "date64_literal v = Inr (LDate d)"
  shows "sint d = (date_days v + 2 ^ 31) mod 2 ^ 32 - 2 ^ 31"
proof -
  have "sint ms_per_day = 86400000" by (simp add: ms_per_day_def)
  then have "sint (go_div v ms_per_day) = date_days v"
    using sint_go_div [of ms_per_day v] by (simp add: date_days_def)
  moreover have "d = word_of_int (sint (go_div v ms_per_day))"
    using assms by (simp only: date64_literal_def scast_eq sum.inject literal.inject)
  ultimately show ?thesis by (simp add: sint_uint signed_take_bit_eq_take_bit_shift unsigned_of_int take_bit_eq_mod mod_simps)
qed

lemma date_days_near: "sint v div 86400000 = date_days v \<or> sint v div 86400000 = date_days v - 1"
proof (cases "0 \<le> sint v")
  case False
  then show ?thesis
    by (auto simp: date_days_def sdiv_neg zdiv_zminus1_eq_if)
qed (simp add: date_days_def sdiv_pos)

lemma date_days_floor:
  "date_days v = sint v div 86400000 \<longleftrightarrow> 0 \<le> sint v \<or> sint v mod 86400000 = 0"
proof (cases "0 \<le> sint v")
  case False
  then show ?thesis
    by (simp add: date_days_def sdiv_neg zdiv_zminus1_eq_if)
qed (simp add: date_days_def sdiv_pos)

section \<open>Properties\<close>

text \<open>C17: binding never changes an integer. Whatever the width and signedness of the column, the
  literal sent to Spark has the value of the cell and fits the type Spark gives that literal; an
  unsigned value beyond the signed 64-bit range is refused as an invalid argument.\<close>

theorem bound_integer_keeps_value:
  assumes "column_int col row = Some v"
  shows "case column_to_literal D col row of
           Some (Inr lit) \<Rightarrow> literal_int lit = Some v
         | Some (Inl e) \<Rightarrow> 2 ^ 63 \<le> v \<and> error_status e = StatusInvalidArgument
         | None \<Rightarrow> False"
  using assms by (rule column_to_literal_int)

theorem bound_integer_keeps_value_witness:
  "case column_to_literal \<lparr>dec128_string = \<lambda>v s. ''0'', dec256_string = \<lambda>v s. ''0''\<rparr>
     (AUint16 [None, Some 0xFFFF]) 1 of
     Some (Inr lit) \<Rightarrow> literal_int lit = Some 65535
   | Some (Inl e) \<Rightarrow> 2 ^ 63 \<le> (65535 :: int) \<and> error_status e = StatusInvalidArgument
   | None \<Rightarrow> False"
  by (rule bound_integer_keeps_value) simp

text \<open>The null literal stands for null cells and for nothing else.\<close>

theorem null_literal_iff_null_cell:
  "column_to_literal D col row = Some (Inr LNull) \<longleftrightarrow> cell_null col row = Some True"
  by (rule column_to_literal_LNull)

text \<open>C29: a timestamp is converted exactly (nanoseconds cut to microseconds) if and only if its
  microseconds fit 64 bits; seconds and milliseconds beyond that wrap around without an error.\<close>

theorem timestamp_exact_iff_fits:
  assumes "timestamp_to_micros v u = Inr m"
  shows "sint m = exact_micros v u \<longleftrightarrow> fits64 (exact_micros v u)"
  using assms by (rule timestamp_exact)

theorem timestamp_exact_iff_fits_witness:
  "sint (0x7FFFFFFFFFFFFFFF * 1000000 :: int64) = exact_micros 0x7FFFFFFFFFFFFFFF Second \<longleftrightarrow>
     fits64 (exact_micros 0x7FFFFFFFFFFFFFFF Second)"
  by (rule timestamp_exact_iff_fits) simp

text \<open>C32: a Date64 cell is bound as a 32-bit day number. The day it is bound as is the one of the
  milliseconds divided towards zero exactly when that day fits 32 bits, and the day of the instant
  (the floor of the quotient) exactly when, besides, the instant is not before 1970 or is a midnight;
  a day that does not fit is bound as the day 2 to the 32 days away that does.\<close>

theorem date64_is_truncated_day:
  "\<exists>d. date64_literal v = Inr (LDate d) \<and>
    sint d = (date_days v + 2 ^ 31) mod 2 ^ 32 - 2 ^ 31 \<and>
    (sint d = date_days v \<longleftrightarrow> - (2 ^ 31) \<le> date_days v \<and> date_days v < 2 ^ 31) \<and>
    (sint d = sint v div 86400000 \<longleftrightarrow>
      - (2 ^ 31) \<le> date_days v \<and> date_days v < 2 ^ 31 \<and> (0 \<le> sint v \<or> sint v mod 86400000 = 0))"
proof -
  obtain d where d: "date64_literal v = Inr (LDate d)" by (simp add: date64_literal_def)
  define n where "n = date_days v"
  have wrap: "sint d = (n + 2 ^ 31) mod 2 ^ 32 - 2 ^ 31" using date64_wraps [OF d] by (simp add: n_def)
  have "sint v div 86400000 = n \<or> sint v div 86400000 = n - 1" using date_days_near [of v] by (simp add: n_def)
  moreover have "sint d \<noteq> n - 1"
  proof
    assume "sint d = n - 1"
    then have "(n + 2 ^ 31) mod 2 ^ 32 = n + 2 ^ 31 - 1" using wrap by simp
    then have "(n + 2 ^ 31 - 1) mod 2 ^ 32 = (n + 2 ^ 31) mod 2 ^ 32" by simp
    then have "2 ^ 32 dvd ((n + 2 ^ 31 - 1) - (n + 2 ^ 31))" by (rule mod_eq_dvd_iff [THEN iffD1])
    then show False by simp
  qed
  moreover have "sint d = n \<longleftrightarrow> - (2 ^ 31) \<le> n \<and> n < 2 ^ 31"
  proof -
    have "(n + 2 ^ 31) mod 2 ^ 32 = n + 2 ^ 31 \<longleftrightarrow> 0 \<le> n + 2 ^ 31 \<and> n + 2 ^ 31 < 2 ^ 32"
      using pos_mod_bound [of "2 ^ 32" "n + 2 ^ 31"] pos_mod_sign [of "2 ^ 32" "n + 2 ^ 31"]
        mod_pos_pos_trivial [of "n + 2 ^ 31" "2 ^ 32"] by (metis zero_less_numeral zero_less_power)
    then show ?thesis using wrap by auto
  qed
  ultimately show ?thesis using d wrap date_days_floor [of v] unfolding n_def [symmetric] by auto
qed

end
