(* ===== verification/Session.thy ===== *)
theory Session
  imports Params Database "HOL-Library.AList"
begin

text \<open>
  What the client (\<^verbatim>\<open>internal/sparkconnect/client.go\<close>) and the result reader share: Arrow schemas
  and record batches, the requests and responses of the Spark Connect service, the libraries the
  driver calls, the state of a running driver, and the small methods of \<^verbatim>\<open>Client\<close> every request
  uses.
\<close>

section \<open>Arrow schemas and record batches\<close>

datatype arrow_type =
    TString | TBool | TInt16 | TInt32 | TInt64 | TUint32
  | TList arrow_type
  | TMap arrow_type arrow_type
  | TStruct "arrow_field list"
  | TDenseUnion "(arrow_field \<times> nat) list"
  | TOther string
and arrow_field = Field (fld_name: string) (fld_type: arrow_type) (fld_nullable: bool)

type_synonym schema = "arrow_field list"

record record_batch =
  rb_columns :: "arrow_array list"
  rb_rows :: nat

text \<open>A record batch is an object with a reference count; it is known by its number.\<close>

type_synonym batch_ref = "nat \<times> record_batch"

section \<open>Requests and responses\<close>

record sql_relation =
  sql_query :: string
  sql_pos_args :: "literal list"

datatype relation = RelSql sql_relation

datatype plan = PlanRoot relation

record execute_plan_request =
  xp_session :: string
  xp_user :: "string option"
  xp_plan :: plan
  xp_client_type :: "string option"
  xp_operation :: "string option"

datatype config_op = OpSet "(string \<times> string option) list" | OpGet "string list"

record config_request =
  cr_session :: string
  cr_user :: "string option"
  cr_client_type :: "string option"
  cr_operation :: config_op

text \<open>\<^verbatim>\<open>AnalyzePlanRequest\<close> with its \<^verbatim>\<open>SparkVersion\<close> member, \<^verbatim>\<open>InterruptRequest\<close> with its type,
  \<^verbatim>\<open>ReleaseSessionRequest\<close>.\<close>

record session_request =
  sr_session :: string
  sr_user :: "string option"
  sr_client_type :: "string option"

datatype interrupt_type = InterruptUnspecified | InterruptAll | InterruptTag | InterruptOperationId

datatype request =
    ExecutePlanReq execute_plan_request
  | ConfigReq config_request
  | SparkVersionReq session_request
  | InterruptReq interrupt_type session_request
  | ReleaseSessionReq session_request

fun request_session :: "request \<Rightarrow> string" where
  "request_session (ExecutePlanReq q) = xp_session q"
| "request_session (ConfigReq q) = cr_session q"
| "request_session (SparkVersionReq q) = sr_session q"
| "request_session (InterruptReq t q) = sr_session q"
| "request_session (ReleaseSessionReq q) = sr_session q"

fun request_user :: "request \<Rightarrow> string option" where
  "request_user (ExecutePlanReq q) = xp_user q"
| "request_user (ConfigReq q) = cr_user q"
| "request_user (SparkVersionReq q) = sr_user q"
| "request_user (InterruptReq t q) = sr_user q"
| "request_user (ReleaseSessionReq q) = sr_user q"

text \<open>One message of an \<^verbatim>\<open>ExecutePlan\<close> stream, as far as it is read: the server's session id and
  the data of an Arrow batch. The stream ends with the list (\<^verbatim>\<open>io.EOF\<close>).\<close>

record execute_plan_response =
  er_server_session :: string
  er_arrow_data :: "string option"

datatype recv_event = Resp execute_plan_response | RecvErr grpc_error

record config_response =
  cp_server_session :: string
  cp_pairs :: "(string \<times> string option) list"

record analyze_response =
  ar_server_session :: string
  ar_spark_version :: "string option"

section \<open>The libraries\<close>

text \<open>
  What \<^verbatim>\<open>ipc.NewReader\<close> and its \<^verbatim>\<open>Next\<close> deliver for the bytes of one batch: the schema, the
  records, and the error the iteration ended with.
\<close>

datatype read_error = ReadEOF | ReadError string

record ipc_stream =
  ipc_schema :: schema
  ipc_records :: "record_batch list"
  ipc_error :: "read_error option"

type_synonym metadata = "(string \<times> string) list"

text \<open>
  Code outside the repository, as functions: Arrow's IPC decoder and decimal printing, the key
  normalisation of gRPC metadata, the order in which \<^verbatim>\<open>range\<close> visits the headers, the supply of
  UUIDs, and the gRPC channel with the Spark Connect service behind it, whose state has type
  \<open>'srv\<close>. The whole list of messages an \<^verbatim>\<open>ExecutePlan\<close> stream will deliver is fixed when the call
  is made.
\<close>

record 'srv libs =
  lib_unicode :: unicode
  lib_decode :: "string \<Rightarrow> string + ipc_stream"
  lib_decimal :: decimal_format
  lib_md_key :: "string \<Rightarrow> string"
  lib_header_order :: "(string \<rightharpoonup> string) \<Rightarrow> (string \<times> string) list"
  lib_uuid :: "nat \<Rightarrow> string"
  lib_dial :: "string \<Rightarrow> bool \<Rightarrow> string option"
  svc_execute_plan :: "metadata \<Rightarrow> execute_plan_request \<Rightarrow> 'srv \<Rightarrow> (grpc_error + recv_event list) \<times> 'srv"
  svc_config :: "metadata \<Rightarrow> config_request \<Rightarrow> 'srv \<Rightarrow> (grpc_error + config_response) \<times> 'srv"
  svc_analyze :: "metadata \<Rightarrow> session_request \<Rightarrow> 'srv \<Rightarrow> (grpc_error + analyze_response) \<times> 'srv"
  svc_interrupt :: "metadata \<Rightarrow> session_request \<Rightarrow> 'srv \<Rightarrow> grpc_error option \<times> 'srv"
  svc_release :: "metadata \<Rightarrow> session_request \<Rightarrow> 'srv \<Rightarrow> grpc_error option \<times> 'srv"
  svc_close :: "'srv \<Rightarrow> string option \<times> 'srv"

section \<open>The state of a running driver\<close>

text \<open>
  A client is an object that connections and readers point to. The runtime has the
  configurations, the clients by their number, the reference counts of record batches (those the
  driver holds), the number of stream contexts not yet cancelled, the requests sent so far, the
  number of UUIDs drawn, and the state of the service.
\<close>

record client =
  cl_cfg :: nat
  cl_session :: string
  cl_server_session :: string
  cl_closed :: bool

record 'srv runtime =
  rt_heap :: heap
  rt_clients :: "client list"
  rt_refs :: "nat \<Rightarrow> int"
  rt_next :: nat
  rt_streams :: int
  rt_sent :: "(metadata \<times> request) list"
  rt_uuids :: nat
  rt_server :: 'srv

definition the_client :: "nat \<Rightarrow> 'srv runtime \<Rightarrow> client" where
  "the_client c w = rt_clients w ! c"

definition upd_client :: "nat \<Rightarrow> (client \<Rightarrow> client) \<Rightarrow> 'srv runtime \<Rightarrow> 'srv runtime" where
  "upd_client c f w = w\<lparr>rt_clients := (rt_clients w)[c := f (rt_clients w ! c)]\<rparr>"

definition the_config :: "nat \<Rightarrow> 'srv runtime \<Rightarrow> config" where
  "the_config c w = the (hp_cfgs (rt_heap w) (cl_cfg (the_client c w)))"

text \<open>\<^verbatim>\<open>Retain\<close> and \<^verbatim>\<open>Release\<close> of a record batch.\<close>

definition add_ref :: "int \<Rightarrow> batch_ref \<Rightarrow> 'srv runtime \<Rightarrow> 'srv runtime" where
  "add_ref n b w = w\<lparr>rt_refs := (rt_refs w)(fst b := rt_refs w (fst b) + n)\<rparr>"

definition retain_rec :: "batch_ref \<Rightarrow> 'srv runtime \<Rightarrow> 'srv runtime" where
  "retain_rec = add_ref 1"

definition release_rec :: "batch_ref \<Rightarrow> 'srv runtime \<Rightarrow> 'srv runtime" where
  "release_rec = add_ref (- 1)"

section \<open>Methods every request uses\<close>

text \<open>\<^verbatim>\<open>md.Set\<close>: one value per normalised key.\<close>

definition md_set :: "'srv libs \<Rightarrow> string \<Rightarrow> string \<Rightarrow> metadata \<Rightarrow> metadata" where
  "md_set L k v md = AList.update (lib_md_key L k) v md"

text \<open>A Go context matters here only for the outgoing metadata it may carry already.\<close>

definition outgoing_context :: "'srv libs \<Rightarrow> config \<Rightarrow> metadata \<Rightarrow> metadata" where
  "outgoing_context L cfg ctx =
    (let md = (if cfg_token cfg \<noteq> [] then md_set L ''authorization'' (''Bearer '' @ cfg_token cfg) [] else []);
         md' = foldl (\<lambda>md kv. md_set L (fst kv) (snd kv) md) md (lib_header_order L (cfg_headers cfg))
     in if md' = [] then ctx else md')"

definition user_context :: "config \<Rightarrow> string option" where
  "user_context cfg = (if cfg_user_id cfg = [] then None else Some (cfg_user_id cfg))"

definition client_type :: "config \<Rightarrow> string option" where
  "client_type cfg = Some (cfg_user_agent cfg)"

definition remember_server_session :: "nat \<Rightarrow> string \<Rightarrow> 'srv runtime \<Rightarrow> 'srv runtime" where
  "remember_server_session c i w =
    (if i = [] then w else upd_client c (\<lambda>cl. cl\<lparr>cl_server_session := i\<rparr>) w)"

definition server_side_session_id :: "nat \<Rightarrow> 'srv runtime \<Rightarrow> string" where
  "server_side_session_id c w = cl_server_session (the_client c w)"

definition session_id :: "nat \<Rightarrow> 'srv runtime \<Rightarrow> string" where
  "session_id c w = cl_session (the_client c w)"

text \<open>A request leaves with its metadata.\<close>

definition log_request :: "metadata \<Rightarrow> request \<Rightarrow> 'srv runtime \<Rightarrow> 'srv runtime" where
  "log_request md q w = w\<lparr>rt_sent := rt_sent w @ [(md, q)]\<rparr>"

section \<open>Frames\<close>

lemma upd_client_frame [simp]:
  "rt_heap (upd_client c f w) = rt_heap w"
  "rt_refs (upd_client c f w) = rt_refs w"
  "rt_next (upd_client c f w) = rt_next w"
  "rt_streams (upd_client c f w) = rt_streams w"
  "rt_sent (upd_client c f w) = rt_sent w"
  "rt_uuids (upd_client c f w) = rt_uuids w"
  "rt_server (upd_client c f w) = rt_server w"
  "length (rt_clients (upd_client c f w)) = length (rt_clients w)"
  by (simp_all add: upd_client_def)

lemma remember_frame [simp]:
  "rt_heap (remember_server_session c i w) = rt_heap w"
  "rt_refs (remember_server_session c i w) = rt_refs w"
  "rt_next (remember_server_session c i w) = rt_next w"
  "rt_streams (remember_server_session c i w) = rt_streams w"
  "rt_sent (remember_server_session c i w) = rt_sent w"
  "rt_uuids (remember_server_session c i w) = rt_uuids w"
  "rt_server (remember_server_session c i w) = rt_server w"
  "length (rt_clients (remember_server_session c i w)) = length (rt_clients w)"
  by (simp_all add: remember_server_session_def)

text \<open>Nothing but the server's session id of the client changes.\<close>

lemma the_client_upd:
  "the_client d (upd_client c f w) =
     (if d = c \<and> c < length (rt_clients w) then f (the_client d w) else the_client d w)"
  by (cases "c < length (rt_clients w)")
    (auto simp: the_client_def upd_client_def nth_list_update list_update_beyond)

lemma remember_client [simp]:
  "cl_cfg (the_client d (remember_server_session c i w)) = cl_cfg (the_client d w)"
  "cl_session (the_client d (remember_server_session c i w)) = cl_session (the_client d w)"
  "cl_closed (the_client d (remember_server_session c i w)) = cl_closed (the_client d w)"
  by (simp_all add: remember_server_session_def the_client_upd)

lemma add_ref_frame [simp]:
  "rt_heap (add_ref n b w) = rt_heap w"
  "rt_clients (add_ref n b w) = rt_clients w"
  "rt_next (add_ref n b w) = rt_next w"
  "rt_streams (add_ref n b w) = rt_streams w"
  "rt_sent (add_ref n b w) = rt_sent w"
  "rt_uuids (add_ref n b w) = rt_uuids w"
  "rt_server (add_ref n b w) = rt_server w"
  by (simp_all add: add_ref_def)

text \<open>A series of releases takes one reference per occurrence.\<close>

lemma refs_add_ref: "rt_refs (add_ref n b w) i = rt_refs w i + (if i = fst b then n else 0)"
  by (simp add: add_ref_def)

lemma refs_fold_add_ref:
  "rt_refs (fold (add_ref n) bs w) i = rt_refs w i + n * int (count_list (map fst bs) i)"
  by (induction bs arbitrary: w) (auto simp: refs_add_ref algebra_simps)

lemma fold_add_ref_frame [simp]:
  "rt_heap (fold (add_ref n) bs w) = rt_heap w"
  "rt_clients (fold (add_ref n) bs w) = rt_clients w"
  "rt_next (fold (add_ref n) bs w) = rt_next w"
  "rt_streams (fold (add_ref n) bs w) = rt_streams w"
  "rt_sent (fold (add_ref n) bs w) = rt_sent w"
  "rt_uuids (fold (add_ref n) bs w) = rt_uuids w"
  "rt_server (fold (add_ref n) bs w) = rt_server w"
  by (induction bs arbitrary: w) simp_all

section \<open>Request metadata\<close>

lemma fst_set_fold_md_set:
  "fst ` set (foldl (\<lambda>md kv. md_set L (fst kv) (snd kv) md) md kvs) =
     fst ` set md \<union> (lib_md_key L \<circ> fst) ` set kvs"
  by (induction kvs arbitrary: md) (auto simp: md_set_def dom_update)

lemma distinct_fold_md_set:
  "distinct (map fst md) \<Longrightarrow>
     distinct (map fst (foldl (\<lambda>md kv. md_set L (fst kv) (snd kv) md) md kvs))"
  by (induction kvs arbitrary: md) (auto simp: md_set_def distinct_update)

lemma map_of_fold_md_set:
  "k \<notin> (lib_md_key L \<circ> fst) ` set kvs \<Longrightarrow>
     map_of (foldl (\<lambda>md kv. md_set L (fst kv) (snd kv) md) md kvs) k = map_of md k"
  by (induction kvs arbitrary: md) (auto simp: md_set_def update_conv')

end
