(* ===== verification/Record_Loop.thy ===== *)
theory Record_Loop
  imports Prelude
begin

text \<open>
  The loop \<^verbatim>\<open>for reader.Next() { ... }\<close> and the contract of a record reader it relies on: \<^verbatim>\<open>Next\<close>
  moves to the first of the records that are left and is false when none is; \<^verbatim>\<open>Err\<close> is then the
  error that ended the iteration. What the loops of the driver compute follows from the contract
  and is proved once here.
\<close>

section \<open>The loop\<close>

text \<open>The body may leave the loop by a panic, on the left; the state is kept then too, because
  deferred calls still run. \<open>None\<close> is a loop that does not end.\<close>

partial_function (option) for_next ::
  "('s \<Rightarrow> bool \<times> 's) \<Rightarrow> ('s \<Rightarrow> 'b \<Rightarrow> 'p + 'b) \<Rightarrow> 's \<Rightarrow> 'b \<Rightarrow> (('p + 'b) \<times> 's) option" where
  "for_next nxt body s acc = (case nxt s of (ok, s') \<Rightarrow>
     if ok then (case body s' acc of
         Inl p \<Rightarrow> Some (Inl p, s')
       | Inr acc' \<Rightarrow> for_next nxt body s' acc')
     else Some (Inr acc, s'))"

text \<open>The loop with an empty body.\<close>

definition drain :: "('s \<Rightarrow> bool \<times> 's) \<Rightarrow> 's \<Rightarrow> 's option" where
  "drain nxt s = map_option snd (for_next nxt (\<lambda>s u. (Inr u :: unit + unit)) s ())"

text \<open>The fold that the loop is.\<close>

fun fold_res :: "('a \<Rightarrow> 'b \<Rightarrow> 'p + 'b) \<Rightarrow> 'a list \<Rightarrow> 'b \<Rightarrow> 'p + 'b" where
  "fold_res g [] acc = Inr acc"
| "fold_res g (x # xs) acc = bind_res (g x acc) (fold_res g xs)"

lemma fold_res_total: "fold_res (\<lambda>x b. Inr (f x b)) xs acc = Inr (fold f xs acc)"
  by (induction xs arbitrary: acc) simp_all

section \<open>The contract of a reader\<close>

locale record_reader =
  fixes nxt :: "'s \<Rightarrow> bool \<times> 's"
    and item :: "'s \<Rightarrow> 'a option"
    and rest :: "'s \<Rightarrow> 'a list"
  assumes next_true: "nxt s = (True, s') \<Longrightarrow> \<exists>x. item s' = Some x \<and> rest s = x # rest s'"
    and next_false: "nxt s = (False, s') \<Longrightarrow> rest s = [] \<and> rest s' = []"
begin

lemma next_iff: "nxt s = (ok, s') \<Longrightarrow> ok \<longleftrightarrow> rest s \<noteq> []"
  using next_true [of s s'] next_false [of s s'] by (cases ok) auto

text \<open>A loop whose body looks at the current record only is a fold over what is left, and it ends.\<close>

lemma loop_fold:
  assumes body: "\<And>s acc x. item s = Some x \<Longrightarrow> body s acc = g x acc"
  shows "\<exists>s'. for_next nxt body s acc = Some (fold_res g (rest s) acc, s')"
proof (induction "rest s" arbitrary: s acc)
  case Nil
  obtain ok s' where n: "nxt s = (ok, s')" by fastforce
  with Nil have "\<not> ok" by (simp add: next_iff [OF n])
  with n Nil show ?case by (subst for_next.simps) (simp flip: Nil)
next
  case (Cons x xs)
  obtain ok s' where n: "nxt s = (ok, s')" by fastforce
  with Cons(2) have ok: "ok" by (auto simp: next_iff [OF n])
  with n Cons(2) next_true [of s s'] have s': "item s' = Some x" "xs = rest s'"
    by auto
  show ?case
  proof (cases "g x acc")
    case (Inr acc')
    with Cons(1) [OF s'(2), of acc'] show ?thesis
      using n ok s' Cons(2) body [OF s'(1), of acc] by (subst for_next.simps) (simp flip: Cons(2))
  qed (use n ok s' body [OF s'(1), of acc] in \<open>subst for_next.simps, simp flip: Cons(2)\<close>)
qed

text \<open>What every step keeps holds at the end.\<close>

lemma loop_keeps:
  assumes step: "\<And>s ok s'. nxt s = (ok, s') \<Longrightarrow> P s \<Longrightarrow> P s'"
    and "for_next nxt body s acc = Some (res, s')" "P s"
  shows "P s'"
  using assms(2,3)
proof (induction "length (rest s)" arbitrary: s acc)
  case 0
  obtain ok s1 where n: "nxt s = (ok, s1)" by fastforce
  with 0(1) have "\<not> ok" by (simp add: next_iff [OF n])
  with n 0(2) have "s' = s1" by (subst (asm) for_next.simps) simp
  with step [OF n 0(3)] show ?case by simp
next
  case (Suc k)
  obtain ok s1 where n: "nxt s = (ok, s1)" by fastforce
  with Suc(2) have ok: "ok" by (auto simp: next_iff [OF n])
  with n next_true [of s s1] Suc(2) have len: "k = length (rest s1)" by auto
  have P1: "P s1" using step [OF n Suc(4)] .
  show ?case
  proof (cases "body s1 acc")
    case (Inl p)
    with Suc(3) n ok have "s' = s1" by (subst (asm) for_next.simps) simp
    with P1 show ?thesis by simp
  next
    case (Inr acc')
    with Suc(3) n ok have "for_next nxt body s1 acc' = Some (res, s')"
      by (subst (asm) for_next.simps) simp
    with Suc(1) [OF len _ P1] show ?thesis .
  qed
qed

text \<open>A loop that was not left by a panic has seen \<^verbatim>\<open>Next\<close> return false.\<close>

lemma loop_end:
  assumes "for_next nxt body s acc = Some (Inr acc', s')"
  shows "\<exists>s0. nxt s0 = (False, s') \<and> rest s' = []"
  using assms
proof (induction "length (rest s)" arbitrary: s acc)
  case 0
  obtain ok s1 where n: "nxt s = (ok, s1)" by fastforce
  with 0(1) have "\<not> ok" by (simp add: next_iff [OF n])
  with n 0(2) next_false [of s s1] show ?case by (subst (asm) for_next.simps) auto
next
  case (Suc k)
  obtain ok s1 where n: "nxt s = (ok, s1)" by fastforce
  with Suc(2) have ok: "ok" by (auto simp: next_iff [OF n])
  with n next_true [of s s1] Suc(2) have len: "k = length (rest s1)" by auto
  with Suc(3) n ok obtain acc1 where "for_next nxt body s1 acc1 = Some (Inr acc', s')"
    by (subst (asm) for_next.simps) (auto split: sum.splits)
  with Suc(1) [OF len] show ?case .
qed

lemma drain_total: "\<exists>s'. drain nxt s = Some s' \<and> rest s' = []"
proof -
  obtain s' where "for_next nxt (\<lambda>s u. (Inr u :: unit + unit)) s () =
      Some (fold_res (\<lambda>x u. Inr u) (rest s) (), s')"
    using loop_fold [of "\<lambda>s u. (Inr u :: unit + unit)" "\<lambda>x u. Inr u"] by blast
  then show ?thesis
    using loop_end [of "\<lambda>s u. (Inr u :: unit + unit)" s "()" _ s']
    by (auto simp: drain_def fold_res_total)
qed

end

text \<open>A reader with an error: the final error is fixed by what is still to come.\<close>

locale failing_reader = record_reader nxt item rest
  for nxt :: "'s \<Rightarrow> bool \<times> 's" and item :: "'s \<Rightarrow> 'a option" and rest :: "'s \<Rightarrow> 'a list" +
  fixes err :: "'s \<Rightarrow> 'e option" and fin :: "'s \<Rightarrow> 'e option"
  assumes final_kept: "nxt s = (ok, s') \<Longrightarrow> fin s' = fin s"
    and final_shown: "nxt s = (False, s') \<Longrightarrow> err s' = fin s"
begin

lemma loop_error:
  assumes "for_next nxt body s acc = Some (Inr acc', s')"
  shows "err s' = fin s"
proof -
  obtain s0 where s0: "nxt s0 = (False, s')" using loop_end [OF assms] by blast
  have "fin s' = fin s"
    by (rule loop_keeps [where P = "\<lambda>t. fin t = fin s", OF _ assms refl]) (use final_kept in force)
  with final_shown [OF s0] final_kept [OF s0] show ?thesis by simp
qed

lemma drain_error: "drain nxt s = Some s' \<Longrightarrow> err s' = fin s"
proof -
  assume d: "drain nxt s = Some s'"
  obtain s1 where l: "for_next nxt (\<lambda>s u. (Inr u :: unit + unit)) s () =
      Some (fold_res (\<lambda>x u. Inr u) (rest s) (), s1)"
    using loop_fold [of "\<lambda>s u. (Inr u :: unit + unit)" "\<lambda>x u. Inr u"] by blast
  with d have "s' = s1" by (simp add: drain_def)
  with loop_error [of "\<lambda>s u. (Inr u :: unit + unit)" s "()" _ s1] l show ?thesis
    by (simp add: fold_res_total)
qed

lemma drain_keeps:
  assumes "\<And>s ok s'. nxt s = (ok, s') \<Longrightarrow> P s \<Longrightarrow> P s'" "drain nxt s = Some s'" "P s"
  shows "P s'"
proof -
  obtain res where l: "for_next nxt (\<lambda>s u. (Inr u :: unit + unit)) s () = Some (res, s')"
    using assms(2) by (auto simp: drain_def)
  show ?thesis by (rule loop_keeps [where P = P]) (fact assms(1), fact l, fact assms(3))
qed

end

end
