(* ===== verification/Sample_Service.thy ===== *)
theory Sample_Service
  imports Session
begin

text \<open>
  A concrete instance of the libraries and of the service, at which the theorems with hypotheses
  are applied. The decoder gives one record of one string column for any batch but \<^verbatim>\<open>!\<close>, which
  does not decode. The service counts its calls, answers a statement with two batches, refuses
  the empty statement and the one that reads \<^verbatim>\<open>!\<close>.
\<close>

definition sample_batch :: "string \<Rightarrow> record_batch" where
  "sample_batch v = \<lparr>rb_columns = [AString [Some v]], rb_rows = 1\<rparr>"

definition sample_schema :: schema where
  "sample_schema = [Field ''tableName'' TString True]"

definition sample_decode :: "string \<Rightarrow> string + ipc_stream" where
  "sample_decode data =
    (if data = ''!'' then Inl ''bad batch''
     else Inr \<lparr>ipc_schema = sample_schema, ipc_records = [sample_batch data], ipc_error = None\<rparr>)"

definition sample_resp :: "string \<Rightarrow> string option \<Rightarrow> recv_event" where
  "sample_resp i d = Resp \<lparr>er_server_session = i, er_arrow_data = d\<rparr>"

definition sample_stream :: "recv_event list" where
  "sample_stream = [sample_resp ''srv'' (Some ''ab''), sample_resp [] None, sample_resp [] (Some ''cd'')]"

definition query_of :: "plan \<Rightarrow> string" where
  "query_of p = (case p of PlanRoot (RelSql q) \<Rightarrow> sql_query q)"

definition sample_libs :: "nat libs" where
  "sample_libs =
    \<lparr>lib_unicode = ascii_tables, lib_decode = sample_decode,
     lib_decimal = \<lparr>dec128_string = \<lambda>v s. ''0'', dec256_string = \<lambda>v s. ''0''\<rparr>,
     lib_md_key = \<lambda>k. k, lib_header_order = \<lambda>m. [], lib_uuid = \<lambda>n. itoa (int n),
     lib_dial = \<lambda>e tls. None,
     svc_execute_plan = \<lambda>md q n.
       (if query_of (xp_plan q) = [] then Inl (StatusError 3 ''empty'')
        else Inr (if query_of (xp_plan q) = ''!'' then [RecvErr (StatusError 5 ''none'')] else sample_stream),
        Suc n),
     svc_config = \<lambda>md q n. (Inr \<lparr>cp_server_session = ''srv'', cp_pairs = [(''k'', Some ''v'')]\<rparr>, Suc n),
     svc_analyze = \<lambda>md q n. (Inr \<lparr>ar_server_session = ''srv'', ar_spark_version = Some ''4.0.0''\<rparr>, Suc n),
     svc_interrupt = \<lambda>md q n. (None, Suc n),
     svc_release = \<lambda>md q n. (None, Suc n),
     svc_close = \<lambda>n. (None, n)\<rparr>"

definition sample_runtime :: "nat runtime" where
  "sample_runtime =
    \<lparr>rt_heap = \<lparr>hp_cfgs = [0 \<mapsto> new_config], hp_next = 1\<rparr>,
     rt_clients = [\<lparr>cl_cfg = 0, cl_session = ''s0'', cl_server_session = [], cl_closed = False\<rparr>],
     rt_refs = \<lambda>i. 0, rt_next = 0, rt_streams = 0, rt_sent = [], rt_uuids = 0, rt_server = 0\<rparr>"

lemmas sample_defs = sample_libs_def sample_runtime_def sample_stream_def sample_resp_def
  sample_decode_def sample_schema_def sample_batch_def

end
