(* ===== verification/Result_Reader.thy ===== *)
theory Result_Reader
  imports Sample_Service Record_Loop
begin

text \<open>
  \<^verbatim>\<open>internal/sparkconnect/result_reader.go\<close>: the adapter from an \<^verbatim>\<open>ExecutePlan\<close> stream to Arrow's
  \<^verbatim>\<open>RecordReader\<close>. The reader is a record of its fields; every method also takes and returns the
  runtime, where the references it holds and the server's session id live.
\<close>

section \<open>State\<close>

record reader =
  rd_refs :: int
  rd_schema :: "schema option"
  rd_client :: nat
  rd_stream :: "recv_event list"
  rd_cancel :: bool
  rd_buf :: "batch_ref list"
  rd_pos :: nat
  rd_cur :: "batch_ref option"
  rd_err :: "go_error option"
  rd_done :: bool

section \<open>decodeIPC\<close>

text \<open>New records get the next numbers; the reader holds one reference to each
  (\<^verbatim>\<open>rec.Retain()\<close>; the references of the decoder are gone with \<^verbatim>\<open>rdr.Release()\<close>).\<close>

definition number_records :: "record_batch list \<Rightarrow> 'srv runtime \<Rightarrow> batch_ref list" where
  "number_records rs w = zip [rt_next w ..< rt_next w + length rs] rs"

definition take_records :: "record_batch list \<Rightarrow> 'srv runtime \<Rightarrow> batch_ref list \<times> 'srv runtime" where
  "take_records rs w =
    (let bs = number_records rs w in
     (bs, fold retain_rec bs (w\<lparr>rt_next := rt_next w + length rs\<rparr>)))"

definition read_failed :: "ipc_stream \<Rightarrow> string option" where
  "read_failed s = (case ipc_error s of
     Some (ReadError e) \<Rightarrow> Some e
   | Some ReadEOF \<Rightarrow> None
   | None \<Rightarrow> None)"

definition decode_ipc ::
  "'srv libs \<Rightarrow> string \<Rightarrow> reader \<Rightarrow> 'srv runtime \<Rightarrow>
     (go_error + batch_ref list) \<times> reader \<times> 'srv runtime" where
  "decode_ipc L data r w = (case lib_decode L data of
     Inl e \<Rightarrow> (Inl (Plain (Text (''spark connect: decode arrow batch: '' @ e))), r, w)
   | Inr s \<Rightarrow>
       (let r' = (if rd_schema r = None then r\<lparr>rd_schema := Some (ipc_schema s)\<rparr> else r) in
        case take_records (ipc_records s) w of (recs, w') \<Rightarrow>
          (case read_failed s of
             Some e \<Rightarrow> (Inl (Plain (Text (''spark connect: read arrow batch: '' @ e))), r',
                       fold release_rec recs w')
           | None \<Rightarrow> (Inr recs, r', w'))))"

section \<open>fill\<close>

text \<open>The loop over \<^verbatim>\<open>stream.Recv()\<close>; the list is what the stream has still to deliver.\<close>

fun fill_from ::
  "'srv libs \<Rightarrow> recv_event list \<Rightarrow> reader \<Rightarrow> 'srv runtime \<Rightarrow> reader \<times> 'srv runtime" where
  "fill_from L [] r w = (r\<lparr>rd_stream := [], rd_done := True\<rparr>, w)"
| "fill_from L (RecvErr e # es) r w =
     (r\<lparr>rd_stream := es, rd_err := Some (wrap_grpc e), rd_done := True\<rparr>, w)"
| "fill_from L (Resp resp # es) r w =
     (let w1 = remember_server_session (rd_client r) (er_server_session resp) w in
      case er_arrow_data resp of
        None \<Rightarrow> fill_from L es r w1
      | Some data \<Rightarrow>
          if data = [] then fill_from L es r w1
          else (case decode_ipc L data r w1 of
                  (Inl e, r', w2) \<Rightarrow> (r'\<lparr>rd_stream := es, rd_err := Some e, rd_done := True\<rparr>, w2)
                | (Inr recs, r', w2) \<Rightarrow>
                    if recs = [] then fill_from L es r' w2
                    else (r'\<lparr>rd_stream := es, rd_buf := recs, rd_pos := 0\<rparr>, w2)))"

definition fill :: "'srv libs \<Rightarrow> reader \<times> 'srv runtime \<Rightarrow> reader \<times> 'srv runtime" where
  "fill L s = fill_from L (rd_stream (fst s)) (fst s) (snd s)"

section \<open>Retain and Release\<close>

definition reader_retain :: "reader \<times> 'srv runtime \<Rightarrow> reader \<times> 'srv runtime" where
  "reader_retain s = ((fst s)\<lparr>rd_refs := rd_refs (fst s) + 1\<rparr>, snd s)"

definition release_cur :: "reader \<times> 'srv runtime \<Rightarrow> reader \<times> 'srv runtime" where
  "release_cur s = (case rd_cur (fst s) of
     None \<Rightarrow> s
   | Some b \<Rightarrow> ((fst s)\<lparr>rd_cur := None\<rparr>, release_rec b (snd s)))"

definition reader_release :: "reader \<times> 'srv runtime \<Rightarrow> reader \<times> 'srv runtime" where
  "reader_release s =
    (let r = (fst s)\<lparr>rd_refs := rd_refs (fst s) - 1\<rparr> in
     if rd_refs r \<noteq> 0 then (r, snd s)
     else (case release_cur (r, snd s) of (r1, w1) \<Rightarrow>
       (let w2 = fold release_rec (drop (rd_pos r1) (rd_buf r1)) w1;
            r2 = r1\<lparr>rd_buf := []\<rparr> in
        if rd_cancel r2 then (r2\<lparr>rd_cancel := False\<rparr>, w2\<lparr>rt_streams := rt_streams w2 - 1\<rparr>)
        else (r2, w2))))"

section \<open>Next\<close>

text \<open>A call of \<^verbatim>\<open>fill\<close> ends the stream or gets records and leaves less of the stream.\<close>

lemma decode_ipc_frame:
  assumes "decode_ipc L data r w = (res, r', w')"
  shows "rd_refs r' = rd_refs r" "rd_client r' = rd_client r" "rd_stream r' = rd_stream r"
    "rd_cancel r' = rd_cancel r" "rd_buf r' = rd_buf r" "rd_pos r' = rd_pos r"
    "rd_cur r' = rd_cur r" "rd_err r' = rd_err r" "rd_done r' = rd_done r"
    "rt_streams w' = rt_streams w" "rt_sent w' = rt_sent w" "rt_heap w' = rt_heap w"
    "rt_clients w' = rt_clients w" "rt_server w' = rt_server w" "rt_uuids w' = rt_uuids w"
  using assms
  by (auto simp: decode_ipc_def take_records_def retain_rec_def release_rec_def Let_def
      split: sum.splits option.splits if_splits)

text \<open>The induction rule of the loop, one case per way round it.\<close>

lemma fill_induct [case_names eof recv_error skip decode_error no_records records]:
  assumes eof: "\<And>r w. P [] r w (r\<lparr>rd_stream := [], rd_done := True\<rparr>) w"
    and recv_error: "\<And>e es r w. P (RecvErr e # es) r w
      (r\<lparr>rd_stream := es, rd_err := Some (wrap_grpc e), rd_done := True\<rparr>) w"
    and skip: "\<And>resp es r w r' w'. er_arrow_data resp = None \<or> er_arrow_data resp = Some [] \<Longrightarrow>
      P es r (remember_server_session (rd_client r) (er_server_session resp) w) r' w' \<Longrightarrow>
      P (Resp resp # es) r w r' w'"
    and decode_error: "\<And>resp es r w data e r' w'. er_arrow_data resp = Some data \<Longrightarrow> data \<noteq> [] \<Longrightarrow>
      decode_ipc L data r (remember_server_session (rd_client r) (er_server_session resp) w) =
        (Inl e, r', w') \<Longrightarrow>
      P (Resp resp # es) r w (r'\<lparr>rd_stream := es, rd_err := Some e, rd_done := True\<rparr>) w'"
    and no_records: "\<And>resp es r w data r1 w1 r' w'. er_arrow_data resp = Some data \<Longrightarrow> data \<noteq> [] \<Longrightarrow>
      decode_ipc L data r (remember_server_session (rd_client r) (er_server_session resp) w) =
        (Inr [], r1, w1) \<Longrightarrow> P es r1 w1 r' w' \<Longrightarrow> P (Resp resp # es) r w r' w'"
    and records: "\<And>resp es r w data recs r' w'. er_arrow_data resp = Some data \<Longrightarrow> data \<noteq> [] \<Longrightarrow>
      decode_ipc L data r (remember_server_session (rd_client r) (er_server_session resp) w) =
        (Inr recs, r', w') \<Longrightarrow> recs \<noteq> [] \<Longrightarrow>
      P (Resp resp # es) r w (r'\<lparr>rd_stream := es, rd_buf := recs, rd_pos := 0\<rparr>) w'"
  shows "P es r w (fst (fill_from L es r w)) (snd (fill_from L es r w))"
proof (induction es arbitrary: r w)
  case (Cons ev es)
  show ?case
  proof (cases ev)
    case (Resp resp)
    let ?w1 = "remember_server_session (rd_client r) (er_server_session resp) w"
    show ?thesis
    proof (cases "er_arrow_data resp = None \<or> er_arrow_data resp = Some []")
      case True
      then have "fill_from L (ev # es) r w = fill_from L es r ?w1" using Resp by auto
      then show ?thesis using skip [OF True Cons.IH] Resp by simp
    next
      case False
      then obtain data where data: "er_arrow_data resp = Some data" "data \<noteq> []" by auto
      obtain res r1 w2 where d: "decode_ipc L data r ?w1 = (res, r1, w2)" by (metis prod_cases3)
      show ?thesis
      proof (cases res)
        case (Inl e)
        then show ?thesis using decode_error [OF data] d data Resp by simp
      next
        case (Inr recs)
        show ?thesis
        proof (cases "recs = []")
          case True
          then have "fill_from L (ev # es) r w = fill_from L es r1 w2" using Resp data d Inr by simp
          then show ?thesis using no_records [OF data _ Cons.IH] d Inr True Resp by simp
        qed (use records [OF data] d Inr data Resp in simp)
      qed
    qed
  qed (simp add: recv_error)
qed (simp add: eof)

lemma fill_from_progress:
  "rd_done (fst (fill_from L es r w)) \<or>
     rd_buf (fst (fill_from L es r w)) \<noteq> [] \<and> rd_pos (fst (fill_from L es r w)) = 0 \<and>
     length (rd_stream (fst (fill_from L es r w))) < length es"
  by (induction es r w rule: fill_induct) auto

function next_loop :: "'srv libs \<Rightarrow> reader \<times> 'srv runtime \<Rightarrow> bool \<times> (reader \<times> 'srv runtime)" where
  "next_loop L s =
    (let r = fst s in
     if rd_pos r < length (rd_buf r) then
       (True, r\<lparr>rd_cur := Some (rd_buf r ! rd_pos r), rd_pos := rd_pos r + 1\<rparr>, snd s)
     else if rd_done r then (False, s)
     else (let s1 = fill L (r\<lparr>rd_buf := [], rd_pos := 0\<rparr>, snd s) in
           if rd_err (fst s1) \<noteq> None then (False, s1) else next_loop L s1))"
  by pat_completeness auto

definition stream_left :: "reader \<Rightarrow> nat" where
  "stream_left r =
    (if rd_pos r < length (rd_buf r) then 0
     else if rd_done r then 0 else Suc (length (rd_stream r)))"

lemma fill_stream_left:
  assumes "\<not> rd_done r" "\<not> rd_pos r < length (rd_buf r)"
  shows "stream_left (fst (fill L (r\<lparr>rd_buf := [], rd_pos := 0\<rparr>, w))) < stream_left r"
proof -
  obtain r' w' where f: "fill L (r\<lparr>rd_buf := [], rd_pos := 0\<rparr>, w) = (r', w')" by fastforce
  then have "rd_done r' \<or> rd_buf r' \<noteq> [] \<and> rd_pos r' = 0"
    using fill_from_progress [of L "rd_stream r" "r\<lparr>rd_buf := [], rd_pos := 0\<rparr>" w] by (auto simp: fill_def)
  then show ?thesis using assms f by (auto simp: stream_left_def)
qed

termination next_loop
  by (relation "measure (\<lambda>(L, s). stream_left (fst s))") (auto simp: fill_stream_left)

declare next_loop.simps [simp del]

definition reader_next :: "'srv libs \<Rightarrow> reader \<times> 'srv runtime \<Rightarrow> bool \<times> (reader \<times> 'srv runtime)" where
  "reader_next L s =
    (let s1 = release_cur s in
     if rd_err (fst s1) \<noteq> None then (False, s1) else next_loop L s1)"

section \<open>newResultReader\<close>

definition init_reader :: "nat \<Rightarrow> recv_event list \<Rightarrow> reader" where
  "init_reader c stream =
    \<lparr>rd_refs = 1, rd_schema = None, rd_client = c, rd_stream = stream, rd_cancel = True,
     rd_buf = [], rd_pos = 0, rd_cur = None, rd_err = None, rd_done = False\<rparr>"

definition new_result_reader ::
  "'srv libs \<Rightarrow> nat \<Rightarrow> recv_event list \<Rightarrow> 'srv runtime \<Rightarrow>
     (go_error + reader) \<times> 'srv runtime" where
  "new_result_reader L c stream w =
    (let s1 = fill L (init_reader c stream, w) in
     case rd_err (fst s1) of
       Some e \<Rightarrow> (Inl e, snd (reader_release s1))
     | None \<Rightarrow>
         (Inr (if rd_schema (fst s1) = None then (fst s1)\<lparr>rd_schema := Some []\<rparr> else fst s1),
          snd s1))"

section \<open>What a stream delivers\<close>

text \<open>The records of a stream and the error that ends it: the batches' records one after the
  other, up to the first message that is an error or does not decode.\<close>

fun delivered :: "'srv libs \<Rightarrow> recv_event list \<Rightarrow> record_batch list \<times> go_error option" where
  "delivered L [] = ([], None)"
| "delivered L (RecvErr e # es) = ([], Some (wrap_grpc e))"
| "delivered L (Resp resp # es) = (case er_arrow_data resp of
     None \<Rightarrow> delivered L es
   | Some data \<Rightarrow>
       if data = [] then delivered L es
       else (case lib_decode L data of
         Inl e \<Rightarrow> ([], Some (Plain (Text (''spark connect: decode arrow batch: '' @ e))))
       | Inr s \<Rightarrow> (case read_failed s of
           Some e \<Rightarrow> ([], Some (Plain (Text (''spark connect: read arrow batch: '' @ e))))
         | None \<Rightarrow> (ipc_records s @ fst (delivered L es), snd (delivered L es)))))"

text \<open>The schema is the one of the first batch that opens.\<close>

fun first_schema :: "'srv libs \<Rightarrow> recv_event list \<Rightarrow> schema option" where
  "first_schema L [] = None"
| "first_schema L (RecvErr e # es) = None"
| "first_schema L (Resp resp # es) = (case er_arrow_data resp of
     None \<Rightarrow> first_schema L es
   | Some data \<Rightarrow>
       if data = [] then first_schema L es
       else (case lib_decode L data of Inl e \<Rightarrow> None | Inr s \<Rightarrow> Some (ipc_schema s)))"

lemma map_snd_number [simp]: "map snd (number_records rs w) = rs"
  by (simp add: number_records_def)

definition remaining :: "'srv libs \<Rightarrow> reader \<Rightarrow> record_batch list" where
  "remaining L r =
    (if rd_err r \<noteq> None then []
     else map snd (drop (rd_pos r) (rd_buf r)) @
          (if rd_done r then [] else fst (delivered L (rd_stream r))))"

definition final_error :: "'srv libs \<Rightarrow> reader \<Rightarrow> go_error option" where
  "final_error L r =
    (if rd_err r \<noteq> None then rd_err r
     else if rd_done r then None else snd (delivered L (rd_stream r)))"

section \<open>fill against the specification\<close>

lemma decode_ipc_cases:
  assumes "decode_ipc L data r w = (res, r', w')"
  shows "case lib_decode L data of
           Inl e \<Rightarrow> res = Inl (Plain (Text (''spark connect: decode arrow batch: '' @ e))) \<and> r' = r
         | Inr s \<Rightarrow> rd_schema r' = Some (case rd_schema r of Some sc \<Rightarrow> sc | None \<Rightarrow> ipc_schema s) \<and>
             (case read_failed s of
                Some e \<Rightarrow> res = Inl (Plain (Text (''spark connect: read arrow batch: '' @ e)))
              | None \<Rightarrow> \<exists>recs. res = Inr recs \<and> map snd recs = ipc_records s)"
  using assms
  by (auto simp: decode_ipc_def take_records_def Let_def split: sum.splits option.splits if_splits)

text \<open>The outcome of \<^verbatim>\<open>fill\<close>: the stream has ended, or its first records are in the buffer.\<close>

definition filled :: "'srv libs \<Rightarrow> recv_event list \<Rightarrow> reader \<Rightarrow> bool" where
  "filled L es r \<longleftrightarrow>
    (if rd_done r then rd_buf r = [] \<and> delivered L es = ([], rd_err r)
     else rd_err r = None \<and> rd_buf r \<noteq> [] \<and> rd_pos r = 0 \<and>
          delivered L es = (map snd (rd_buf r) @ fst (delivered L (rd_stream r)),
                            snd (delivered L (rd_stream r))))"

lemma fill_from_filled:
  "rd_err r = None \<Longrightarrow> \<not> rd_done r \<Longrightarrow> rd_buf r = [] \<Longrightarrow> filled L es (fst (fill_from L es r w))"
proof (induction es r w rule: fill_induct)
  case (decode_error resp es r w data e r' w')
  then show ?case using decode_ipc_frame [OF decode_error(3)] decode_ipc_cases [OF decode_error(3)]
    by (auto simp: filled_def split: sum.splits option.splits)
next
  case (no_records resp es r w data r1 w1 r' w')
  then have "filled L es r'" using decode_ipc_frame [OF no_records(3)] by simp
  then show ?case using no_records(1,2) decode_ipc_cases [OF no_records(3)]
    by (auto simp: filled_def split: sum.splits option.splits)
next
  case (records resp es r w data recs r' w')
  then show ?case using decode_ipc_frame [OF records(3)] decode_ipc_cases [OF records(3)]
    by (auto simp: filled_def split: sum.splits option.splits)
qed (auto simp: filled_def)

lemma fill_from_frame:
  "rd_refs (fst (fill_from L es r w)) = rd_refs r \<and>
   rd_client (fst (fill_from L es r w)) = rd_client r \<and>
   rd_cancel (fst (fill_from L es r w)) = rd_cancel r \<and>
   rd_cur (fst (fill_from L es r w)) = rd_cur r"
  by (induction es r w rule: fill_induct) (auto dest: decode_ipc_frame)

lemma fill_from_world:
  "rt_streams (snd (fill_from L es r w)) = rt_streams w \<and>
   rt_sent (snd (fill_from L es r w)) = rt_sent w \<and>
   rt_heap (snd (fill_from L es r w)) = rt_heap w \<and>
   rt_server (snd (fill_from L es r w)) = rt_server w \<and>
   rt_uuids (snd (fill_from L es r w)) = rt_uuids w \<and>
   length (rt_clients (snd (fill_from L es r w))) = length (rt_clients w)"
  by (induction es r w rule: fill_induct) (auto dest: decode_ipc_frame)

text \<open>The schema stays once it is known; a first call of \<^verbatim>\<open>fill\<close> sets it.\<close>

lemma fill_from_schema:
  "rd_schema (fst (fill_from L es r w)) =
     (case rd_schema r of Some sc \<Rightarrow> Some sc | None \<Rightarrow> first_schema L es)"
  by (induction es r w rule: fill_induct)
    (auto dest!: decode_ipc_cases split: sum.splits option.splits)

section \<open>References\<close>

text \<open>The records a reader holds a reference to.\<close>

definition held :: "reader \<Rightarrow> batch_ref list" where
  "held r = (case rd_cur r of Some b \<Rightarrow> [b] | None \<Rightarrow> []) @ drop (rd_pos r) (rd_buf r)"

text \<open>The references of a record that are not the reader's.\<close>

definition others :: "reader \<times> 'srv runtime \<Rightarrow> nat \<Rightarrow> int" where
  "others s i = rt_refs (snd s) i - int (count_list (map fst (held (fst s))) i)"

lemma others_schema [simp]: "others (r\<lparr>rd_schema := sc\<rparr>, w) = others (r, w)"
  by (simp add: others_def held_def fun_eq_iff)

lemma decode_ipc_refs:
  assumes "decode_ipc L data r w = (res, r', w')"
  shows "rt_refs w' i = rt_refs w i +
    (case res of Inr recs \<Rightarrow> int (count_list (map fst recs) i) | Inl e \<Rightarrow> 0)"
  using assms
  by (auto simp: decode_ipc_def take_records_def retain_rec_def release_rec_def Let_def
      refs_fold_add_ref split: sum.splits option.splits if_splits)

lemma others_eq:
  "rd_buf r = [] \<Longrightarrow> others (r, w) i =
     rt_refs w i - (case rd_cur r of Some b \<Rightarrow> if fst b = i then 1 else 0 | None \<Rightarrow> 0)"
  by (simp add: others_def held_def split: option.split)

lemma fill_from_others:
  "rd_buf r = [] \<Longrightarrow>
     others (fst (fill_from L es r w), snd (fill_from L es r w)) i = others (r, w) i"
proof (induction es r w rule: fill_induct)
  case (decode_error resp es r w data e r' w')
  then show ?case using decode_ipc_frame [OF decode_error(3)] decode_ipc_refs [OF decode_error(3), of i]
    by (simp add: others_eq)
next
  case (no_records resp es r w data r1 w1 r' w')
  then show ?case using decode_ipc_frame [OF no_records(3)] decode_ipc_refs [OF no_records(3), of i]
    by (simp add: others_eq)
next
  case (records resp es r w data recs r' w')
  then show ?case using decode_ipc_frame [OF records(3)] decode_ipc_refs [OF records(3), of i]
    by (simp add: others_def held_def split: option.split)
qed (simp_all add: others_eq)

section \<open>Next against the specification\<close>

definition next_ok :: "'srv libs \<Rightarrow> reader \<times> 'srv runtime \<Rightarrow> bool \<Rightarrow> reader \<times> 'srv runtime \<Rightarrow> bool" where
  "next_ok L s ok s' \<longleftrightarrow>
    (if ok then (\<exists>b. rd_cur (fst s') = Some b \<and> remaining L (fst s) = snd b # remaining L (fst s')) \<and>
                rd_err (fst s') = None
     else remaining L (fst s) = [] \<and> remaining L (fst s') = [] \<and> rd_cur (fst s') = None \<and>
          rd_err (fst s') = final_error L (fst s)) \<and>
    final_error L (fst s') = final_error L (fst s) \<and>
    (rd_schema (fst s) \<noteq> None \<longrightarrow> rd_schema (fst s') = rd_schema (fst s)) \<and>
    others s' = others s \<and>
    rd_refs (fst s') = rd_refs (fst s) \<and> rd_cancel (fst s') = rd_cancel (fst s) \<and>
    rd_client (fst s') = rd_client (fst s) \<and>
    rt_streams (snd s') = rt_streams (snd s) \<and> rt_sent (snd s') = rt_sent (snd s) \<and>
    rt_heap (snd s') = rt_heap (snd s) \<and> rt_server (snd s') = rt_server (snd s) \<and>
    rt_uuids (snd s') = rt_uuids (snd s) \<and>
    length (rt_clients (snd s')) = length (rt_clients (snd s))"

lemma next_ok_trans:
  assumes "next_ok L s1 ok s'"
    and "remaining L (fst s) = remaining L (fst s1)" "final_error L (fst s) = final_error L (fst s1)"
    and "rd_schema (fst s) \<noteq> None \<longrightarrow> rd_schema (fst s1) = rd_schema (fst s)"
    and "others s1 = others s" "rd_refs (fst s1) = rd_refs (fst s)"
    and "rd_cancel (fst s1) = rd_cancel (fst s)" "rd_client (fst s1) = rd_client (fst s)"
    and "rt_streams (snd s1) = rt_streams (snd s)" "rt_sent (snd s1) = rt_sent (snd s)"
    and "rt_heap (snd s1) = rt_heap (snd s)" "rt_server (snd s1) = rt_server (snd s)"
    and "rt_uuids (snd s1) = rt_uuids (snd s)"
    and "length (rt_clients (snd s1)) = length (rt_clients (snd s))"
  shows "next_ok L s ok s'"
  using assms unfolding next_ok_def by (cases ok) simp_all

lemma next_take:
  assumes "rd_pos r < length (rd_buf r)" "rd_err r = None" "rd_cur r = None"
  shows "next_ok L (r, w) True (r\<lparr>rd_cur := Some (rd_buf r ! rd_pos r), rd_pos := rd_pos r + 1\<rparr>, w)"
proof -
  have "drop (rd_pos r) (rd_buf r) = rd_buf r ! rd_pos r # drop (Suc (rd_pos r)) (rd_buf r)"
    using assms(1) by (rule drop_eq_Cons_nth)
  then show ?thesis using assms(2,3)
    by (auto simp: next_ok_def remaining_def final_error_def others_def held_def)
qed

lemma next_loop_ok:
  "rd_err (fst s) = None \<Longrightarrow> rd_cur (fst s) = None \<Longrightarrow> next_loop L s = (ok, s') \<Longrightarrow>
     next_ok L s ok s'"
proof (induction L s arbitrary: ok s' rule: next_loop.induct)
  case (1 L s)
  obtain r w where s: "s = (r, w)" by fastforce
  note pre = 1(2,3) [unfolded s fst_conv]
  show ?case
  proof (cases "rd_pos r < length (rd_buf r)")
    case True
    then show ?thesis using 1(4) s next_take [OF True pre]
      by (subst (asm) next_loop.simps) (auto simp: Let_def)
  next
    case pos: False
    show ?thesis
    proof (cases "rd_done r")
      case True
      then show ?thesis using 1(4) s pos pre
        by (subst (asm) next_loop.simps)
          (auto simp: Let_def next_ok_def remaining_def final_error_def)
    next
      case False
      define r0 where "r0 = r\<lparr>rd_buf := [], rd_pos := 0\<rparr>"
      define s1 where "s1 = fill L (r0, w)"
      have s1: "s1 = fill_from L (rd_stream r) r0 w" by (simp add: s1_def fill_def r0_def)
      have f: "filled L (rd_stream r) (fst s1)"
        unfolding s1 using pre False by (intro fill_from_filled) (simp_all add: r0_def)
      have oth: "others s1 = others s"
      proof
        fix i
        have "others s1 i = others (r0, w) i"
          using fill_from_others [of r0 L "rd_stream r" w i] by (simp add: s1 r0_def)
        then show "others s1 i = others s i" using pos by (simp add: s others_def held_def r0_def)
      qed
      note frame = fill_from_frame [of L "rd_stream r" r0 w, folded s1]
        fill_from_world [of L "rd_stream r" r0 w, folded s1]
      have sch: "rd_schema r \<noteq> None \<longrightarrow> rd_schema (fst s1) = rd_schema r"
        using fill_from_schema [of L "rd_stream r" r0 w, folded s1] by (auto simp: r0_def)
      have rem: "remaining L r = fst (delivered L (rd_stream r))"
        "final_error L r = snd (delivered L (rd_stream r))"
        using pre pos False by (simp_all add: remaining_def final_error_def)
      show ?thesis
      proof (cases "rd_err (fst s1)")
        case None
        then have "next_loop L s1 = (ok, s')" using 1(4) s pos False
          by (subst (asm) next_loop.simps) (simp add: Let_def s1_def r0_def)
        then have "next_ok L s1 ok s'"
          using 1(1) [of r s1] s pos False None frame pre by (simp add: s1_def r0_def)
        moreover have "remaining L (fst s) = remaining L (fst s1)"
          "final_error L (fst s) = final_error L (fst s1)"
          using f None rem s by (auto simp: filled_def remaining_def final_error_def split: if_splits)
        ultimately show ?thesis
          by (rule next_ok_trans) (use sch oth frame s in \<open>simp_all add: r0_def\<close>)
      next
        case (Some e)
        then have "ok = False" "s' = s1" using 1(4) s pos False
          by (subst (asm) next_loop.simps, simp add: Let_def s1_def r0_def)+
        moreover have "fst (delivered L (rd_stream r)) = []" "snd (delivered L (rd_stream r)) = Some e"
          using f Some by (auto simp: filled_def split: if_splits)
        ultimately show ?thesis using sch oth frame s Some rem pre
          by (simp add: next_ok_def remaining_def final_error_def r0_def)
      qed
    qed
  qed
qed

lemma release_cur_simps [simp]:
  "rd_cur (fst (release_cur s)) = None"
  "rd_err (fst (release_cur s)) = rd_err (fst s)"
  "rd_buf (fst (release_cur s)) = rd_buf (fst s)"
  "rd_pos (fst (release_cur s)) = rd_pos (fst s)"
  "rd_done (fst (release_cur s)) = rd_done (fst s)"
  "rd_stream (fst (release_cur s)) = rd_stream (fst s)"
  "rd_schema (fst (release_cur s)) = rd_schema (fst s)"
  "rd_refs (fst (release_cur s)) = rd_refs (fst s)"
  "rd_cancel (fst (release_cur s)) = rd_cancel (fst s)"
  "rd_client (fst (release_cur s)) = rd_client (fst s)"
  "rt_streams (snd (release_cur s)) = rt_streams (snd s)"
  "rt_sent (snd (release_cur s)) = rt_sent (snd s)"
  "rt_heap (snd (release_cur s)) = rt_heap (snd s)"
  "rt_server (snd (release_cur s)) = rt_server (snd s)"
  "rt_uuids (snd (release_cur s)) = rt_uuids (snd s)"
  "rt_clients (snd (release_cur s)) = rt_clients (snd s)"
  by (simp_all add: release_cur_def release_rec_def split: option.split)

lemma release_cur_others [simp]: "others (release_cur s) = others s"
  by (rule ext) (auto simp: release_cur_def release_rec_def others_def held_def refs_add_ref
      split: option.splits)

lemma release_cur_remaining [simp]:
  "remaining L (fst (release_cur s)) = remaining L (fst s)"
  "final_error L (fst (release_cur s)) = final_error L (fst s)"
  by (simp_all add: remaining_def final_error_def)

theorem reader_next_ok:
  assumes "reader_next L s = (ok, s')"
  shows "next_ok L s ok s'"
proof -
  have "next_ok L (release_cur s) ok s'"
  proof (cases "rd_err (fst s)")
    case None
    then show ?thesis using assms by (auto simp: reader_next_def intro!: next_loop_ok)
  next
    case (Some e)
    then show ?thesis using assms
      by (auto simp: reader_next_def Let_def next_ok_def remaining_def final_error_def)
  qed
  then show ?thesis by (rule next_ok_trans) simp_all
qed

section \<open>Construction and release\<close>

lemma new_result_reader_cases:
  fixes w :: "'srv runtime"
  assumes "new_result_reader L c stream w = (res, w')"
  shows "case res of
      Inl e \<Rightarrow> delivered L stream = ([], Some e) \<and> rt_refs w' = rt_refs w \<and>
               rt_streams w' = rt_streams w - 1
    | Inr r \<Rightarrow> remaining L r = fst (delivered L stream) \<and> final_error L r = snd (delivered L stream) \<and>
        rd_schema r = Some (case first_schema L stream of Some sc \<Rightarrow> sc | None \<Rightarrow> []) \<and>
        others (r, w') = rt_refs w \<and> rd_refs r = 1 \<and> rd_cancel r \<and> rd_cur r = None \<and> rd_client r = c \<and>
        rt_streams w' = rt_streams w"
    and "rt_sent w' = rt_sent w" "rt_heap w' = rt_heap w" "rt_server w' = rt_server w"
    "rt_uuids w' = rt_uuids w" "length (rt_clients w') = length (rt_clients w)"
proof -
  define r0 where "r0 = init_reader c stream"
  obtain r1 w1 where s1: "fill_from L stream r0 w = (r1, w1)" by fastforce
  have stream: "rd_stream r0 = stream" by (simp add: r0_def init_reader_def)
  have f: "filled L stream r1"
    using fill_from_filled [of r0 L stream w] s1 by (simp add: r0_def init_reader_def)
  have oth: "others (r1, w1) = rt_refs w"
  proof
    fix i show "others (r1, w1) i = rt_refs w i"
      using fill_from_others [of r0 L stream w i] s1 by (simp add: others_eq r0_def init_reader_def)
  qed
  note frame = fill_from_frame [of L stream r0 w, unfolded s1 fst_conv]
    fill_from_world [of L stream r0 w, unfolded s1 snd_conv]
    fill_from_schema [of L stream r0 w, unfolded s1 fst_conv]
  have new: "(res, w') = (case rd_err r1 of
       Some e \<Rightarrow> (Inl e, snd (reader_release (r1, w1)))
     | None \<Rightarrow> (Inr (if rd_schema r1 = None then r1\<lparr>rd_schema := Some []\<rparr> else r1), w1))"
  proof -
    have "(res, w') = new_result_reader L c stream w" using assms by (rule sym)
    moreover have "fill L (init_reader c stream, w) = (r1, w1)" using s1 stream by (simp add: fill_def r0_def)
    ultimately show ?thesis by (simp only: new_result_reader_def Let_def fst_conv snd_conv)
  qed
  show "case res of
      Inl e \<Rightarrow> delivered L stream = ([], Some e) \<and> rt_refs w' = rt_refs w \<and>
               rt_streams w' = rt_streams w - 1
    | Inr r \<Rightarrow> remaining L r = fst (delivered L stream) \<and> final_error L r = snd (delivered L stream) \<and>
        rd_schema r = Some (case first_schema L stream of Some sc \<Rightarrow> sc | None \<Rightarrow> []) \<and>
        others (r, w') = rt_refs w \<and> rd_refs r = 1 \<and> rd_cancel r \<and> rd_cur r = None \<and> rd_client r = c \<and>
        rt_streams w' = rt_streams w"
  proof (cases "rd_err r1")
    case None
    then show ?thesis using new f oth frame
      by (auto simp: filled_def remaining_def final_error_def r0_def init_reader_def
          split: if_splits option.splits)
  next
    case (Some e)
    then have "rd_done r1" "rd_buf r1 = []" "delivered L stream = ([], Some e)"
      using f by (auto simp: filled_def split: if_splits)
    moreover have "rt_refs w1 = rt_refs w"
      using oth frame calculation by (auto simp: others_def held_def r0_def init_reader_def fun_eq_iff)
    ultimately show ?thesis using new Some frame
      by (simp add: reader_release_def release_cur_def Let_def r0_def init_reader_def)
  qed
  show "rt_sent w' = rt_sent w" "rt_heap w' = rt_heap w" "rt_server w' = rt_server w"
    "rt_uuids w' = rt_uuids w" "length (rt_clients w') = length (rt_clients w)"
    using new frame
    by (auto simp: reader_release_def release_cur_def release_rec_def Let_def split: option.splits if_splits)
qed

text \<open>The last release gives back every reference and the stream.\<close>

lemma reader_release_last:
  assumes "rd_refs (fst s) = 1" "rd_cancel (fst s)"
  shows "rt_refs (snd (reader_release s)) = others s"
    "rt_streams (snd (reader_release s)) = rt_streams (snd s) - 1"
    "held (fst (reader_release s)) = []" "\<not> rd_cancel (fst (reader_release s))"
    "rd_refs (fst (reader_release s)) = 0"
  using assms
  by (auto simp: reader_release_def Let_def release_cur_def release_rec_def others_def held_def
      refs_fold_add_ref refs_add_ref fun_eq_iff split: option.splits)

lemma reader_release_frame [simp]:
  "rt_sent (snd (reader_release s)) = rt_sent (snd s)"
  "rt_heap (snd (reader_release s)) = rt_heap (snd s)"
  "rt_server (snd (reader_release s)) = rt_server (snd s)"
  "rt_uuids (snd (reader_release s)) = rt_uuids (snd s)"
  "rt_clients (snd (reader_release s)) = rt_clients (snd s)"
  "rd_err (fst (reader_release s)) = rd_err (fst s)"
  by (auto simp: reader_release_def release_cur_def release_rec_def Let_def split: option.splits)

text \<open>An earlier release only counts.\<close>

lemma reader_release_shared:
  "rd_refs (fst s) \<noteq> 1 \<Longrightarrow> reader_release s = ((fst s)\<lparr>rd_refs := rd_refs (fst s) - 1\<rparr>, snd s)"
  by (simp add: reader_release_def)

section \<open>The reader keeps the contract\<close>

definition cur_batch :: "reader \<times> 'srv runtime \<Rightarrow> record_batch option" where
  "cur_batch s = map_option snd (rd_cur (fst s))"

definition left :: "'srv libs \<Rightarrow> reader \<times> 'srv runtime \<Rightarrow> record_batch list" where
  "left L s = remaining L (fst s)"

definition reader_err :: "reader \<times> 'srv runtime \<Rightarrow> go_error option" where
  "reader_err s = rd_err (fst s)"

definition last_error :: "'srv libs \<Rightarrow> reader \<times> 'srv runtime \<Rightarrow> go_error option" where
  "last_error L s = final_error L (fst s)"

interpretation rr: failing_reader "reader_next L" cur_batch "left L" reader_err "last_error L"
  for L :: "'srv libs"
proof
  fix s s' :: "reader \<times> 'srv runtime" and ok
  show "reader_next L s = (True, s') \<Longrightarrow> \<exists>x. cur_batch s' = Some x \<and> left L s = x # left L s'"
    by (drule reader_next_ok) (auto simp: next_ok_def cur_batch_def left_def)
  show "reader_next L s = (False, s') \<Longrightarrow> left L s = [] \<and> left L s' = []"
    by (drule reader_next_ok) (simp add: next_ok_def left_def)
  show "reader_next L s = (ok, s') \<Longrightarrow> last_error L s' = last_error L s"
    by (drule reader_next_ok) (simp add: next_ok_def last_error_def)
  show "reader_next L s = (False, s') \<Longrightarrow> reader_err s' = last_error L s"
    by (drule reader_next_ok) (simp add: next_ok_def last_error_def reader_err_def)
qed

text \<open>What a loop over a reader keeps of it and of the runtime.\<close>

definition same_hold :: "reader \<times> 'srv runtime \<Rightarrow> reader \<times> 'srv runtime \<Rightarrow> bool" where
  "same_hold s s' \<longleftrightarrow> others s' = others s \<and> rd_refs (fst s') = rd_refs (fst s) \<and>
     rd_cancel (fst s') = rd_cancel (fst s) \<and> rt_streams (snd s') = rt_streams (snd s) \<and>
     rt_sent (snd s') = rt_sent (snd s) \<and> rt_heap (snd s') = rt_heap (snd s) \<and>
     rt_server (snd s') = rt_server (snd s) \<and> rt_uuids (snd s') = rt_uuids (snd s) \<and>
     length (rt_clients (snd s')) = length (rt_clients (snd s))"

lemma same_hold_refl [simp]: "same_hold s s"
  by (simp add: same_hold_def)

lemma same_hold_next: "reader_next L s = (ok, s') \<Longrightarrow> same_hold t s \<Longrightarrow> same_hold t s'"
  by (drule reader_next_ok) (simp add: next_ok_def same_hold_def)

lemma loop_same_hold:
  "for_next (reader_next L) body s acc = Some (res, s') \<Longrightarrow> same_hold s s'"
  by (rule rr.loop_keeps [where P = "same_hold s"]) (auto intro: same_hold_next)

lemma drain_same_hold: "drain (reader_next L) s = Some s' \<Longrightarrow> same_hold s s'"
  by (rule rr.drain_keeps [where P = "same_hold s"]) (auto intro: same_hold_next)

section \<open>The end of the stream\<close>

lemma next_loop_end:
  "rd_err (fst s) = None \<Longrightarrow> next_loop L s = (False, s') \<Longrightarrow>
     rd_err (fst s') \<noteq> None \<or> rd_done (fst s') \<and> length (rd_buf (fst s')) \<le> rd_pos (fst s')"
proof (induction L s rule: next_loop.induct)
  case (1 L s)
  show ?case
  proof (cases "rd_pos (fst s) < length (rd_buf (fst s)) \<or> rd_done (fst s)")
    case True
    then show ?thesis using 1(3) by (subst (asm) next_loop.simps) (auto simp: Let_def split: if_splits)
  next
    case False
    then show ?thesis using 1(1) [OF refl _ _ refl] 1(3)
      by (subst (asm) next_loop.simps) (auto simp: Let_def split: if_splits)
  qed
qed

lemma reader_next_end:
  assumes "reader_next L s = (False, s')"
  shows "reader_next L s' = (False, s')"
proof -
  have cur: "rd_cur (fst s') = None" using reader_next_ok [OF assms] by (simp add: next_ok_def)
  then have rel: "release_cur s' = s'" by (simp add: release_cur_def)
  have "rd_err (fst s') \<noteq> None \<or> rd_done (fst s') \<and> length (rd_buf (fst s')) \<le> rd_pos (fst s')"
    using assms next_loop_end [of "release_cur s" L s']
    by (auto simp: reader_next_def Let_def split: if_splits)
  then show ?thesis
    by (auto simp: reader_next_def Let_def rel next_loop.simps [of L s'])
qed

lemma new_result_reader_fails:
  "fst (new_result_reader L c stream w) = Inl e \<longleftrightarrow> delivered L stream = ([], Some e)"
proof -
  let ?r = "fst (fill_from L stream (init_reader c stream) w)"
  have f: "filled L stream ?r" by (rule fill_from_filled) (simp_all add: init_reader_def)
  have "fst (new_result_reader L c stream w) = Inl e \<longleftrightarrow> rd_err ?r = Some e"
    by (simp add: new_result_reader_def fill_def Let_def init_reader_def split: option.split)
  also have "\<dots> \<longleftrightarrow> delivered L stream = ([], Some e)"
    using f by (auto simp: filled_def split: if_splits)
  finally show ?thesis .
qed

section \<open>Properties\<close>

text \<open>A consumer that keeps every record.\<close>

definition read_all ::
  "'srv libs \<Rightarrow> reader \<times> 'srv runtime \<Rightarrow> ((unit + record_batch list) \<times> (reader \<times> 'srv runtime)) option"
  where
  "read_all L s = for_next (reader_next L) (\<lambda>s out. Inr (out @ [the (cur_batch s)])) s []"

text \<open>\<open>n\<close> calls of \<^verbatim>\<open>Next\<close>, whatever they return.\<close>

definition next_times :: "'srv libs \<Rightarrow> nat \<Rightarrow> reader \<times> 'srv runtime \<Rightarrow> reader \<times> 'srv runtime" where
  "next_times L n = ((\<lambda>s. snd (reader_next L s)) ^^ n)"

text \<open>C1: reading a result to its end terminates and gives the records of all Arrow batches of the
  stream, in order, each once, up to the first message that is an error or does not decode;
  \<^verbatim>\<open>Err\<close> is then that error, or nil when the stream ended. The lazy buffering, the empty batches
  and the messages without data do not show.\<close>

theorem reader_delivers_stream:
  assumes "new_result_reader L c stream w = (Inr r, w')"
  shows "\<exists>s. read_all L (r, w') = Some (Inr (fst (delivered L stream)), s) \<and>
    reader_err s = snd (delivered L stream)"
proof -
  let ?b = "\<lambda>s out. (Inr (out @ [the (cur_batch s)]) :: unit + record_batch list)"
  have r: "left L (r, w') = fst (delivered L stream)" "last_error L (r, w') = snd (delivered L stream)"
    using new_result_reader_cases(1) [OF assms] by (simp_all add: left_def last_error_def)
  obtain s where s: "read_all L (r, w') =
      Some (fold_res (\<lambda>x out. Inr (out @ [x])) (left L (r, w')) [], s)"
    using rr.loop_fold [of ?b "\<lambda>x out. Inr (out @ [x])" L "(r, w')" "[]"] by (auto simp: read_all_def)
  have "fold (\<lambda>x out. out @ [x]) xs acc = acc @ xs" for xs acc :: "record_batch list"
    by (induction xs arbitrary: acc) simp_all
  then have "fold_res (\<lambda>x out. (Inr (out @ [x]) :: unit + record_batch list)) (left L (r, w')) [] =
      Inr (fst (delivered L stream))" by (simp add: fold_res_total r(1))
  with s have all: "read_all L (r, w') = Some (Inr (fst (delivered L stream)), s)" by simp
  then have "reader_err s = snd (delivered L stream)"
    using rr.loop_error [of L ?b "(r, w')" "[]" _ s] by (simp add: read_all_def r(2))
  with all show ?thesis by blast
qed

lemma sample_delivered:
  "delivered sample_libs sample_stream = ([sample_batch ''ab'', sample_batch ''cd''], None)"
  by (simp add: sample_defs read_failed_def)

lemma sample_reader:
  "\<exists>r w'. new_result_reader sample_libs 0 sample_stream sample_runtime = (Inr r, w')"
proof -
  have "fst (new_result_reader sample_libs 0 sample_stream sample_runtime) \<noteq> Inl e" for e
    by (simp add: new_result_reader_fails sample_delivered)
  then show ?thesis
    by (cases "new_result_reader sample_libs 0 sample_stream sample_runtime"; cases "fst
      (new_result_reader sample_libs 0 sample_stream sample_runtime)") auto
qed

theorem reader_delivers_stream_witness:
  "\<exists>r w' s. new_result_reader sample_libs 0 sample_stream sample_runtime = (Inr r, w') \<and>
     read_all sample_libs (r, w') = Some (Inr [sample_batch ''ab'', sample_batch ''cd''], s)"
  using sample_reader reader_delivers_stream [of sample_libs 0 sample_stream sample_runtime]
  by (auto simp: sample_delivered)

text \<open>C10: nothing leaks. After any number of calls of \<^verbatim>\<open>Next\<close> - none, some, past the end, past an
  error - the last \<^verbatim>\<open>Release\<close> leaves every record's reference count where it was before the
  reader was made, holds no record, and has cancelled the stream once.\<close>

theorem reader_release_returns_everything:
  assumes "new_result_reader L c stream w = (Inr r, w')"
  shows "rt_refs (snd (reader_release (next_times L n (r, w')))) = rt_refs w \<and>
    rt_streams (snd (reader_release (next_times L n (r, w')))) = rt_streams w - 1 \<and>
    held (fst (reader_release (next_times L n (r, w')))) = []"
proof -
  have "same_hold (r, w') (next_times L n (r, w'))"
    by (induction n) (auto simp: next_times_def intro: same_hold_next prod.collapse [symmetric])
  then show ?thesis
    using reader_release_last [of "next_times L n (r, w')"] new_result_reader_cases(1) [OF assms]
    by (simp add: same_hold_def)
qed

theorem reader_release_returns_everything_witness:
  "\<exists>r w'. new_result_reader sample_libs 0 sample_stream sample_runtime = (Inr r, w') \<and>
     rt_refs (snd (reader_release (next_times sample_libs 1 (r, w')))) = (\<lambda>i. 0)"
proof -
  obtain r w' where r: "new_result_reader sample_libs 0 sample_stream sample_runtime = (Inr r, w')"
    using sample_reader by blast
  then show ?thesis
    using reader_release_returns_everything [OF r, of 1] by (simp add: sample_runtime_def)
qed

text \<open>C25: making the reader fails exactly when the stream's first word is an error - nothing can be
  delivered before it - with that error; it then holds nothing and has cancelled the stream.\<close>

theorem reader_construction_error:
  "fst (new_result_reader L c stream w) = Inl e \<longleftrightarrow> delivered L stream = ([], Some e)"
  by (rule new_result_reader_fails)

text \<open>After the last record \<^verbatim>\<open>Next\<close> keeps returning false and changes nothing: no further
  message is received and nothing is released a second time.\<close>

theorem reader_stays_at_end:
  assumes "reader_next L s = (False, s')"
  shows "reader_next L s' = (False, s')"
  using assms by (rule reader_next_end)

theorem reader_stays_at_end_witness:
  "reader_next sample_libs ((init_reader 0 [])\<lparr>rd_done := True\<rparr>, sample_runtime) =
     (False, ((init_reader 0 [])\<lparr>rd_done := True\<rparr>, sample_runtime))"
proof (rule reader_stays_at_end)
  show "reader_next sample_libs (init_reader 0 [], sample_runtime) =
     (False, ((init_reader 0 [])\<lparr>rd_done := True\<rparr>, sample_runtime))"
    by (simp add: reader_next_def init_reader_def release_cur_def next_loop.simps fill_def)
qed

end
