(* ===== verification/Spark_Client.thy ===== *)
theory Spark_Client
  imports Result_Reader
begin

text \<open>
  \<^verbatim>\<open>internal/sparkconnect/client.go\<close>: \<^verbatim>\<open>Dial\<close> and the methods of \<^verbatim>\<open>Client\<close> that talk to the
  service, and \<^verbatim>\<open>Open\<close> of \<^verbatim>\<open>database.go\<close>, which makes a client. Every call that reaches the
  service leaves its metadata and request in \<open>rt_sent\<close>.
\<close>

section \<open>Dial\<close>

definition new_uuid :: "'srv libs \<Rightarrow> 'srv runtime \<Rightarrow> string \<times> 'srv runtime" where
  "new_uuid L w = (lib_uuid L (rt_uuids w), w\<lparr>rt_uuids := rt_uuids w + 1\<rparr>)"

definition dial :: "'srv libs \<Rightarrow> nat \<Rightarrow> 'srv runtime \<Rightarrow> (go_error + nat) \<times> 'srv runtime" where
  "dial L cref w =
    (let cfg = the (hp_cfgs (rt_heap w) cref) in
     case lib_dial L (endpoint cfg) (cfg_use_tls cfg) of
       Some e \<Rightarrow> (Inl (Plain (Text (''spark connect: dial '' @ endpoint cfg @ '': '' @ e))), w)
     | None \<Rightarrow>
         (case (if cfg_session_id cfg = [] then new_uuid L w else (cfg_session_id cfg, w)) of
            (sid, w1) \<Rightarrow>
              (Inr (length (rt_clients w1)),
               w1\<lparr>rt_clients := rt_clients w1 @
                 [\<lparr>cl_cfg = cref, cl_session = sid, cl_server_session = [], cl_closed = False\<rparr>]\<rparr>)))"

section \<open>executePlan and ExecuteSQL\<close>

definition execute_plan ::
  "'srv libs \<Rightarrow> nat \<Rightarrow> metadata \<Rightarrow> plan \<Rightarrow> 'srv runtime \<Rightarrow> (go_error + reader) \<times> 'srv runtime" where
  "execute_plan L c ctx plan w =
    (case new_uuid L w of (op, w1) \<Rightarrow>
      (let cfg = the_config c w1;
           req = \<lparr>xp_session = session_id c w1, xp_user = user_context cfg, xp_plan = plan,
                  xp_client_type = client_type cfg, xp_operation = Some op\<rparr>;
           md = outgoing_context L cfg ctx;
           w2 = log_request md (ExecutePlanReq req) (w1\<lparr>rt_streams := rt_streams w1 + 1\<rparr>)
       in case svc_execute_plan L md req (rt_server w2) of
            (Inl e, srv) \<Rightarrow>
              (Inl (wrap_grpc e), w2\<lparr>rt_server := srv, rt_streams := rt_streams w2 - 1\<rparr>)
          | (Inr stream, srv) \<Rightarrow> new_result_reader L c stream (w2\<lparr>rt_server := srv\<rparr>)))"

definition sql_plan :: "string \<Rightarrow> literal list \<Rightarrow> plan" where
  "sql_plan query args = PlanRoot (RelSql \<lparr>sql_query = query, sql_pos_args = args\<rparr>)"

definition execute_sql ::
  "'srv libs \<Rightarrow> nat \<Rightarrow> metadata \<Rightarrow> string \<Rightarrow> literal list \<Rightarrow> 'srv runtime \<Rightarrow>
     (go_error + reader) \<times> 'srv runtime" where
  "execute_sql L c ctx query args w = execute_plan L c ctx (sql_plan query args) w"

section \<open>SchemaOf\<close>

definition reader_schema :: "reader \<Rightarrow> schema" where
  "reader_schema r = the (rd_schema r)"

definition schema_query :: "string \<Rightarrow> string" where
  "schema_query query = ''SELECT * FROM ('' @ query @ '') LIMIT 0''"

definition schema_of ::
  "'srv libs \<Rightarrow> nat \<Rightarrow> metadata \<Rightarrow> string \<Rightarrow> 'srv runtime \<Rightarrow>
     ((go_error + schema) \<times> 'srv runtime) option" where
  "schema_of L c ctx query w = (case execute_sql L c ctx (schema_query query) [] w of
     (Inl e, w') \<Rightarrow> Some (Inl e, w')
   | (Inr r, w') \<Rightarrow>
       (case drain (reader_next L) (r, w') of
          None \<Rightarrow> None
        | Some s \<Rightarrow> Some (case reader_err s of
              Some e \<Rightarrow> Inl e
            | None \<Rightarrow> Inr (reader_schema r), snd (reader_release s))))"

section \<open>SetConf and GetConf\<close>

definition config_call ::
  "'srv libs \<Rightarrow> nat \<Rightarrow> metadata \<Rightarrow> config_op \<Rightarrow> 'srv runtime \<Rightarrow>
     (go_error + config_response) \<times> 'srv runtime" where
  "config_call L c ctx op w =
    (let cfg = the_config c w;
         req = \<lparr>cr_session = session_id c w, cr_user = user_context cfg,
                cr_client_type = client_type cfg, cr_operation = op\<rparr>;
         md = outgoing_context L cfg ctx;
         w1 = log_request md (ConfigReq req) w
     in case svc_config L md req (rt_server w1) of
          (Inl e, srv) \<Rightarrow> (Inl (wrap_grpc e), w1\<lparr>rt_server := srv\<rparr>)
        | (Inr resp, srv) \<Rightarrow>
            (Inr resp, remember_server_session c (cp_server_session resp) (w1\<lparr>rt_server := srv\<rparr>)))"

definition set_conf ::
  "'srv libs \<Rightarrow> nat \<Rightarrow> metadata \<Rightarrow> string \<Rightarrow> string \<Rightarrow> 'srv runtime \<Rightarrow>
     go_error option \<times> 'srv runtime" where
  "set_conf L c ctx key value w =
    (case config_call L c ctx (OpSet [(key, Some value)]) w of
       (Inl e, w') \<Rightarrow> (Some e, w')
     | (Inr resp, w') \<Rightarrow> (None, w'))"

text \<open>The loop over the returned pairs; \<^verbatim>\<open>GetValue\<close> of an absent value is the empty string.\<close>

fun find_pair :: "string \<Rightarrow> (string \<times> string option) list \<Rightarrow> string \<times> bool" where
  "find_pair key [] = ([], False)"
| "find_pair key (p # ps) =
    (if fst p = key then (case snd p of Some v \<Rightarrow> v | None \<Rightarrow> [], True) else find_pair key ps)"

definition get_conf ::
  "'srv libs \<Rightarrow> nat \<Rightarrow> metadata \<Rightarrow> string \<Rightarrow> 'srv runtime \<Rightarrow>
     (go_error + string \<times> bool) \<times> 'srv runtime" where
  "get_conf L c ctx key w =
    (case config_call L c ctx (OpGet [key]) w of
       (Inl e, w') \<Rightarrow> (Inl e, w')
     | (Inr resp, w') \<Rightarrow> (Inr (find_pair key (cp_pairs resp)), w'))"

section \<open>ServerSparkVersion, Interrupt, Close\<close>

definition session_req :: "nat \<Rightarrow> 'srv runtime \<Rightarrow> session_request" where
  "session_req c w = \<lparr>sr_session = session_id c w, sr_user = user_context (the_config c w),
     sr_client_type = client_type (the_config c w)\<rparr>"

definition server_spark_version ::
  "'srv libs \<Rightarrow> nat \<Rightarrow> metadata \<Rightarrow> 'srv runtime \<Rightarrow> (go_error + string) \<times> 'srv runtime" where
  "server_spark_version L c ctx w =
    (let req = session_req c w;
         md = outgoing_context L (the_config c w) ctx;
         w1 = log_request md (SparkVersionReq req) w
     in case svc_analyze L md req (rt_server w1) of
          (Inl e, srv) \<Rightarrow> (Inl (wrap_grpc e), w1\<lparr>rt_server := srv\<rparr>)
        | (Inr resp, srv) \<Rightarrow>
            (Inr (case ar_spark_version resp of Some v \<Rightarrow> v | None \<Rightarrow> []),
             remember_server_session c (ar_server_session resp) (w1\<lparr>rt_server := srv\<rparr>)))"

definition interrupt ::
  "'srv libs \<Rightarrow> nat \<Rightarrow> metadata \<Rightarrow> 'srv runtime \<Rightarrow> go_error option \<times> 'srv runtime" where
  "interrupt L c ctx w =
    (let req = session_req c w;
         md = outgoing_context L (the_config c w) ctx;
         w1 = log_request md (InterruptReq InterruptAll req) w
     in case svc_interrupt L md req (rt_server w1) of
          (err, srv) \<Rightarrow> (map_option wrap_grpc err, w1\<lparr>rt_server := srv\<rparr>))"

definition client_close ::
  "'srv libs \<Rightarrow> nat \<Rightarrow> 'srv runtime \<Rightarrow> string option \<times> 'srv runtime" where
  "client_close L c w =
    (if cl_closed (the_client c w) then (None, w)
     else (let w1 = upd_client c (\<lambda>cl. cl\<lparr>cl_closed := True\<rparr>) w;
               req = session_req c w1;
               md = outgoing_context L (the_config c w1) [];
               w2 = log_request md (ReleaseSessionReq req) w1;
               (ignored, srv) = svc_release L md req (rt_server w2);
               (err, srv') = svc_close L srv
           in (err, w2\<lparr>rt_server := srv'\<rparr>)))"

section \<open>Open\<close>

definition database_open ::
  "'srv libs \<Rightarrow> database \<Rightarrow> 'srv runtime \<Rightarrow> (go_error + nat) \<times> 'srv runtime" where
  "database_open L d w = (case db_cfg d of
     None \<Rightarrow> (Inl (fail StatusInvalidState
       ''spark: database is not configured; set the \"uri\" option first''), w)
   | Some cref \<Rightarrow>
       (case dial L cref w of
          (Inl e, w') \<Rightarrow> (Inl (case e of
              Plain m \<Rightarrow> Adbc (adbc_err m StatusIO)
            | Adbc a \<Rightarrow> Adbc (adbc_err (err_msg a) StatusIO)), w')
        | (Inr c, w') \<Rightarrow> (Inr c, w')))"

section \<open>What is sent\<close>

text \<open>The request of an execution, and what the service answers to it.\<close>

definition plan_request :: "'srv libs \<Rightarrow> nat \<Rightarrow> plan \<Rightarrow> 'srv runtime \<Rightarrow> execute_plan_request" where
  "plan_request L c plan w =
    \<lparr>xp_session = cl_session (the_client c w), xp_user = user_context (the_config c w),
     xp_plan = plan, xp_client_type = client_type (the_config c w),
     xp_operation = Some (lib_uuid L (rt_uuids w))\<rparr>"

definition plan_answer ::
  "'srv libs \<Rightarrow> nat \<Rightarrow> metadata \<Rightarrow> plan \<Rightarrow> 'srv runtime \<Rightarrow> (grpc_error + recv_event list) \<times> 'srv" where
  "plan_answer L c ctx plan w =
    svc_execute_plan L (outgoing_context L (the_config c w) ctx) (plan_request L c plan w) (rt_server w)"

definition plan_world ::
  "'srv libs \<Rightarrow> nat \<Rightarrow> metadata \<Rightarrow> plan \<Rightarrow> 'srv runtime \<Rightarrow> 'srv runtime" where
  "plan_world L c ctx plan w = w\<lparr>rt_uuids := Suc (rt_uuids w),
     rt_sent := rt_sent w @
       [(outgoing_context L (the_config c w) ctx, ExecutePlanReq (plan_request L c plan w))],
     rt_server := snd (plan_answer L c ctx plan w)\<rparr>"

lemma execute_plan_eq:
  "execute_plan L c ctx plan w = (case fst (plan_answer L c ctx plan w) of
     Inl e \<Rightarrow> (Inl (wrap_grpc e), plan_world L c ctx plan w)
   | Inr stream \<Rightarrow> new_result_reader L c stream
       ((plan_world L c ctx plan w)\<lparr>rt_streams := rt_streams w + 1\<rparr>))"
  by (cases w) (simp add: execute_plan_def new_uuid_def log_request_def plan_request_def
      plan_answer_def plan_world_def the_config_def the_client_def session_id_def Let_def
      case_prod_beta split: sum.split)

lemma plan_world_frame [simp]:
  "rt_refs (plan_world L c ctx plan w) = rt_refs w"
  "rt_streams (plan_world L c ctx plan w) = rt_streams w"
  "rt_heap (plan_world L c ctx plan w) = rt_heap w"
  "rt_clients (plan_world L c ctx plan w) = rt_clients w"
  "rt_uuids (plan_world L c ctx plan w) = Suc (rt_uuids w)"
  "rt_server (plan_world L c ctx plan w) = snd (plan_answer L c ctx plan w)"
  by (simp_all add: plan_world_def)

text \<open>An execution fails and holds nothing, or its reader holds one stream and the references of
  its records.\<close>

definition reads :: "'srv libs \<Rightarrow> recv_event list \<Rightarrow> reader \<Rightarrow> bool" where
  "reads L stream r \<longleftrightarrow>
     remaining L r = fst (delivered L stream) \<and> final_error L r = snd (delivered L stream) \<and>
     rd_schema r = Some (case first_schema L stream of Some sc \<Rightarrow> sc | None \<Rightarrow> [])"

definition executed ::
  "'srv libs \<Rightarrow> nat \<Rightarrow> metadata \<Rightarrow> plan \<Rightarrow> 'srv runtime \<Rightarrow> (go_error + reader) \<Rightarrow> 'srv runtime \<Rightarrow> bool"
  where
  "executed L c ctx plan w res w' \<longleftrightarrow> (case res of
      Inl e \<Rightarrow> rt_refs w' = rt_refs w \<and> rt_streams w' = rt_streams w \<and>
        (case fst (plan_answer L c ctx plan w) of
           Inl g \<Rightarrow> e = wrap_grpc g
         | Inr stream \<Rightarrow> delivered L stream = ([], Some e))
    | Inr r \<Rightarrow> (\<exists>stream. fst (plan_answer L c ctx plan w) = Inr stream \<and> reads L stream r) \<and>
        others (r, w') = rt_refs w \<and> rd_refs r = 1 \<and> rd_cancel r \<and> rt_streams w' = rt_streams w + 1)"

lemma execute_plan_ok:
  assumes "execute_plan L c ctx plan w = (res, w')"
  shows "executed L c ctx plan w res w'"
    and "rt_sent w' = rt_sent (plan_world L c ctx plan w)"
    and "rt_server w' = snd (plan_answer L c ctx plan w)" "rt_heap w' = rt_heap w"
    and "rt_uuids w' = Suc (rt_uuids w)" "length (rt_clients w') = length (rt_clients w)"
proof -
  consider e where "fst (plan_answer L c ctx plan w) = Inl e" "res = Inl (wrap_grpc e)"
      "w' = plan_world L c ctx plan w"
    | stream where "fst (plan_answer L c ctx plan w) = Inr stream"
      "new_result_reader L c stream ((plan_world L c ctx plan w)\<lparr>rt_streams := rt_streams w + 1\<rparr>)
        = (res, w')"
    using assms [unfolded execute_plan_eq] by (cases "fst (plan_answer L c ctx plan w)") auto
  then have "executed L c ctx plan w res w' \<and>
      rt_sent w' = rt_sent (plan_world L c ctx plan w) \<and>
      rt_server w' = snd (plan_answer L c ctx plan w) \<and> rt_heap w' = rt_heap w \<and>
      rt_uuids w' = Suc (rt_uuids w) \<and> length (rt_clients w') = length (rt_clients w)"
  proof cases
    case 2
    then show ?thesis
      using new_result_reader_cases [OF 2(2)] by (cases res) (simp_all add: executed_def reads_def)
  qed (simp add: executed_def)
  then show "executed L c ctx plan w res w'"
    and "rt_sent w' = rt_sent (plan_world L c ctx plan w)"
    and "rt_server w' = snd (plan_answer L c ctx plan w)" "rt_heap w' = rt_heap w"
    and "rt_uuids w' = Suc (rt_uuids w)" "length (rt_clients w') = length (rt_clients w)"
    by simp_all
qed

text \<open>After a loop over the reader and its release nothing is held any more.\<close>

lemma same_hold_released:
  assumes "executed L c ctx plan w (Inr r) w'" "same_hold (r, w') s"
  shows "rt_refs (snd (reader_release s)) = rt_refs w"
    "rt_streams (snd (reader_release s)) = rt_streams w"
    "rt_sent (snd (reader_release s)) = rt_sent w'"
    "rt_heap (snd (reader_release s)) = rt_heap w'"
    "rt_server (snd (reader_release s)) = rt_server w'"
    "rt_uuids (snd (reader_release s)) = rt_uuids w'"
    "length (rt_clients (snd (reader_release s))) = length (rt_clients w')"
  using assms reader_release_last [of s] by (simp_all add: executed_def same_hold_def)

text \<open>\<^verbatim>\<open>SchemaOf\<close> is a function of what the service answers.\<close>

definition schema_answer :: "'srv libs \<Rightarrow> grpc_error + recv_event list \<Rightarrow> go_error + schema" where
  "schema_answer L ans = (case ans of
     Inl g \<Rightarrow> Inl (wrap_grpc g)
   | Inr stream \<Rightarrow> (case snd (delivered L stream) of
        Some e \<Rightarrow> Inl e
      | None \<Rightarrow> Inr (case first_schema L stream of Some sc \<Rightarrow> sc | None \<Rightarrow> [])))"

text \<open>Two states with the same references, streams, configurations, number of clients.\<close>

definition same_runtime :: "'srv runtime \<Rightarrow> 'srv runtime \<Rightarrow> bool" where
  "same_runtime w w' \<longleftrightarrow> rt_refs w' = rt_refs w \<and> rt_streams w' = rt_streams w \<and>
     rt_heap w' = rt_heap w \<and> length (rt_clients w') = length (rt_clients w)"

lemma same_runtime_refl [simp]: "same_runtime w w"
  by (simp add: same_runtime_def)

lemma same_runtime_trans: "same_runtime u v \<Longrightarrow> same_runtime v w \<Longrightarrow> same_runtime u w"
  by (simp add: same_runtime_def)

definition answer_of :: "'srv libs \<Rightarrow> nat \<Rightarrow> metadata \<Rightarrow> string \<Rightarrow> literal list \<Rightarrow> 'srv runtime \<Rightarrow>
    grpc_error + recv_event list" where
  "answer_of L c ctx query args w = fst (plan_answer L c ctx (sql_plan query args) w)"

lemma schema_of_spec:
  "\<exists>w'. schema_of L c ctx query w =
       Some (schema_answer L (answer_of L c ctx (schema_query query) [] w), w') \<and>
     same_runtime w w' \<and>
     rt_sent w' = rt_sent (plan_world L c ctx (sql_plan (schema_query query) []) w)"
proof -
  let ?plan = "sql_plan (schema_query query) []"
  obtain res w1 where x: "execute_plan L c ctx ?plan w = (res, w1)" by fastforce
  note ok = execute_plan_ok [OF x]
  show ?thesis
  proof (cases res)
    case (Inl e)
    then show ?thesis using x ok
      by (auto simp: schema_of_def execute_sql_def executed_def schema_answer_def answer_of_def
          same_runtime_def split: sum.splits)
  next
    case (Inr r)
    have ex: "executed L c ctx ?plan w (Inr r) w1" using ok(1) Inr by simp
    then obtain stream where st: "fst (plan_answer L c ctx ?plan w) = Inr stream" "reads L stream r"
      by (auto simp: executed_def)
    obtain s where s: "drain (reader_next L) (r, w1) = Some s" using rr.drain_total by blast
    have hold: "same_hold (r, w1) s" using drain_same_hold [OF s] .
    have "reader_err s = snd (delivered L stream)"
      using rr.drain_error [OF s] st(2) by (simp add: last_error_def reads_def)
    moreover have "reader_schema r = (case first_schema L stream of Some sc \<Rightarrow> sc | None \<Rightarrow> [])"
      using st(2) by (simp add: reader_schema_def reads_def)
    ultimately have "schema_of L c ctx query w =
        Some (schema_answer L (Inr stream), snd (reader_release s))"
      using x Inr s by (simp add: schema_of_def execute_sql_def schema_answer_def split: option.split)
    moreover have "same_runtime w (snd (reader_release s))"
      "rt_sent (snd (reader_release s)) = rt_sent (plan_world L c ctx ?plan w)"
      using same_hold_released [OF ex hold] ok by (simp_all add: same_runtime_def)
    ultimately show ?thesis using st(1) by (simp add: answer_of_def)
  qed
qed

section \<open>Closing and identity\<close>

lemma client_close_closes:
  assumes "c < length (rt_clients w)"
  shows "cl_closed (the_client c (snd (client_close L c w)))"
  using assms by (auto simp: client_close_def Let_def the_client_upd log_request_def the_client_def
      case_prod_beta upd_client_def)

lemma client_close_twice:
  assumes "c < length (rt_clients w)"
  shows "client_close L c (snd (client_close L c w)) = (None, snd (client_close L c w))"
  using client_close_closes [OF assms, of L] by (simp add: client_close_def)

lemma client_close_sent:
  assumes "c < length (rt_clients w)"
  shows "rt_sent (snd (client_close L c w)) = rt_sent w @
    (if cl_closed (the_client c w) then []
     else [(outgoing_context L (the_config c w) [], ReleaseSessionReq (session_req c w))])"
  using assms by (auto simp: client_close_def Let_def log_request_def the_client_upd session_req_def
      session_id_def the_config_def case_prod_beta)

section \<open>Properties\<close>

text \<open>C15: \<^verbatim>\<open>ExecuteSQL\<close> sends one request and either fails, with the error of the call or of the
  stream's first word, holding nothing, or gives a reader of exactly the stream the service
  answered with, which holds that one stream and one reference to each of its buffered records.\<close>

theorem execute_sql_outcome:
  "executed L c ctx (sql_plan query args) w (fst (execute_sql L c ctx query args w))
     (snd (execute_sql L c ctx query args w)) \<and>
   rt_sent (snd (execute_sql L c ctx query args w)) =
     rt_sent w @ [(outgoing_context L (the_config c w) ctx,
                   ExecutePlanReq (plan_request L c (sql_plan query args) w))]"
  using execute_plan_ok(1,2) [OF surjective_pairing, of L c ctx "sql_plan query args" w]
  by (simp add: execute_sql_def plan_world_def)

text \<open>C21: \<^verbatim>\<open>SchemaOf\<close> always returns. Its result is a function of the service's answer: the error
  of the call, else the error that ends the stream - which it drains first - else the schema of
  the first batch; and it has released everything it held.\<close>

theorem schema_of_returns:
  "\<exists>w'. schema_of L c ctx query w =
       Some (schema_answer L (answer_of L c ctx (schema_query query) [] w), w') \<and>
     same_runtime w w' \<and>
     rt_sent w' = rt_sent w @ [(outgoing_context L (the_config c w) ctx,
       ExecutePlanReq (plan_request L c (sql_plan (schema_query query) []) w))]"
  using schema_of_spec [of L c ctx query w] by (simp add: plan_world_def)

text \<open>What one call sends: one request, in the client's session, under the configured user, with
  the metadata of the configuration.\<close>

definition sends_one :: "'srv libs \<Rightarrow> nat \<Rightarrow> metadata \<Rightarrow> 'srv runtime \<Rightarrow> 'srv runtime \<Rightarrow> bool" where
  "sends_one L c ctx w w' \<longleftrightarrow> (\<exists>q. rt_sent w' = rt_sent w @ [(outgoing_context L (the_config c w) ctx, q)] \<and>
     request_session q = cl_session (the_client c w) \<and>
     request_user q = user_context (the_config c w))"

lemma config_call_sends: "sends_one L c ctx w (snd (config_call L c ctx op w))"
  by (simp add: sends_one_def config_call_def log_request_def session_id_def Let_def case_prod_beta
      split: sum.split)

text \<open>C23: every call of the client reaches the service as exactly one request, whether it succeeds
  or fails, and every request carries the session id of the client, the configured user and the
  authentication and header metadata.\<close>

theorem every_call_identifies_itself:
  "sends_one L c ctx w (snd (execute_sql L c ctx query args w)) \<and>
   sends_one L c ctx w (snd (set_conf L c ctx key value w)) \<and>
   sends_one L c ctx w (snd (get_conf L c ctx key w)) \<and>
   sends_one L c ctx w (snd (server_spark_version L c ctx w)) \<and>
   sends_one L c ctx w (snd (interrupt L c ctx w))"
proof (intro conjI)
  show "sends_one L c ctx w (snd (execute_sql L c ctx query args w))"
    using execute_plan_ok(2) [OF surjective_pairing, of L c ctx "sql_plan query args" w]
    by (auto simp: sends_one_def execute_sql_def plan_world_def plan_request_def)
  show "sends_one L c ctx w (snd (set_conf L c ctx key value w))"
    using config_call_sends [of L c ctx w "OpSet [(key, Some value)]"]
    by (simp add: set_conf_def case_prod_beta split: sum.split)
  show "sends_one L c ctx w (snd (get_conf L c ctx key w))"
    using config_call_sends [of L c ctx w "OpGet [key]"]
    by (simp add: get_conf_def case_prod_beta split: sum.split)
  show "sends_one L c ctx w (snd (server_spark_version L c ctx w))"
    by (simp add: sends_one_def server_spark_version_def log_request_def session_req_def
        session_id_def Let_def case_prod_beta split: sum.split)
  show "sends_one L c ctx w (snd (interrupt L c ctx w))"
    by (simp add: sends_one_def interrupt_def log_request_def session_req_def session_id_def Let_def
        case_prod_beta)
qed

text \<open>C22: \<^verbatim>\<open>Close\<close> releases the server's session once. The first call sends one release request
  for the client's session; every later call returns nil and does nothing at all.\<close>

theorem client_close_once:
  assumes "c < length (rt_clients w)" "\<not> cl_closed (the_client c w)"
  shows "rt_sent (snd (client_close L c w)) =
      rt_sent w @ [(outgoing_context L (the_config c w) [], ReleaseSessionReq (session_req c w))] \<and>
    client_close L c (snd (client_close L c w)) = (None, snd (client_close L c w))"
  using client_close_sent [OF assms(1)] client_close_twice [OF assms(1)] assms(2) by simp

theorem client_close_once_witness:
  "client_close sample_libs 0 (snd (client_close sample_libs 0 sample_runtime)) =
     (None, snd (client_close sample_libs 0 sample_runtime))"
  by (rule client_close_once [THEN conjunct2]) (simp_all add: sample_runtime_def the_client_def)

text \<open>C27: a configured token is sent as a bearer token with every request, unless one of the
  configured headers is itself the authorization header; no metadata key is sent twice.\<close>

theorem token_is_sent:
  assumes "cfg_token cfg \<noteq> []"
    and "lib_md_key L ''authorization'' \<notin> (lib_md_key L \<circ> fst) ` set (lib_header_order L (cfg_headers cfg))"
  shows "map_of (outgoing_context L cfg ctx) (lib_md_key L ''authorization'') =
      Some (''Bearer '' @ cfg_token cfg) \<and>
    distinct (map fst (outgoing_context L cfg ctx))"
proof -
  let ?auth = "md_set L ''authorization'' (''Bearer '' @ cfg_token cfg) []"
  let ?md = "foldl (\<lambda>md kv. md_set L (fst kv) (snd kv) md) ?auth (lib_header_order L (cfg_headers cfg))"
  have "map_of ?md (lib_md_key L ''authorization'') = Some (''Bearer '' @ cfg_token cfg)"
    using map_of_fold_md_set [OF assms(2), of ?auth] by (simp add: md_set_def)
  moreover from this have "?md \<noteq> []" by auto
  moreover have "distinct (map fst ?md)" by (rule distinct_fold_md_set) (simp add: md_set_def)
  ultimately show ?thesis using assms(1) by (simp add: outgoing_context_def Let_def)
qed

theorem token_is_sent_witness:
  "map_of (outgoing_context sample_libs (new_config\<lparr>cfg_token := ''t''\<rparr>) [])
     (lib_md_key sample_libs ''authorization'') = Some ''Bearer t''"
  using token_is_sent [of "new_config\<lparr>cfg_token := ''t''\<rparr>" sample_libs "[]"]
  by (simp add: sample_libs_def)

end
