(* ===== verification/Connection.thy ===== *)
theory Connection
  imports Spark_Client Sql_Names
begin

text \<open>
  \<^verbatim>\<open>driver/spark/connection.go\<close> and \<^verbatim>\<open>driver/spark/statement.go\<close>. A connection is an object that
  its statements point to, so closing it is seen by them; a statement has one owner and is passed
  and returned by value. \<open>None\<close> as the result of an operation is a run-time panic or a loop that
  does not end; that there is none is a theorem.
\<close>

section \<open>State\<close>

record connection =
  cn_client :: "nat option"

record 'srv world =
  wd_run :: "'srv runtime"
  wd_conns :: "connection list"

record statement =
  st_cnxn :: "nat option"
  st_query :: string
  st_params :: "batch_ref option"
  st_prepared :: bool

definition err_conn_closed :: go_error where
  "err_conn_closed = fail StatusInvalidState ''spark: connection is closed''"

definition err_closed :: go_error where
  "err_closed = fail StatusInvalidState ''spark: statement is closed''"

definition err_no_query :: go_error where
  "err_no_query = fail StatusInvalidState ''spark: no query has been set''"

definition conn_client :: "nat \<Rightarrow> 'srv world \<Rightarrow> nat option" where
  "conn_client k W = cn_client (wd_conns W ! k)"

section \<open>Connections\<close>

text \<open>\<^verbatim>\<open>Open\<close>, with the connection it returns.\<close>

definition open_connection ::
  "'srv libs \<Rightarrow> database \<Rightarrow> 'srv world \<Rightarrow> (go_error + nat) \<times> 'srv world" where
  "open_connection L d W = (case database_open L d (wd_run W) of
     (Inl e, w) \<Rightarrow> (Inl e, W\<lparr>wd_run := w\<rparr>)
   | (Inr c, w) \<Rightarrow> (Inr (length (wd_conns W)),
       W\<lparr>wd_run := w, wd_conns := wd_conns W @ [\<lparr>cn_client = Some c\<rparr>]\<rparr>))"

definition new_statement :: "nat \<Rightarrow> 'srv world \<Rightarrow> go_error + statement" where
  "new_statement k W = (case conn_client k W of
     None \<Rightarrow> Inl err_conn_closed
   | Some c \<Rightarrow> Inr \<lparr>st_cnxn = Some k, st_query = [], st_params = None, st_prepared = False\<rparr>)"

definition connection_close :: "'srv libs \<Rightarrow> nat \<Rightarrow> 'srv world \<Rightarrow> go_error option \<times> 'srv world" where
  "connection_close L k W = (case conn_client k W of
     None \<Rightarrow> (None, W)
   | Some c \<Rightarrow> (case client_close L c (wd_run W) of
       (err, w) \<Rightarrow>
         (map_option (\<lambda>e. Adbc (adbc_err (Text e) StatusIO)) err,
          W\<lparr>wd_run := w, wd_conns := (wd_conns W)[k := (wd_conns W ! k)\<lparr>cn_client := None\<rparr>]\<rparr>)))"

definition err_no_transactions :: go_error where
  "err_no_transactions = fail StatusNotImplemented
     ''spark: transactions are not supported; the driver operates in autocommit mode''"

definition commit :: "nat \<Rightarrow> go_error option" where
  "commit k = Some err_no_transactions"

definition rollback :: "nat \<Rightarrow> go_error option" where
  "rollback k = Some err_no_transactions"

definition read_partition :: "nat \<Rightarrow> string \<Rightarrow> go_error + reader" where
  "read_partition k part =
     Inl (fail StatusNotImplemented ''spark: partitioned result reads are not supported'')"

definition get_table_schema ::
  "'srv libs \<Rightarrow> nat \<Rightarrow> metadata \<Rightarrow> string option \<Rightarrow> string option \<Rightarrow> string \<Rightarrow> 'srv world \<Rightarrow>
     ((go_error + schema) \<times> 'srv world) option" where
  "get_table_schema L k ctx catalog db_schema table W = (case conn_client k W of
     None \<Rightarrow> Some (Inl err_conn_closed, W)
   | Some c \<Rightarrow>
       map_option (\<lambda>(res, w). (res, W\<lparr>wd_run := w\<rparr>))
         (schema_of L c ctx (''SELECT * FROM '' @ quote_qualified_name catalog db_schema table)
           (wd_run W)))"

section \<open>Statements\<close>

definition release_params :: "statement \<Rightarrow> 'srv world \<Rightarrow> 'srv world" where
  "release_params st W = (case st_params st of
     None \<Rightarrow> W
   | Some b \<Rightarrow> W\<lparr>wd_run := release_rec b (wd_run W)\<rparr>)"

definition statement_close :: "statement \<Rightarrow> 'srv world \<Rightarrow> statement \<times> 'srv world" where
  "statement_close st W = (st\<lparr>st_params := None, st_cnxn := None\<rparr>, release_params st W)"

definition statement_set_option :: "string \<Rightarrow> string \<Rightarrow> go_error option" where
  "statement_set_option key value =
     Some (fail StatusNotImplemented (''spark: unknown statement option: '' @ key))"

definition set_sql_query :: "string \<Rightarrow> statement \<Rightarrow> go_error option \<times> statement" where
  "set_sql_query query st = (None, st\<lparr>st_query := query\<rparr>)"

definition set_substrait_plan :: "string \<Rightarrow> go_error option" where
  "set_substrait_plan p =
     Some (fail StatusNotImplemented ''spark: Substrait plans are not supported; use SetSqlQuery'')"

definition prepare :: "statement \<Rightarrow> go_error option \<times> statement" where
  "prepare st = (if st_query st = [] then (Some err_no_query, st)
                 else (None, st\<lparr>st_prepared := True\<rparr>))"

definition bind_params ::
  "batch_ref option \<Rightarrow> statement \<Rightarrow> 'srv world \<Rightarrow> go_error option \<times> statement \<times> 'srv world" where
  "bind_params values st W =
    (if (case values of Some b \<Rightarrow> rb_rows (snd b) > 1 | None \<Rightarrow> False) then
       (Some (fail StatusNotImplemented
          ''spark: parameter binding supports a single row; bulk binding is not implemented''), st, W)
     else (let W1 = release_params st W;
               W2 = (case values of
                  None \<Rightarrow> W1 | Some b \<Rightarrow> W1\<lparr>wd_run := retain_rec b (wd_run W1)\<rparr>)
           in (None, st\<lparr>st_params := values\<rparr>, W2)))"

definition bind_stream :: "go_error option" where
  "bind_stream =
     Some (fail StatusNotImplemented ''spark: streamed parameter binding is not supported'')"

definition get_parameter_schema :: "go_error + schema" where
  "get_parameter_schema =
     Inl (fail StatusNotImplemented ''spark: parameter schema introspection is not supported'')"

record partitions =
  part_num :: nat
  part_ids :: "string list"

definition execute_partitions :: "go_error + (schema option \<times> partitions \<times> int)" where
  "execute_partitions =
     Inl (fail StatusNotImplemented ''spark: partitioned execution is not supported'')"

text \<open>The loop over the columns; the outer option is a panic.\<close>

fun column_literals ::
  "decimal_format \<Rightarrow> arrow_array list \<Rightarrow> literal list \<Rightarrow> (go_error + literal list) option" where
  "column_literals D [] literals = Some (Inr literals)"
| "column_literals D (col # cols) literals = (case column_to_literal D col 0 of
     None \<Rightarrow> None
   | Some (Inl e) \<Rightarrow> Some (Inl e)
   | Some (Inr lit) \<Rightarrow> column_literals D cols (literals @ [lit]))"

definition positional_literals :: "decimal_format \<Rightarrow> statement \<Rightarrow> (go_error + literal list) option" where
  "positional_literals D st = (case st_params st of
     None \<Rightarrow> Some (Inr [])
   | Some b \<Rightarrow> if rb_rows (snd b) = 0 then Some (Inr [])
               else column_literals D (rb_columns (snd b)) [])"

text \<open>The second component is the number of affected rows.\<close>

definition execute_query ::
  "'srv libs \<Rightarrow> metadata \<Rightarrow> statement \<Rightarrow> 'srv world \<Rightarrow> ((go_error + reader) \<times> int \<times> 'srv world) option"
  where
  "execute_query L ctx st W =
    (case (case st_cnxn st of None \<Rightarrow> None | Some k \<Rightarrow> conn_client k W) of
       None \<Rightarrow> Some (Inl err_closed, -1, W)
     | Some c \<Rightarrow>
         if st_query st = [] then Some (Inl err_no_query, -1, W)
         else (case positional_literals (lib_decimal L) st of
             None \<Rightarrow> None
           | Some (Inl e) \<Rightarrow> Some (Inl e, -1, W)
           | Some (Inr args) \<Rightarrow>
               (case execute_sql L c ctx (st_query st) args (wd_run W) of
                  (res, w) \<Rightarrow> Some (res, -1, W\<lparr>wd_run := w\<rparr>))))"

definition execute_update ::
  "'srv libs \<Rightarrow> metadata \<Rightarrow> statement \<Rightarrow> 'srv world \<Rightarrow> (go_error option \<times> int \<times> 'srv world) option"
  where
  "execute_update L ctx st W = (case execute_query L ctx st W of
     None \<Rightarrow> None
   | Some (Inl e, n, W') \<Rightarrow> Some (Some e, -1, W')
   | Some (Inr r, n, W') \<Rightarrow>
       (case drain (reader_next L) (r, wd_run W') of
          None \<Rightarrow> None
        | Some s \<Rightarrow> Some (reader_err s, -1, W'\<lparr>wd_run := snd (reader_release s)\<rparr>)))"

section \<open>Bound parameters\<close>

fun column_len :: "arrow_array \<Rightarrow> nat" where
  "column_len (ABoolean xs) = length xs"
| "column_len (AInt8 xs) = length xs"
| "column_len (AInt16 xs) = length xs"
| "column_len (AInt32 xs) = length xs"
| "column_len (AInt64 xs) = length xs"
| "column_len (AUint8 xs) = length xs"
| "column_len (AUint16 xs) = length xs"
| "column_len (AUint32 xs) = length xs"
| "column_len (AUint64 xs) = length xs"
| "column_len (AFloat32 xs) = length xs"
| "column_len (AFloat64 xs) = length xs"
| "column_len (AString xs) = length xs"
| "column_len (ALargeString xs) = length xs"
| "column_len (ABinary xs) = length xs"
| "column_len (ALargeBinary xs) = length xs"
| "column_len (ADate32 xs) = length xs"
| "column_len (ADate64 xs) = length xs"
| "column_len (ATimestamp dt xs) = length xs"
| "column_len (ADecimal128 dt xs) = length xs"
| "column_len (ADecimal256 dt xs) = length xs"
| "column_len (AOther ty xs) = length xs"

text \<open>What Arrow guarantees of a record batch: the columns have its length.\<close>

definition valid_batch :: "record_batch \<Rightarrow> bool" where
  "valid_batch b \<longleftrightarrow> (\<forall>col\<in>set (rb_columns b). column_len col = rb_rows b)"

definition params_ok :: "statement \<Rightarrow> bool" where
  "params_ok st \<longleftrightarrow> (\<forall>b. st_params st = Some b \<longrightarrow> valid_batch (snd b) \<and> rb_rows (snd b) \<le> 1)"

lemma column_to_literal_total:
  "row < column_len col \<Longrightarrow> \<exists>res. column_to_literal D col row = Some res"
  by (cases col) (simp_all add: cell_def)

lemma column_literals_spec:
  "column_literals D cols acc = Some (Inr args) \<longleftrightarrow>
     (\<exists>lits. args = acc @ lits \<and>
        list_all2 (\<lambda>col lit. column_to_literal D col 0 = Some (Inr lit)) cols lits)"
proof (induction cols arbitrary: acc)
  case (Cons col cols)
  show ?case
  proof (cases "column_to_literal D col 0")
    case (Some res)
    then show ?thesis using Cons.IH
      by (cases res) (auto simp: list_all2_Cons1)
  qed (auto simp: list_all2_Cons1)
qed auto

lemma column_literals_total:
  "\<forall>col\<in>set cols. 0 < column_len col \<Longrightarrow> \<exists>res. column_literals D cols acc = Some res"
proof (induction cols arbitrary: acc)
  case (Cons col cols)
  then obtain res where "column_to_literal D col 0 = Some res"
    using column_to_literal_total [of 0 col D] by auto
  then show ?case using Cons by (cases res) auto
qed simp

text \<open>The error is the one of the first column that has no literal.\<close>

definition first_bad_column :: "decimal_format \<Rightarrow> arrow_array list \<Rightarrow> nat \<Rightarrow> go_error \<Rightarrow> bool" where
  "first_bad_column D cols n e \<longleftrightarrow> n < length cols \<and> column_to_literal D (cols ! n) 0 = Some (Inl e) \<and>
     (\<forall>m<n. \<exists>lit. column_to_literal D (cols ! m) 0 = Some (Inr lit))"

lemma first_bad_column_Cons:
  "first_bad_column D (col # cols) n e \<longleftrightarrow>
     (case n of 0 \<Rightarrow> column_to_literal D col 0 = Some (Inl e)
      | Suc m \<Rightarrow> (\<exists>lit. column_to_literal D col 0 = Some (Inr lit)) \<and> first_bad_column D cols m e)"
  by (auto simp: first_bad_column_def less_Suc_eq_0_disj split: nat.split)

lemma column_literals_error:
  "column_literals D cols acc = Some (Inl e) \<longleftrightarrow> (\<exists>n. first_bad_column D cols n e)"
proof (induction cols arbitrary: acc)
  case Nil
  then show ?case by (simp add: first_bad_column_def)
next
  case (Cons col cols)
  have "(\<exists>n. first_bad_column D (col # cols) n e) \<longleftrightarrow>
      first_bad_column D (col # cols) 0 e \<or> (\<exists>m. first_bad_column D (col # cols) (Suc m) e)"
    by (metis not0_implies_Suc)
  then have "(\<exists>n. first_bad_column D (col # cols) n e) \<longleftrightarrow>
      column_to_literal D col 0 = Some (Inl e) \<or>
      (\<exists>lit. column_to_literal D col 0 = Some (Inr lit)) \<and> (\<exists>m. first_bad_column D cols m e)"
    by (simp add: first_bad_column_Cons)
  then show ?case using Cons.IH by (simp split: option.split sum.split)
qed

lemma positional_literals_total:
  "params_ok st \<Longrightarrow> \<exists>res. positional_literals D st = Some res"
  by (auto simp: positional_literals_def params_ok_def valid_batch_def split: option.split
      intro!: column_literals_total)

section \<open>Executing\<close>

definition stmt_client :: "statement \<Rightarrow> 'srv world \<Rightarrow> nat option" where
  "stmt_client st W = (case st_cnxn st of None \<Rightarrow> None | Some k \<Rightarrow> conn_client k W)"

lemma execute_query_open:
  assumes "stmt_client st W = Some c" "st_query st \<noteq> []"
    and "positional_literals (lib_decimal L) st = Some (Inr args)"
  shows "execute_query L ctx st W =
    (case execute_plan L c ctx (sql_plan (st_query st) args) (wd_run W) of
       (res, w) \<Rightarrow> Some (res, -1, W\<lparr>wd_run := w\<rparr>))"
  using assms by (simp add: execute_query_def stmt_client_def execute_sql_def)

lemma execute_query_refused:
  assumes "stmt_client st W = None \<or> st_query st = []"
  shows "execute_query L ctx st W =
    Some (Inl (if stmt_client st W = None then err_closed else err_no_query), -1, W)"
  using assms by (auto simp: execute_query_def stmt_client_def split: option.split)

text \<open>What an update reports: the error of the call or of the stream.\<close>

definition update_answer :: "'srv libs \<Rightarrow> grpc_error + recv_event list \<Rightarrow> go_error option" where
  "update_answer L ans = (case ans of
     Inl g \<Rightarrow> Some (wrap_grpc g)
   | Inr stream \<Rightarrow> snd (delivered L stream))"

lemma execute_update_open:
  assumes "stmt_client st W = Some c" "st_query st \<noteq> []"
    and "positional_literals (lib_decimal L) st = Some (Inr args)"
  shows "\<exists>W'. execute_update L ctx st W =
      Some (update_answer L (answer_of L c ctx (st_query st) args (wd_run W)), -1, W') \<and>
    same_runtime (wd_run W) (wd_run W') \<and> wd_conns W' = wd_conns W \<and>
    rt_sent (wd_run W') = rt_sent (plan_world L c ctx (sql_plan (st_query st) args) (wd_run W))"
proof -
  let ?plan = "sql_plan (st_query st) args" and ?w = "wd_run W"
  obtain res w1 where x: "execute_plan L c ctx ?plan ?w = (res, w1)" by fastforce
  note ok = execute_plan_ok [OF x] and q = execute_query_open [OF assms, of ctx, unfolded x prod.case]
  show ?thesis
  proof (cases res)
    case (Inl e)
    then show ?thesis using q ok
      by (auto simp: execute_update_def executed_def update_answer_def answer_of_def same_runtime_def
          split: sum.splits)
  next
    case (Inr r)
    have ex: "executed L c ctx ?plan ?w (Inr r) w1" using ok(1) Inr by simp
    then obtain stream where st: "fst (plan_answer L c ctx ?plan ?w) = Inr stream" "reads L stream r"
      by (auto simp: executed_def)
    obtain s where s: "drain (reader_next L) (r, w1) = Some s" using rr.drain_total by blast
    have "reader_err s = snd (delivered L stream)"
      using rr.drain_error [OF s] st(2) by (simp add: last_error_def reads_def)
    moreover have "same_runtime ?w (snd (reader_release s))"
      "rt_sent (snd (reader_release s)) = rt_sent (plan_world L c ctx ?plan ?w)"
      using same_hold_released [OF ex drain_same_hold [OF s]] ok by (simp_all add: same_runtime_def)
    ultimately show ?thesis using q Inr s st(1)
      by (simp add: execute_update_def update_answer_def answer_of_def)
  qed
qed

section \<open>The references of a statement\<close>

definition stmt_holds :: "statement \<Rightarrow> nat \<Rightarrow> int" where
  "stmt_holds st i = (case st_params st of Some b \<Rightarrow> if i = fst b then 1 else 0 | None \<Rightarrow> 0)"

lemma refs_release_params:
  "rt_refs (wd_run (release_params st W)) i = rt_refs (wd_run W) i - stmt_holds st i"
  by (simp add: release_params_def release_rec_def refs_add_ref stmt_holds_def split: option.split)

lemma bind_params_refs:
  assumes "bind_params values st W = (err, st', W')"
  shows "rt_refs (wd_run W') i - stmt_holds st' i = rt_refs (wd_run W) i - stmt_holds st i"
  using assms refs_release_params [of st W i]
  by (auto simp: bind_params_def Let_def retain_rec_def refs_add_ref stmt_holds_def
      split: option.splits if_splits)

lemma statement_close_refs:
  assumes "statement_close st W = (st', W')"
  shows "rt_refs (wd_run W') i = rt_refs (wd_run W) i - stmt_holds st i" "stmt_holds st' i = 0"
  using assms refs_release_params [of st W i] by (auto simp: statement_close_def stmt_holds_def)

lemma statement_close_twice:
  "statement_close st W = (st', W') \<Longrightarrow> statement_close st' W' = (st', W')"
  by (auto simp: statement_close_def release_params_def)

lemma bind_params_ok:
  "bind_params values st W = (err, st', W') \<Longrightarrow> params_ok st \<Longrightarrow>
     (\<forall>b. values = Some b \<longrightarrow> valid_batch (snd b)) \<Longrightarrow> params_ok st'"
  by (auto simp: bind_params_def params_ok_def Let_def split: option.splits if_splits)

section \<open>A closed connection\<close>

lemma connection_close_closed:
  assumes "k < length (wd_conns W)" "connection_close L k W = (err, W')"
  shows "conn_client k W' = None" "length (wd_conns W') = length (wd_conns W)"
  using assms by (auto simp: connection_close_def conn_client_def split: option.splits prod.splits)

lemma closed_connection:
  assumes "conn_client k W = None"
  shows "new_statement k W = Inl err_conn_closed"
    "connection_close L k W = (None, W)"
    "get_table_schema L k ctx cat sch tbl W = Some (Inl err_conn_closed, W)"
    "st_cnxn st = Some k \<Longrightarrow> execute_query L ctx st W = Some (Inl err_closed, -1, W)"
    "st_cnxn st = Some k \<Longrightarrow> execute_update L ctx st W = Some (Some err_closed, -1, W)"
  using assms
  by (simp_all add: new_statement_def connection_close_def get_table_schema_def execute_query_def
      execute_update_def)

section \<open>Properties\<close>

text \<open>C12: executing a statement of an open connection sends its query with one literal per bound
  column, in column order, or, when some column has no literal, fails with the error of the first
  such column and sends nothing.\<close>

theorem execute_binds_columns:
  assumes "stmt_client st W = Some c" "st_query st \<noteq> []"
    and "st_params st = Some b" "rb_rows (snd b) = 1" "valid_batch (snd b)"
  shows "\<exists>res W'. execute_query L ctx st W = Some (res, -1, W') \<and>
    ((\<exists>args. list_all2 (\<lambda>col lit. column_to_literal (lib_decimal L) col 0 = Some (Inr lit))
          (rb_columns (snd b)) args \<and>
        rt_sent (wd_run W') = rt_sent (plan_world L c ctx (sql_plan (st_query st) args) (wd_run W))) \<or>
     (\<exists>n e. first_bad_column (lib_decimal L) (rb_columns (snd b)) n e \<and> res = Inl e \<and> W' = W))"
proof -
  have "params_ok st" using assms(3-5) by (simp add: params_ok_def)
  then obtain r where r: "positional_literals (lib_decimal L) st = Some r"
    using positional_literals_total by blast
  have cols: "column_literals (lib_decimal L) (rb_columns (snd b)) [] = Some r"
    using r assms(3,4) by (simp add: positional_literals_def)
  show ?thesis
  proof (cases r)
    case (Inl e)
    then obtain n where "first_bad_column (lib_decimal L) (rb_columns (snd b)) n e"
      using cols column_literals_error by blast
    moreover have "execute_query L ctx st W = Some (Inl e, -1, W)"
      using assms(1,2) r Inl by (simp add: execute_query_def stmt_client_def)
    ultimately show ?thesis by blast
  next
    case (Inr args)
    then have args: "list_all2 (\<lambda>col lit. column_to_literal (lib_decimal L) col 0 = Some (Inr lit))
        (rb_columns (snd b)) args"
      using cols column_literals_spec [of "lib_decimal L" "rb_columns (snd b)" "[]" args] by simp
    obtain res w where x: "execute_plan L c ctx (sql_plan (st_query st) args) (wd_run W) = (res, w)"
      by fastforce
    have "execute_query L ctx st W = Some (res, -1, W\<lparr>wd_run := w\<rparr>)"
      using execute_query_open [OF assms(1,2) r [unfolded Inr]] x by simp
    moreover have "rt_sent w = rt_sent (plan_world L c ctx (sql_plan (st_query st) args) (wd_run W))"
      using execute_plan_ok(2) [OF x] .
    ultimately show ?thesis using args by auto
  qed
qed

definition sample_world :: "nat world" where
  "sample_world = \<lparr>wd_run = sample_runtime, wd_conns = [\<lparr>cn_client = Some 0\<rparr>]\<rparr>"

definition sample_statement :: statement where
  "sample_statement = \<lparr>st_cnxn = Some 0, st_query = ''SELECT ?'',
     st_params = Some (7, \<lparr>rb_columns = [AInt16 [Some (-1)]], rb_rows = 1\<rparr>), st_prepared = False\<rparr>"

theorem execute_binds_columns_witness:
  "\<exists>res W'. execute_query sample_libs [] sample_statement sample_world = Some (res, -1, W')"
  using execute_binds_columns [of sample_statement sample_world 0
      "(7, \<lparr>rb_columns = [AInt16 [Some (-1)]], rb_rows = 1\<rparr>)" sample_libs "[]"]
  by (auto simp: sample_statement_def sample_world_def stmt_client_def conn_client_def valid_batch_def)

text \<open>C20: \<^verbatim>\<open>ExecuteUpdate\<close> always returns: it drains the result, reports the error of the call or of
  the stream, gives \<^verbatim>\<open>-1\<close> rows, and holds nothing afterwards.\<close>

theorem execute_update_returns:
  assumes "stmt_client st W = Some c" "st_query st \<noteq> []"
    and "positional_literals (lib_decimal L) st = Some (Inr args)"
  shows "\<exists>W'. execute_update L ctx st W =
      Some (update_answer L (answer_of L c ctx (st_query st) args (wd_run W)), -1, W') \<and>
    same_runtime (wd_run W) (wd_run W') \<and> wd_conns W' = wd_conns W"
  using execute_update_open [OF assms, of ctx] by blast

theorem execute_update_returns_witness:
  "\<exists>W'. execute_update sample_libs [] sample_statement sample_world = Some (None, -1, W')"
proof -
  have "positional_literals (lib_decimal sample_libs) sample_statement = Some (Inr [LShort (scast (-1 :: int16))])"
    by (simp add: sample_statement_def positional_literals_def cell_def)
  moreover have "answer_of sample_libs 0 [] (st_query sample_statement)
      [LShort (scast (-1 :: int16))] (wd_run sample_world) = Inr sample_stream"
    by (simp add: answer_of_def plan_answer_def plan_request_def sql_plan_def sample_libs_def
        sample_statement_def query_of_def)
  ultimately show ?thesis
    using execute_update_returns [of sample_statement sample_world 0 sample_libs
        "[LShort (scast (-1 :: int16))]" "[]"]
    by (auto simp: sample_statement_def sample_world_def stmt_client_def conn_client_def
        update_answer_def sample_delivered)
qed

text \<open>C24: bound parameters are never leaked and never released twice: binding, binding again,
  binding nothing and a refused binding all keep the references of every record minus the
  statement's own.\<close>

theorem bind_keeps_references:
  assumes "bind_params values st W = (err, st', W')"
  shows "rt_refs (wd_run W') i - stmt_holds st' i = rt_refs (wd_run W) i - stmt_holds st i"
  using assms by (rule bind_params_refs)

theorem bind_keeps_references_witness:
  "(case bind_params None sample_statement sample_world of
      (err, st', W') \<Rightarrow> rt_refs (wd_run W') 7 - stmt_holds st' 7) = -1"
proof -
  obtain err st' W' where b: "bind_params None sample_statement sample_world = (err, st', W')"
    by (metis prod_cases3)
  show ?thesis using bind_keeps_references [OF b, of 7] b
    by (simp add: sample_statement_def sample_world_def sample_runtime_def stmt_holds_def)
qed

end
