(* ===== verification/Catalog.thy ===== *)
theory Catalog
  imports Connection Name_Patterns
begin

text \<open>
  \<^verbatim>\<open>driver/spark/objects.go\<close>: \<^verbatim>\<open>GetObjects\<close>, from the statements it sends to Spark to the nested
  value it returns. The value an Arrow builder assembles is given directly, as the list of rows
  with their nested lists; a null list is \<open>None\<close>.
\<close>

section \<open>Actions\<close>

text \<open>
  An operation of a connection takes the world to a result and a world, or to \<open>None\<close> when it
  panics or does not end. \<open>act_bind\<close> is a call followed by \<^verbatim>\<open>if err != nil { return err }\<close>,
  \<open>act_each\<close> a loop that leaves with the first error.
\<close>

type_synonym ('srv, 'a) act = "'srv world \<Rightarrow> ((go_error + 'a) \<times> 'srv world) option"

definition act_ret :: "'a \<Rightarrow> ('srv, 'a) act" where
  "act_ret x W = Some (Inr x, W)"

definition act_bind :: "('srv, 'a) act \<Rightarrow> ('a \<Rightarrow> ('srv, 'b) act) \<Rightarrow> ('srv, 'b) act" where
  "act_bind m f W = (case m W of
     None \<Rightarrow> None
   | Some (Inl e, W') \<Rightarrow> Some (Inl e, W')
   | Some (Inr x, W') \<Rightarrow> f x W')"

text \<open>A value that may not be computed because a loop does not end.\<close>

definition act_opt :: "'a option \<Rightarrow> ('srv, 'a) act" where
  "act_opt x W = (case x of None \<Rightarrow> None | Some y \<Rightarrow> Some (Inr y, W))"

text \<open>The error is looked at and another action takes over.\<close>

definition act_catch :: "('srv, 'a) act \<Rightarrow> ('srv, 'a) act \<Rightarrow> ('srv, 'a) act" where
  "act_catch m h W = (case m W of
     None \<Rightarrow> None
   | Some (Inl e, W') \<Rightarrow> h W'
   | Some (Inr x, W') \<Rightarrow> Some (Inr x, W'))"

fun act_each :: "('x \<Rightarrow> ('srv, 'a) act) \<Rightarrow> 'x list \<Rightarrow> ('srv, 'a list) act" where
  "act_each f [] = act_ret []"
| "act_each f (x # xs) = act_bind (f x) (\<lambda>y. act_bind (act_each f xs) (\<lambda>ys. act_ret (y # ys)))"

section \<open>Reading a result\<close>

text \<open>
  \<^verbatim>\<open>ExecuteSQL\<close>, a loop over the reader whose body adds to a list, \<^verbatim>\<open>Err\<close>, the deferred
  \<^verbatim>\<open>Release\<close>. The body is given the schema of the reader; it is on the left when it panics or
  does not end.
\<close>

definition collect ::
  "'srv libs \<Rightarrow> nat \<Rightarrow> metadata \<Rightarrow> string \<Rightarrow>
     (schema \<Rightarrow> record_batch option \<Rightarrow> 'a list \<Rightarrow> unit + 'a list) \<Rightarrow> ('srv, 'a list) act" where
  "collect L k ctx sql body W = (case conn_client k W of
     None \<Rightarrow> None
   | Some c \<Rightarrow> (case execute_sql L c ctx sql [] (wd_run W) of
       (Inl e, w) \<Rightarrow> Some (Inl e, W\<lparr>wd_run := w\<rparr>)
     | (Inr r, w) \<Rightarrow>
         (case for_next (reader_next L) (\<lambda>s out. body (reader_schema r) (cur_batch s) out) (r, w) [] of
            None \<Rightarrow> None
          | Some (Inl panic, s) \<Rightarrow> None
          | Some (Inr out, s) \<Rightarrow>
              Some (case reader_err s of Some e \<Rightarrow> Inl e | None \<Rightarrow> Inr out,
                    W\<lparr>wd_run := snd (reader_release s)\<rparr>))))"

section \<open>queryStrings\<close>

text \<open>The first field with the wanted name, or the first of all.\<close>

fun find_field :: "unicode \<Rightarrow> string \<Rightarrow> arrow_field list \<Rightarrow> nat option" where
  "find_field U column [] = None"
| "find_field U column (f # fs) =
    (if str_equal_fold U (fld_name f) column then Some 0
     else map_option Suc (find_field U column fs))"

definition non_null :: "'a option list \<Rightarrow> 'a list" where
  "non_null xs = map the (filter (\<lambda>x. x \<noteq> None) xs)"

text \<open>The body of the loop: a batch that has no such column, or one that is not of strings, is
  passed over.\<close>

definition strings_of :: "nat \<Rightarrow> record_batch \<Rightarrow> string list" where
  "strings_of idx rec =
    (if length (rb_columns rec) \<le> idx then []
     else (case rb_columns rec ! idx of AString xs \<Rightarrow> non_null xs | _ \<Rightarrow> []))"

definition strings_body ::
  "unicode \<Rightarrow> string \<Rightarrow> schema \<Rightarrow> record_batch option \<Rightarrow> string list \<Rightarrow> unit + string list" where
  "strings_body U column sc cur out =
    (let idx = (case find_field U column sc of Some i \<Rightarrow> i | None \<Rightarrow> 0) in
     case cur of
       None \<Rightarrow> Inl ()
     | Some rec \<Rightarrow> Inr (out @ strings_of idx rec))"

definition query_strings ::
  "'srv libs \<Rightarrow> nat \<Rightarrow> metadata \<Rightarrow> string \<Rightarrow> string \<Rightarrow> ('srv, string list) act" where
  "query_strings L k ctx sql column = collect L k ctx sql (strings_body (lib_unicode L) column)"

section \<open>listTables\<close>

record table_entry =
  te_name :: string
  te_type :: string

text \<open>The switch over the lower-cased field names: the last field of a name counts.\<close>

fun table_indices :: "unicode \<Rightarrow> nat \<Rightarrow> arrow_field list \<Rightarrow> nat option \<times> nat option \<Rightarrow> nat option \<times> nat option"
  where
  "table_indices U i [] ni = ni"
| "table_indices U i (f # fs) ni =
    (let l = to_lower U (fld_name f) in
     table_indices U (i + 1) fs
       (if l = ''tablename'' then (Some i, snd ni)
        else if l = ''istemporary'' then (fst ni, Some i)
        else ni))"

definition is_temporary :: "bool option list option \<Rightarrow> nat \<Rightarrow> bool" where
  "is_temporary temp r = (case temp of
     None \<Rightarrow> False
   | Some ts \<Rightarrow> r < length ts \<and> ts ! r = Some True)"

definition entries_of ::
  "unicode \<Rightarrow> string option \<Rightarrow> nat \<Rightarrow> nat option \<Rightarrow> record_batch \<Rightarrow> table_entry list option" where
  "entries_of U table_name name_idx temp_idx rec =
    (case rb_columns rec ! name_idx of
       AString xs \<Rightarrow>
         (let temp = (case temp_idx of
                None \<Rightarrow> None
              | Some t \<Rightarrow> if t < length (rb_columns rec)
                  then (case rb_columns rec ! t of ABoolean ts \<Rightarrow> Some ts | _ \<Rightarrow> None) else None)
          in map_option (map (\<lambda>r. \<lparr>te_name = the (xs ! r),
                      te_type = if is_temporary temp r then ''TEMPORARY'' else ''TABLE''\<rparr>))
               (filter_opt (\<lambda>r. case xs ! r of None \<Rightarrow> Some False | Some v \<Rightarrow> matches_pattern U table_name v)
                 [0..<length xs]))
     | _ \<Rightarrow> Some [])"

text \<open>The columns of a batch have one length, so the row of a name is one of the other column.
  \<^verbatim>\<open>rec.Column(nameIdx)\<close> panics when there is no such column.\<close>

definition tables_body ::
  "unicode \<Rightarrow> string option \<Rightarrow> schema \<Rightarrow> record_batch option \<Rightarrow> table_entry list \<Rightarrow>
     unit + table_entry list" where
  "tables_body U table_name sc cur out =
    (case table_indices U 0 sc (None, None) of (ni, ti) \<Rightarrow>
      (let name_idx = (case ni of Some i \<Rightarrow> i | None \<Rightarrow> 0) in
       case cur of
         None \<Rightarrow> Inl ()
       | Some rec \<Rightarrow>
           if length (rb_columns rec) \<le> name_idx then Inl ()
           else (case entries_of U table_name name_idx ti rec of
                   None \<Rightarrow> Inl ()
                 | Some tes \<Rightarrow> Inr (out @ tes))))"

definition list_tables ::
  "'srv libs \<Rightarrow> nat \<Rightarrow> metadata \<Rightarrow> string \<Rightarrow> string \<Rightarrow> string option \<Rightarrow> ('srv, table_entry list) act"
  where
  "list_tables L k ctx catalog sch table_name =
     collect L k ctx (''SHOW TABLES IN '' @ quote_ident catalog @ ''.'' @ quote_ident sch @
         like_clause table_name)
       (tables_body (lib_unicode L) table_name)"

section \<open>listCatalogs and listSchemas\<close>

definition given_name :: "string option \<Rightarrow> bool" where
  "given_name pattern = (case pattern of Some p \<Rightarrow> p \<noteq> [] \<and> \<not> is_pattern p | None \<Rightarrow> False)"

definition list_catalogs ::
  "'srv libs \<Rightarrow> nat \<Rightarrow> metadata \<Rightarrow> string option \<Rightarrow> ('srv, string list) act" where
  "list_catalogs L k ctx catalog =
    (if given_name catalog then act_ret [the catalog]
     else act_catch
       (act_bind (query_strings L k ctx ''SHOW CATALOGS'' ''catalog'')
         (\<lambda>names. act_opt (filter_by_pattern (lib_unicode L) names catalog)))
       (act_ret [''spark_catalog'']))"

definition list_schemas ::
  "'srv libs \<Rightarrow> nat \<Rightarrow> metadata \<Rightarrow> string \<Rightarrow> string option \<Rightarrow> ('srv, string list) act" where
  "list_schemas L k ctx catalog db_schema =
    (let like = like_clause db_schema in
     act_catch
       (act_bind
         (act_catch
           (query_strings L k ctx (''SHOW NAMESPACES IN '' @ quote_ident catalog @ like) ''namespace'')
           (query_strings L k ctx (''SHOW NAMESPACES'' @ like) ''namespace''))
         (\<lambda>names. act_opt (filter_by_pattern (lib_unicode L) names db_schema)))
       (act_ret []))"

section \<open>The rows of the result\<close>

text \<open>The optional \<^verbatim>\<open>xdbc_*\<close> fields of a column are null and left out; so is the list of a table's
  constraints, which is empty.\<close>

record column_row =
  co_name :: string
  co_ordinal :: int32

record table_row =
  ta_name :: string
  ta_type :: string
  ta_columns :: "column_row list option"

record db_schema_row =
  ds_name :: string
  ds_tables :: "table_row list option"

record catalog_row =
  ca_name :: string
  ca_schemas :: "db_schema_row list option"

text \<open>The depths (\<^verbatim>\<open>ADBC_OBJECT_DEPTH_*\<close>); all is the same as columns.\<close>

definition depth_columns :: int where "depth_columns = 0"
definition depth_catalogs :: int where "depth_catalogs = 1"
definition depth_db_schemas :: int where "depth_db_schemas = 2"
definition depth_tables :: int where "depth_tables = 3"

section \<open>buildObjects\<close>

definition column_rows :: "unicode \<Rightarrow> string option \<Rightarrow> schema \<Rightarrow> column_row list option" where
  "column_rows U column_name fs =
     map_option (map (\<lambda>i. \<lparr>co_name = fld_name (fs ! i), co_ordinal = word_of_int (int i + 1)\<rparr>))
       (filter_opt (\<lambda>i. matches_pattern U column_name (fld_name (fs ! i))) [0..<length fs])"

definition append_columns ::
  "'srv libs \<Rightarrow> nat \<Rightarrow> metadata \<Rightarrow> string \<Rightarrow> string \<Rightarrow> string \<Rightarrow> string option \<Rightarrow>
     ('srv, column_row list) act" where
  "append_columns L k ctx catalog sch table column_name =
     act_bind (get_table_schema L k ctx (Some catalog) (Some sch) table)
       (\<lambda>fs. act_opt (column_rows (lib_unicode L) column_name fs))"

text \<open>A table whose columns cannot be read has none.\<close>

definition append_table ::
  "'srv libs \<Rightarrow> nat \<Rightarrow> metadata \<Rightarrow> int \<Rightarrow> string \<Rightarrow> string \<Rightarrow> string option \<Rightarrow> table_entry \<Rightarrow>
     ('srv, table_row) act" where
  "append_table L k ctx depth catalog sch column_name tbl =
    (if depth \<noteq> depth_columns then
       act_ret \<lparr>ta_name = te_name tbl, ta_type = te_type tbl, ta_columns = None\<rparr>
     else act_bind
       (act_catch (append_columns L k ctx catalog sch (te_name tbl) column_name) (act_ret []))
       (\<lambda>cols. act_ret \<lparr>ta_name = te_name tbl, ta_type = te_type tbl, ta_columns = Some cols\<rparr>))"

definition append_tables ::
  "'srv libs \<Rightarrow> nat \<Rightarrow> metadata \<Rightarrow> int \<Rightarrow> string \<Rightarrow> string \<Rightarrow> string option \<Rightarrow> string option \<Rightarrow>
     string list \<Rightarrow> ('srv, table_row list) act" where
  "append_tables L k ctx depth catalog sch table_name column_name table_types =
     act_bind (list_tables L k ctx catalog sch table_name)
       (\<lambda>tables. act_each (append_table L k ctx depth catalog sch column_name)
         (filter (\<lambda>tbl. table_type_allowed (lib_unicode L) (te_type tbl) table_types) tables))"

definition append_db_schema ::
  "'srv libs \<Rightarrow> nat \<Rightarrow> metadata \<Rightarrow> int \<Rightarrow> string \<Rightarrow> string option \<Rightarrow> string option \<Rightarrow> string list \<Rightarrow>
     string \<Rightarrow> ('srv, db_schema_row) act" where
  "append_db_schema L k ctx depth catalog table_name column_name table_types sch =
    (if depth = depth_db_schemas then act_ret \<lparr>ds_name = sch, ds_tables = None\<rparr>
     else act_bind (append_tables L k ctx depth catalog sch table_name column_name table_types)
       (\<lambda>tables. act_ret \<lparr>ds_name = sch, ds_tables = Some tables\<rparr>))"

definition append_db_schemas ::
  "'srv libs \<Rightarrow> nat \<Rightarrow> metadata \<Rightarrow> int \<Rightarrow> string \<Rightarrow> string option \<Rightarrow> string option \<Rightarrow> string option \<Rightarrow>
     string list \<Rightarrow> ('srv, db_schema_row list) act" where
  "append_db_schemas L k ctx depth catalog db_schema table_name column_name table_types =
     act_bind (list_schemas L k ctx catalog db_schema)
       (act_each (append_db_schema L k ctx depth catalog table_name column_name table_types))"

definition append_catalog ::
  "'srv libs \<Rightarrow> nat \<Rightarrow> metadata \<Rightarrow> int \<Rightarrow> string option \<Rightarrow> string option \<Rightarrow> string option \<Rightarrow>
     string list \<Rightarrow> string \<Rightarrow> ('srv, catalog_row) act" where
  "append_catalog L k ctx depth db_schema table_name column_name table_types cat =
    (if depth = depth_catalogs then act_ret \<lparr>ca_name = cat, ca_schemas = None\<rparr>
     else act_bind
       (append_db_schemas L k ctx depth cat db_schema table_name column_name table_types)
       (\<lambda>schemas. act_ret \<lparr>ca_name = cat, ca_schemas = Some schemas\<rparr>))"

definition build_objects ::
  "'srv libs \<Rightarrow> nat \<Rightarrow> metadata \<Rightarrow> int \<Rightarrow> string option \<Rightarrow> string option \<Rightarrow> string option \<Rightarrow>
     string option \<Rightarrow> string list \<Rightarrow> ('srv, catalog_row list) act" where
  "build_objects L k ctx depth catalog db_schema table_name column_name table_types =
     act_bind (list_catalogs L k ctx catalog)
       (act_each (append_catalog L k ctx depth db_schema table_name column_name table_types))"

definition get_objects ::
  "'srv libs \<Rightarrow> nat \<Rightarrow> metadata \<Rightarrow> int \<Rightarrow> string option \<Rightarrow> string option \<Rightarrow> string option \<Rightarrow>
     string option \<Rightarrow> string list \<Rightarrow> ('srv, catalog_row list) act" where
  "get_objects L k ctx depth catalog db_schema table_name column_name table_types W =
    (case conn_client k W of
       None \<Rightarrow> Some (Inl err_conn_closed, W)
     | Some c \<Rightarrow>
         build_objects L k ctx depth catalog db_schema table_name column_name table_types W)"

section \<open>Actions that return and hold nothing\<close>

definition same_world :: "'srv world \<Rightarrow> 'srv world \<Rightarrow> bool" where
  "same_world W W' \<longleftrightarrow> wd_conns W' = wd_conns W \<and> same_runtime (wd_run W) (wd_run W')"

lemma same_world_refl [simp]: "same_world W W"
  by (simp add: same_world_def)

lemma same_world_trans: "same_world U V \<Longrightarrow> same_world V W \<Longrightarrow> same_world U W"
  by (auto simp: same_world_def intro: same_runtime_trans)

lemma same_world_client: "same_world W W' \<Longrightarrow> conn_client k W' = conn_client k W"
  by (simp add: same_world_def conn_client_def)

text \<open>On an open connection the action returns, holds nothing afterwards, and its result, if it
  is no error, satisfies \<open>Q\<close>.\<close>

definition yields :: "nat \<Rightarrow> ('a \<Rightarrow> bool) \<Rightarrow> ('srv, 'a) act \<Rightarrow> bool" where
  "yields k Q m \<longleftrightarrow> (\<forall>W. conn_client k W \<noteq> None \<longrightarrow>
     (\<exists>res W'. m W = Some (res, W') \<and> same_world W W' \<and> (\<forall>x. res = Inr x \<longrightarrow> Q x)))"

named_theorems yields_rules

lemma yields_ret [yields_rules]: "Q x \<Longrightarrow> yields k Q (act_ret x)"
  by (simp add: yields_def act_ret_def)

lemma yields_opt: "x = Some y \<Longrightarrow> Q y \<Longrightarrow> yields k Q (act_opt x)"
  by (simp add: yields_def act_opt_def)

lemma yields_weaken: "yields k P m \<Longrightarrow> (\<And>x. P x \<Longrightarrow> Q x) \<Longrightarrow> yields k Q m"
  unfolding yields_def by blast

lemma yields_bind:
  fixes m :: "('srv, 'a) act"
  assumes m: "yields k P m" and f: "\<And>x. P x \<Longrightarrow> yields k Q (f x)"
  shows "yields k Q (act_bind m f)"
  unfolding yields_def
proof (intro allI impI)
  fix W :: "'srv world" assume open_: "conn_client k W \<noteq> None"
  obtain res W' where 1: "m W = Some (res, W')" "same_world W W'" "\<forall>x. res = Inr x \<longrightarrow> P x"
    using m open_ unfolding yields_def by blast
  show "\<exists>res W'. act_bind m f W = Some (res, W') \<and> same_world W W' \<and> (\<forall>x. res = Inr x \<longrightarrow> Q x)"
  proof (cases res)
    case (Inr x)
    then obtain res2 W2 where "f x W' = Some (res2, W2)" "same_world W' W2" "\<forall>y. res2 = Inr y \<longrightarrow> Q y"
      using f 1 open_ same_world_client [OF 1(2)] unfolding yields_def by metis
    then show ?thesis using 1 Inr by (auto simp: act_bind_def intro: same_world_trans)
  qed (use 1 in \<open>simp add: act_bind_def\<close>)
qed

lemma yields_catch:
  fixes m :: "('srv, 'a) act"
  assumes m: "yields k Q m" and h: "yields k Q h"
  shows "yields k Q (act_catch m h)"
  unfolding yields_def
proof (intro allI impI)
  fix W :: "'srv world" assume open_: "conn_client k W \<noteq> None"
  obtain res W' where 1: "m W = Some (res, W')" "same_world W W'" "\<forall>x. res = Inr x \<longrightarrow> Q x"
    using m open_ unfolding yields_def by blast
  obtain res2 W2 where 2: "h W' = Some (res2, W2)" "same_world W' W2" "\<forall>y. res2 = Inr y \<longrightarrow> Q y"
    using h open_ same_world_client [OF 1(2)] unfolding yields_def by metis
  show "\<exists>res W'. act_catch m h W = Some (res, W') \<and> same_world W W' \<and> (\<forall>x. res = Inr x \<longrightarrow> Q x)"
    using 1 2 same_world_trans [OF 1(2) 2(2)] by (cases res) (simp_all add: act_catch_def)
qed

lemma yields_each:
  "(\<And>x. x \<in> set xs \<Longrightarrow> yields k (Q x) (f x)) \<Longrightarrow>
     yields k (\<lambda>ys. list_all2 Q xs ys) (act_each f xs)"
proof (induction xs)
  case Nil
  show ?case by (simp add: yields_ret)
next
  case (Cons x xs)
  show ?case unfolding act_each.simps
    by (rule yields_bind [OF Cons(2)], simp, rule yields_bind [OF Cons(1)], simp add: Cons(2))
      (simp add: yields_ret)
qed

section \<open>Reading a result returns\<close>

text \<open>
  A body that treats every batch of an answer without a panic. What it may rely on is the contract of
  Arrow and of Spark, for each answer of the service by itself: the batches of an answer have one column
  per field of that answer's schema, and the answer to a \<^verbatim>\<open>SHOW TABLES\<close>, if it has a batch at all, has
  a column (Spark documents three of them). Answers to different statements can have schemas of any
  widths, none at all included. The orbits of \<^verbatim>\<open>unicode.SimpleFold\<close> return.
\<close>

definition fits_schema :: "schema \<Rightarrow> record_batch \<Rightarrow> bool" where
  "fits_schema sc b \<longleftrightarrow> length (rb_columns b) = length sc"

definition stream_schema :: "'srv libs \<Rightarrow> recv_event list \<Rightarrow> schema" where
  "stream_schema L es = (case first_schema L es of Some sc \<Rightarrow> sc | None \<Rightarrow> [])"

text \<open>The batch is one of an answer of the service to the statement, and the schema is that answer's.\<close>

definition answered_with :: "'srv libs \<Rightarrow> string \<Rightarrow> schema \<Rightarrow> record_batch \<Rightarrow> bool" where
  "answered_with L sql sc b \<longleftrightarrow> (\<exists>md req srv es. fst (svc_execute_plan L md req srv) = Inr es \<and>
     xp_plan req = sql_plan sql [] \<and> sc = stream_schema L es \<and> b \<in> set (fst (delivered L es)))"

definition lib_fits :: "'srv libs \<Rightarrow> bool" where
  "lib_fits L \<longleftrightarrow> orbits_return (lib_unicode L) \<and>
     (\<forall>sql sc b. answered_with L sql sc b \<longrightarrow>
        fits_schema sc b \<and> (prefix ''SHOW TABLES'' sql \<longrightarrow> sc \<noteq> []))"

text \<open>The function of the answer that \<open>collect\<close> is.\<close>

definition collected ::
  "'srv libs \<Rightarrow> (schema \<Rightarrow> record_batch \<Rightarrow> 'a list) \<Rightarrow> grpc_error + recv_event list \<Rightarrow> go_error + 'a list"
  where
  "collected L f ans = (case ans of
     Inl g \<Rightarrow> Inl (wrap_grpc g)
   | Inr es \<Rightarrow> (case snd (delivered L es) of
        Some e \<Rightarrow> Inl e
      | None \<Rightarrow> Inr (concat (map (f (stream_schema L es)) (fst (delivered L es))))))"

lemma fold_res_append:
  assumes "\<And>x acc. x \<in> set xs \<Longrightarrow> g x acc = Inr (acc @ f x)"
  shows "fold_res g xs acc = Inr (acc @ concat (map f xs))"
  using assms by (induction xs arbitrary: acc) simp_all

lemma collect_spec:
  assumes c: "conn_client k W = Some c"
    and body: "\<And>sc b out. answered_with L sql sc b \<Longrightarrow>
      body sc (Some b) out = Inr (out @ f sc b)"
  shows "\<exists>W'. collect L k ctx sql body W =
      Some (collected L f (answer_of L c ctx sql [] (wd_run W)), W') \<and> same_world W W' \<and>
      rt_sent (wd_run W') = rt_sent (plan_world L c ctx (sql_plan sql []) (wd_run W))"
proof -
  let ?plan = "sql_plan sql []" and ?w = "wd_run W"
  obtain res w1 where x: "execute_plan L c ctx ?plan ?w = (res, w1)" by fastforce
  note ok = execute_plan_ok [OF x]
  show ?thesis
  proof (cases res)
    case (Inl e)
    then show ?thesis using x ok c
      by (auto simp: collect_def execute_sql_def executed_def collected_def answer_of_def
          same_world_def same_runtime_def split: sum.splits)
  next
    case (Inr r)
    have ex: "executed L c ctx ?plan ?w (Inr r) w1" using ok(1) Inr by simp
    then obtain es where es: "fst (plan_answer L c ctx ?plan ?w) = Inr es" "reads L es r"
      by (auto simp: executed_def)
    have sc: "reader_schema r = stream_schema L es"
      using es(2) by (simp add: reader_schema_def reads_def stream_schema_def)
    let ?b = "\<lambda>s out. body (reader_schema r) (cur_batch s) out"
    obtain s where s: "for_next (reader_next L) ?b (r, w1) [] =
        Some (fold_res (\<lambda>b. body (reader_schema r) (Some b)) (left L (r, w1)) [], s)"
      using rr.loop_fold [of ?b "\<lambda>b. body (reader_schema r) (Some b)" L "(r, w1)" "[]"] by auto
    have left: "left L (r, w1) = fst (delivered L es)"
      using es(2) by (simp add: left_def reads_def)
    have answered: "answered_with L sql (stream_schema L es) b" if "b \<in> set (fst (delivered L es))" for b
      using es(1) that by (fastforce simp: answered_with_def plan_answer_def plan_request_def)
    have fold: "fold_res (\<lambda>b. body (reader_schema r) (Some b)) (left L (r, w1)) [] =
        Inr (concat (map (f (stream_schema L es)) (fst (delivered L es))))"
      using fold_res_append [of "left L (r, w1)" "\<lambda>b. body (reader_schema r) (Some b)"
          "f (stream_schema L es)" "[]"] body answered
      by (auto simp: left sc)
    have err: "reader_err s = snd (delivered L es)"
      using rr.loop_error [OF s [unfolded fold]] es(2) by (simp add: last_error_def reads_def)
    have "same_runtime ?w (snd (reader_release s))"
      "rt_sent (snd (reader_release s)) = rt_sent (plan_world L c ctx ?plan ?w)"
      using same_hold_released [OF ex loop_same_hold [OF s]] ok by (simp_all add: same_runtime_def)
    then show ?thesis using x Inr c s fold err es(1)
      by (simp add: collect_def execute_sql_def collected_def answer_of_def same_world_def
          split: option.split)
  qed
qed

lemma yields_collect:
  fixes L :: "'srv libs"
  assumes body: "\<And>sc b out. answered_with L sql sc b \<Longrightarrow>
      body sc (Some b) out = Inr (out @ f sc b)"
    and Q: "\<And>sc b x. x \<in> set (f sc b) \<Longrightarrow> Q x"
  shows "yields k (\<lambda>xs. \<forall>x\<in>set xs. Q x) (collect L k ctx sql body)"
  unfolding yields_def
proof (intro allI impI)
  fix W :: "'srv world" assume "conn_client k W \<noteq> None"
  then obtain c where c: "conn_client k W = Some c" by auto
  obtain W' where "collect L k ctx sql body W =
      Some (collected L f (answer_of L c ctx sql [] (wd_run W)), W')" "same_world W W'"
    using collect_spec [where body = body and f = f and L = L and ctx = ctx and sql = sql, OF c body] by blast
  moreover have "\<forall>xs. collected L f (answer_of L c ctx sql [] (wd_run W)) = Inr xs \<longrightarrow> (\<forall>x\<in>set xs. Q x)"
    by (auto simp: collected_def split: sum.splits option.splits dest: Q)
  ultimately show "\<exists>res W'. collect L k ctx sql body W = Some (res, W') \<and> same_world W W' \<and>
      (\<forall>x. res = Inr x \<longrightarrow> (\<forall>x\<in>set x. Q x))" by blast
qed

text \<open>The rows \<^verbatim>\<open>queryStrings\<close> and \<^verbatim>\<open>listTables\<close> read from a batch.\<close>

definition string_rows :: "unicode \<Rightarrow> string \<Rightarrow> schema \<Rightarrow> record_batch \<Rightarrow> string list" where
  "string_rows U column sc b =
     strings_of (case find_field U column sc of Some i \<Rightarrow> i | None \<Rightarrow> 0) b"

definition table_rows_of :: "unicode \<Rightarrow> string option \<Rightarrow> schema \<Rightarrow> record_batch \<Rightarrow> table_entry list" where
  "table_rows_of U table_name sc b =
     (case table_indices U 0 sc (None, None) of (ni, ti) \<Rightarrow>
        the (entries_of U table_name (case ni of Some i \<Rightarrow> i | None \<Rightarrow> 0) ti b))"

lemma strings_body_rows: "strings_body U column sc (Some b) out = Inr (out @ string_rows U column sc b)"
  by (simp add: strings_body_def string_rows_def Let_def)

lemma table_indices_bound:
  "(\<forall>j. fst ni = Some j \<longrightarrow> j < i + length fs) \<Longrightarrow>
     (\<forall>j. fst (table_indices U i fs ni) = Some j \<longrightarrow> j < i + length fs)"
proof (induction fs arbitrary: i ni)
  case (Cons f fs)
  let ?l = "to_lower U (fld_name f)"
  let ?ni = "if ?l = ''tablename'' then (Some i, snd ni)
    else if ?l = ''istemporary'' then (fst ni, Some i) else ni"
  have "\<forall>j. fst ?ni = Some j \<longrightarrow> j < (i + 1) + length fs" using Cons(2) by simp
  from Cons(1) [OF this] show ?case by (simp only: table_indices.simps Let_def) simp
qed simp

lemma entries_of_returned:
  assumes "orbits_return U"
  shows "\<exists>tes. entries_of U table_name n t b = Some tes \<and>
    (\<forall>te\<in>set tes. name_matches U table_name (te_name te) \<and> te_type te \<in> {''TABLE'', ''TEMPORARY''})"
proof (cases "\<exists>xs. rb_columns b ! n = AString xs")
  case True
  then obtain xs where xs: "rb_columns b ! n = AString xs" by blast
  have "filter_opt (\<lambda>r. case xs ! r of None \<Rightarrow> Some False | Some v \<Rightarrow> matches_pattern U table_name v) [0..<length xs] =
      Some (filter (\<lambda>r. case xs ! r of None \<Rightarrow> False | Some v \<Rightarrow> name_matches U table_name v) [0..<length xs])"
    by (rule filter_opt_returned) (auto simp: matches_pattern_returned [OF assms, symmetric] split: option.split)
  then show ?thesis using xs by (auto simp: entries_of_def Let_def split: option.splits)
next
  case False
  then have "entries_of U table_name n t b = Some []" by (auto simp: entries_of_def split: arrow_array.split)
  then show ?thesis by simp
qed

lemma tables_body_rows:
  assumes "fits_schema sc b" "sc \<noteq> []" "orbits_return U"
  shows "tables_body U table_name sc (Some b) out = Inr (out @ table_rows_of U table_name sc b)"
proof -
  obtain ni ti where t: "table_indices U 0 sc (None, None) = (ni, ti)" by fastforce
  have "\<forall>j. ni = Some j \<longrightarrow> j < length sc"
    using table_indices_bound [of "(None, None)" 0 sc U] t by simp
  then have "(case ni of Some i \<Rightarrow> i | None \<Rightarrow> 0) < length (rb_columns b)"
    using assms(1,2) by (simp add: fits_schema_def split: option.split)
  then show ?thesis
    using t entries_of_returned [OF assms(3), of table_name "case ni of Some i \<Rightarrow> i | None \<Rightarrow> 0" ti b]
    by (auto simp: tables_body_def table_rows_of_def Let_def)
qed

lemma table_rows_of_ok:
  assumes "orbits_return U" "te \<in> set (table_rows_of U table_name sc b)"
  shows "name_matches U table_name (te_name te) \<and> te_type te \<in> {''TABLE'', ''TEMPORARY''}"
proof -
  obtain ni ti where t: "table_indices U 0 sc (None, None) = (ni, ti)" by fastforce
  show ?thesis
    using assms(2) t entries_of_returned [OF assms(1), of table_name "case ni of Some i \<Rightarrow> i | None \<Rightarrow> 0" ti b]
    by (auto simp: table_rows_of_def)
qed

lemma column_rows_returned:
  "orbits_return U \<Longrightarrow> column_rows U column_name fs =
     Some (map (\<lambda>i. \<lparr>co_name = fld_name (fs ! i), co_ordinal = word_of_int (int i + 1)\<rparr>)
       (filter (\<lambda>i. name_matches U column_name (fld_name (fs ! i))) [0..<length fs]))"
  unfolding column_rows_def
  by (subst filter_opt_returned [where g = "\<lambda>i. name_matches U column_name (fld_name (fs ! i))"])
    (rule matches_pattern_returned, simp_all)

section \<open>GetObjects\<close>

lemma yields_query_strings [yields_rules]:
  "yields k (\<lambda>xs. True) (query_strings L k ctx sql column)"
  unfolding query_strings_def
  by (rule yields_weaken [OF yields_collect [where Q = "\<lambda>x. True"]])
    (simp_all add: strings_body_rows)

lemma yields_list_tables:
  assumes "lib_fits L"
  shows "yields k (\<lambda>tes. \<forall>te\<in>set tes. name_matches (lib_unicode L) table_name (te_name te) \<and>
      te_type te \<in> {''TABLE'', ''TEMPORARY''}) (list_tables L k ctx catalog sch table_name)"
  unfolding list_tables_def
proof (rule yields_collect)
  fix sc b out
  assume "answered_with L (''SHOW TABLES IN '' @ quote_ident catalog @ ''.'' @ quote_ident sch @
      like_clause table_name) sc b"
  then have "fits_schema sc b" "sc \<noteq> []" using assms by (auto simp: lib_fits_def)
  then show "tables_body (lib_unicode L) table_name sc (Some b) out =
      Inr (out @ table_rows_of (lib_unicode L) table_name sc b)"
    using assms by (intro tables_body_rows) (simp_all add: lib_fits_def)
qed (rule table_rows_of_ok, use assms in \<open>auto simp: lib_fits_def\<close>)

definition catalogs_ok :: "unicode \<Rightarrow> string option \<Rightarrow> string list \<Rightarrow> bool" where
  "catalogs_ok U catalog names \<longleftrightarrow>
     (if given_name catalog then names = [the catalog]
      else (\<forall>n\<in>set names. name_matches U catalog n) \<or> names = [''spark_catalog''])"

lemma yields_list_catalogs:
  assumes "lib_fits L"
  shows "yields k (catalogs_ok (lib_unicode L) catalog) (list_catalogs L k ctx catalog)"
proof (cases "given_name catalog")
  case False
  have "orbits_return (lib_unicode L)" using assms by (simp add: lib_fits_def)
  from filter_by_pattern_returned [OF this] False show ?thesis unfolding list_catalogs_def
    by (auto intro!: yields_catch yields_bind [OF yields_query_strings] yields_ret yields_opt
        simp: catalogs_ok_def)
qed (simp add: list_catalogs_def catalogs_ok_def yields_ret)

lemma yields_list_schemas:
  assumes "lib_fits L"
  shows "yields k (\<lambda>names. \<forall>n\<in>set names. name_matches (lib_unicode L) db_schema n)
     (list_schemas L k ctx catalog db_schema)"
  unfolding list_schemas_def Let_def
  using assms
  by (intro yields_catch yields_bind [where P = "\<lambda>xs. True"] yields_query_strings yields_ret
      yields_opt [OF filter_by_pattern_returned])
    (auto simp: lib_fits_def)

lemma yields_get_table_schema:
  fixes L :: "'srv libs"
  shows "yields k (\<lambda>sc. True) (get_table_schema L k ctx cat sch table)"
  unfolding yields_def
proof (intro allI impI)
  fix W :: "'srv world" assume "conn_client k W \<noteq> None"
  then obtain c where c: "conn_client k W = Some c" by auto
  obtain res w where "schema_of L c ctx (''SELECT * FROM '' @ quote_qualified_name cat sch table)
      (wd_run W) = Some (res, w)" "same_runtime (wd_run W) w"
    using schema_of_spec by blast
  with c show "\<exists>res W'. get_table_schema L k ctx cat sch table W = Some (res, W') \<and> same_world W W' \<and>
      (\<forall>x. res = Inr x \<longrightarrow> True)"
    by (simp add: get_table_schema_def same_world_def)
qed

text \<open>What a row of each level promises about the filters and the depth.\<close>

definition table_ok :: "unicode \<Rightarrow> int \<Rightarrow> string option \<Rightarrow> string option \<Rightarrow> string list \<Rightarrow> table_row \<Rightarrow> bool"
  where
  "table_ok U depth table_name column_name table_types t \<longleftrightarrow>
     name_matches U table_name (ta_name t) \<and> ta_type t \<in> {''TABLE'', ''TEMPORARY''} \<and>
     table_type_allowed U (ta_type t) table_types \<and>
     (case ta_columns t of
        None \<Rightarrow> depth \<noteq> depth_columns
      | Some cols \<Rightarrow> depth = depth_columns \<and> (\<forall>c\<in>set cols. name_matches U column_name (co_name c)))"

definition db_schema_ok ::
  "unicode \<Rightarrow> int \<Rightarrow> string option \<Rightarrow> string option \<Rightarrow> string option \<Rightarrow> string list \<Rightarrow> db_schema_row \<Rightarrow> bool"
  where
  "db_schema_ok U depth db_schema table_name column_name table_types s \<longleftrightarrow>
     name_matches U db_schema (ds_name s) \<and>
     (case ds_tables s of
        None \<Rightarrow> depth = depth_db_schemas
      | Some ts \<Rightarrow> depth \<noteq> depth_db_schemas \<and>
          (\<forall>t\<in>set ts. table_ok U depth table_name column_name table_types t))"

definition catalog_ok ::
  "unicode \<Rightarrow> int \<Rightarrow> string option \<Rightarrow> string option \<Rightarrow> string option \<Rightarrow> string list \<Rightarrow> catalog_row \<Rightarrow> bool"
  where
  "catalog_ok U depth db_schema table_name column_name table_types c \<longleftrightarrow>
     (case ca_schemas c of
        None \<Rightarrow> depth = depth_catalogs
      | Some ss \<Rightarrow> depth \<noteq> depth_catalogs \<and>
          (\<forall>s\<in>set ss. db_schema_ok U depth db_schema table_name column_name table_types s))"

lemma list_all2_ball_right: "list_all2 (\<lambda>x y. Q y) xs ys \<Longrightarrow> \<forall>y\<in>set ys. Q y"
  by (auto simp: list_all2_conv_all_nth in_set_conv_nth)

lemma list_all2_map_right: "list_all2 (\<lambda>x y. f y = x) xs ys \<Longrightarrow> map f ys = xs"
  by (induction rule: list_all2_induct) simp_all

lemma yields_append_table:
  assumes "lib_fits L" "name_matches (lib_unicode L) table_name (te_name te)"
    "te_type te \<in> {''TABLE'', ''TEMPORARY''}"
    "table_type_allowed (lib_unicode L) (te_type te) table_types"
  shows "yields k (table_ok (lib_unicode L) depth table_name column_name table_types)
    (append_table L k ctx depth catalog sch column_name te)"
proof (cases "depth = depth_columns")
  case True
  have "yields k (\<lambda>cols. \<forall>c\<in>set cols. name_matches (lib_unicode L) column_name (co_name c))
      (append_columns L k ctx catalog sch (te_name te) column_name)"
    unfolding append_columns_def
    using assms(1)
    by (intro yields_bind [OF yields_get_table_schema] yields_opt [OF column_rows_returned])
      (auto simp: lib_fits_def)
  then have "yields k (\<lambda>cols. \<forall>c\<in>set cols. name_matches (lib_unicode L) column_name (co_name c))
      (act_catch (append_columns L k ctx catalog sch (te_name te) column_name) (act_ret []))"
    by (rule yields_catch) (simp add: yields_ret)
  then show ?thesis using True assms
    by (auto simp: append_table_def table_ok_def intro!: yields_bind yields_ret)
next
  case False
  then show ?thesis using assms by (simp add: append_table_def yields_ret table_ok_def)
qed

lemma yields_append_tables:
  assumes "lib_fits L"
  shows "yields k (\<lambda>ts. \<forall>t\<in>set ts. table_ok (lib_unicode L) depth table_name column_name table_types t)
    (append_tables L k ctx depth catalog sch table_name column_name table_types)"
  unfolding append_tables_def
  by (rule yields_bind [OF yields_list_tables [OF assms]],
      rule yields_weaken [OF yields_each [where
        Q = "\<lambda>te. table_ok (lib_unicode L) depth table_name column_name table_types"]])
    (auto intro!: yields_append_table [OF assms] dest: list_all2_ball_right)

lemma yields_append_db_schema:
  assumes "lib_fits L" "name_matches (lib_unicode L) db_schema sch"
  shows "yields k (db_schema_ok (lib_unicode L) depth db_schema table_name column_name table_types)
    (append_db_schema L k ctx depth catalog table_name column_name table_types sch)"
proof (cases "depth = depth_db_schemas")
  case False
  then show ?thesis using assms
    by (auto simp: append_db_schema_def db_schema_ok_def
        intro!: yields_bind [OF yields_append_tables] yields_ret)
qed (use assms in \<open>simp add: append_db_schema_def db_schema_ok_def yields_ret\<close>)

lemma yields_append_catalog:
  assumes "lib_fits L"
  shows "yields k (\<lambda>c. ca_name c = cat \<and>
      catalog_ok (lib_unicode L) depth db_schema table_name column_name table_types c)
    (append_catalog L k ctx depth db_schema table_name column_name table_types cat)"
proof (cases "depth = depth_catalogs")
  case False
  have "yields k (\<lambda>ss. \<forall>s\<in>set ss. db_schema_ok (lib_unicode L) depth db_schema table_name column_name
        table_types s)
      (append_db_schemas L k ctx depth cat db_schema table_name column_name table_types)"
    unfolding append_db_schemas_def
    by (rule yields_bind [OF yields_list_schemas [OF assms]],
        rule yields_weaken [OF yields_each [where Q = "\<lambda>sch. db_schema_ok (lib_unicode L) depth
          db_schema table_name column_name table_types"]])
      (auto intro!: yields_append_db_schema [OF assms] dest: list_all2_ball_right)
  then show ?thesis using False
    by (auto simp: append_catalog_def catalog_ok_def intro!: yields_bind yields_ret)
qed (simp add: append_catalog_def catalog_ok_def yields_ret)

definition objects_ok ::
  "unicode \<Rightarrow> int \<Rightarrow> string option \<Rightarrow> string option \<Rightarrow> string option \<Rightarrow> string option \<Rightarrow> string list \<Rightarrow>
     catalog_row list \<Rightarrow> bool" where
  "objects_ok U depth catalog db_schema table_name column_name table_types rows \<longleftrightarrow>
     catalogs_ok U catalog (map ca_name rows) \<and>
     (\<forall>c\<in>set rows. catalog_ok U depth db_schema table_name column_name table_types c)"

lemma yields_build_objects:
  assumes "lib_fits L"
  shows "yields k (objects_ok (lib_unicode L) depth catalog db_schema table_name column_name table_types)
    (build_objects L k ctx depth catalog db_schema table_name column_name table_types)"
  unfolding build_objects_def
proof (rule yields_bind [OF yields_list_catalogs [OF assms]])
  fix cats assume cats: "catalogs_ok (lib_unicode L) catalog cats"
  let ?Q = "\<lambda>cat c. ca_name c = cat \<and>
      catalog_ok (lib_unicode L) depth db_schema table_name column_name table_types c"
  show "yields k (objects_ok (lib_unicode L) depth catalog db_schema table_name column_name table_types)
      (act_each (append_catalog L k ctx depth db_schema table_name column_name table_types) cats)"
  proof (rule yields_weaken [OF yields_each [where Q = ?Q]])
    fix rows assume "list_all2 ?Q cats rows"
    then have "map ca_name rows = cats" "\<forall>c\<in>set rows. catalog_ok (lib_unicode L) depth db_schema
        table_name column_name table_types c"
      by (auto intro!: list_all2_map_right list_all2_ball_right elim!: list_all2_mono)
    then show "objects_ok (lib_unicode L) depth catalog db_schema table_name column_name table_types rows"
      using cats by (simp add: objects_ok_def)
  qed (rule yields_append_catalog [OF assms])
qed

lemma get_objects_open:
  assumes "lib_fits L" "conn_client k W \<noteq> None"
  shows "\<exists>res W'. get_objects L k ctx depth catalog db_schema table_name column_name table_types W =
      Some (res, W') \<and> same_world W W' \<and>
      (\<forall>rows. res = Inr rows \<longrightarrow>
        objects_ok (lib_unicode L) depth catalog db_schema table_name column_name table_types rows)"
proof -
  have "get_objects L k ctx depth catalog db_schema table_name column_name table_types W =
      build_objects L k ctx depth catalog db_schema table_name column_name table_types W"
    using assms(2) by (auto simp: get_objects_def)
  then show ?thesis
    using yields_build_objects [OF assms(1)] assms(2) unfolding yields_def by metis
qed

text \<open>The ordinal of a column is its 1-based position in the table, whatever the filter keeps.\<close>

lemma column_rows_ordinal:
  assumes "column_rows U column_name fs = Some rows" "c \<in> set rows" "length fs < 2 ^ 31"
  shows "1 \<le> sint (co_ordinal c)" "sint (co_ordinal c) \<le> int (length fs)"
    "co_name c = fld_name (fs ! nat (sint (co_ordinal c) - 1))"
proof -
  obtain i where i: "i < length fs" "c = \<lparr>co_name = fld_name (fs ! i), co_ordinal = word_of_int (int i + 1)\<rparr>"
  proof -
    obtain js where js: "filter_opt (\<lambda>i. matches_pattern U column_name (fld_name (fs ! i))) [0..<length fs] = Some js"
        "rows = map (\<lambda>i. \<lparr>co_name = fld_name (fs ! i), co_ordinal = word_of_int (int i + 1)\<rparr>) js"
      using assms(1) by (auto simp: column_rows_def)
    obtain i where i: "i \<in> set js" "c = \<lparr>co_name = fld_name (fs ! i), co_ordinal = word_of_int (int i + 1)\<rparr>"
      using assms(2) js(2) by (auto simp only: set_map image_iff)
    moreover have "i < length fs" using filter_opt_subset [OF js(1)] i(1) by auto
    ultimately show ?thesis using that by blast
  qed
  have "sint (word_of_int (int i + 1) :: int32) = int i + 1"
    by (rule sint_word_of_int_id) (use i assms(3) in simp_all)
  then have "sint (co_ordinal c) = int i + 1" using i by simp
  then show "1 \<le> sint (co_ordinal c)" "sint (co_ordinal c) \<le> int (length fs)"
    "co_name c = fld_name (fs ! nat (sint (co_ordinal c) - 1))"
    using i by simp_all
qed

section \<open>Properties\<close>

lemma sample_batches:
  "b \<in> set (fst (delivered sample_libs es)) \<Longrightarrow>
     (\<exists>v. b = sample_batch v) \<and> first_schema sample_libs es = Some sample_schema"
proof (induction es)
  case (Cons ev es)
  then show ?case
    by (cases ev) (auto simp: sample_libs_def sample_decode_def read_failed_def
        split: option.splits if_splits)
qed simp

lemma sample_lib_fits: "lib_fits sample_libs"
proof -
  have "fits_schema (stream_schema sample_libs es) b \<and> stream_schema sample_libs es \<noteq> []"
    if "b \<in> set (fst (delivered sample_libs es))" for es b
    using sample_batches [OF that]
    by (auto simp: fits_schema_def stream_schema_def sample_schema_def sample_batch_def)
  moreover have "lib_unicode sample_libs = ascii_tables" by (simp add: sample_libs_def)
  ultimately show ?thesis using ascii_orbits by (auto simp: lib_fits_def answered_with_def)
qed

text \<open>A service with answers of several widths: \<^verbatim>\<open>SHOW CATALOGS\<close> and \<^verbatim>\<open>SHOW NAMESPACES\<close> have one column,
  \<^verbatim>\<open>SHOW TABLES\<close> has Spark's three, and any other statement has none.\<close>

definition spark_decode :: "string \<Rightarrow> string + ipc_stream" where
  "spark_decode data =
    (if data = ''tables'' then Inr
       \<lparr>ipc_schema = [Field ''namespace'' TString True, Field ''tableName'' TString True, Field ''isTemporary'' TBool True],
        ipc_records = [\<lparr>rb_columns = [AString [Some ''db''], AString [Some ''t''], ABoolean [Some False]], rb_rows = 1\<rparr>],
        ipc_error = None\<rparr>
     else if data = ''names'' then Inr
       \<lparr>ipc_schema = [Field ''name'' TString True],
        ipc_records = [\<lparr>rb_columns = [AString [Some ''db'']], rb_rows = 1\<rparr>], ipc_error = None\<rparr>
     else Inr \<lparr>ipc_schema = [], ipc_records = [\<lparr>rb_columns = [], rb_rows = 0\<rparr>], ipc_error = None\<rparr>)"

definition spark_answer :: "string \<Rightarrow> string" where
  "spark_answer sql = (if prefix ''SHOW TABLES'' sql then ''tables''
     else if prefix ''SHOW '' sql then ''names'' else ''nothing'')"

definition spark_libs :: "nat libs" where
  "spark_libs = sample_libs\<lparr>lib_decode := spark_decode,
     svc_execute_plan := \<lambda>md q n. (Inr [sample_resp ''srv'' (Some (spark_answer (query_of (xp_plan q))))], n)\<rparr>"

lemma spark_lib_fits: "lib_fits spark_libs"
proof -
  have "fits_schema sc b \<and> (prefix ''SHOW TABLES'' sql \<longrightarrow> sc \<noteq> [])" if "answered_with spark_libs sql sc b" for sql sc b
    using that
    by (auto simp: answered_with_def spark_libs_def sample_resp_def query_of_def sql_plan_def spark_answer_def
        spark_decode_def fits_schema_def stream_schema_def read_failed_def)
  moreover have "lib_unicode spark_libs = ascii_tables" by (simp add: spark_libs_def sample_libs_def)
  ultimately show ?thesis using ascii_orbits by (simp add: lib_fits_def)
qed



text \<open>The ordinal position of a reported column is its 1-based position in the table, whichever
  columns the name filter leaves out.\<close>

theorem column_ordinals:
  assumes "column_rows U column_name fs = Some rows" "c \<in> set rows" "length fs < 2 ^ 31"
  shows "1 \<le> sint (co_ordinal c) \<and> sint (co_ordinal c) \<le> int (length fs) \<and>
    co_name c = fld_name (fs ! nat (sint (co_ordinal c) - 1))"
  using column_rows_ordinal [OF assms] by blast

theorem column_ordinals_witness:
  "co_name \<lparr>co_name = ''b'', co_ordinal = 2\<rparr> =
     fld_name ([Field ''a'' TString True, Field ''b'' TInt32 True] !
       nat (sint (co_ordinal \<lparr>co_name = ''b'', co_ordinal = 2\<rparr>) - 1))"
  using column_ordinals [of ascii_tables None "[Field ''a'' TString True, Field ''b'' TInt32 True]" _
      "\<lparr>co_name = ''b'', co_ordinal = 2\<rparr>"]
  by (simp add: column_rows_def matches_pattern_def upt_rec)

end
