(* ===== verification/Info_Tables.thy ===== *)
theory Info_Tables
  imports Catalog
begin

text \<open>
  \<^verbatim>\<open>driver/spark/metadata.go\<close>: the tables of \<^verbatim>\<open>GetTableTypes\<close> and \<^verbatim>\<open>GetInfo\<close> and the Arrow schemas of
  the metadata results. \<^verbatim>\<open>arrow.PkgVersion\<close> and the order in which \<^verbatim>\<open>range\<close> visits the codes of a
  map are arguments.
\<close>

section \<open>Table types\<close>

definition table_types_schema :: schema where
  "table_types_schema = [Field ''table_type'' TString False]"

definition spark_table_types :: "string list" where
  "spark_table_types = [''TABLE'', ''VIEW'', ''TEMPORARY'']"

definition build_table_types :: record_batch where
  "build_table_types = \<lparr>rb_columns = [AString (map Some spark_table_types)],
     rb_rows = length spark_table_types\<rparr>"

definition get_table_types :: "nat \<Rightarrow> 'srv world \<Rightarrow> go_error + (schema \<times> record_batch)" where
  "get_table_types k W = (case conn_client k W of
     None \<Rightarrow> Inl err_conn_closed
   | Some c \<Rightarrow> Inr (table_types_schema, build_table_types))"

section \<open>GetInfo\<close>

text \<open>The member of the dense union that is used is \<^verbatim>\<open>string_value\<close>, with type code 0.\<close>

definition get_info_value_union :: arrow_type where
  "get_info_value_union = TDenseUnion
    [(Field ''string_value'' TString False, 0), (Field ''bool_value'' TBool False, 1),
     (Field ''int64_value'' TInt64 False, 2), (Field ''int32_bitmask'' TInt32 False, 3),
     (Field ''string_list'' (TList TString) False, 4),
     (Field ''int32_to_int32_list_map'' (TMap TInt32 (TList TInt32)) False, 5)]"

definition get_info_schema :: schema where
  "get_info_schema = [Field ''info_name'' TUint32 False, Field ''info_value'' get_info_value_union True]"

definition info_vendor_name :: int32 where "info_vendor_name = 0"
definition info_vendor_version :: int32 where "info_vendor_version = 1"
definition info_vendor_arrow_version :: int32 where "info_vendor_arrow_version = 2"
definition info_driver_name :: int32 where "info_driver_name = 100"
definition info_driver_version :: int32 where "info_driver_version = 101"
definition info_driver_arrow_version :: int32 where "info_driver_arrow_version = 102"

lemmas info_codes = info_vendor_name_def info_vendor_version_def info_vendor_arrow_version_def
  info_driver_name_def info_driver_version_def info_driver_arrow_version_def

definition driver_name :: string where "driver_name = ''ADBC Spark Connect Driver (Go)''"
definition vendor_name :: string where "vendor_name = ''Apache Spark''"
definition driver_version :: string where "driver_version = ''0.3.0''"

definition string_info :: "string \<Rightarrow> (int32 \<rightharpoonup> string)" where
  "string_info arrow_version =
    [info_vendor_name \<mapsto> vendor_name, info_vendor_arrow_version \<mapsto> arrow_version,
     info_driver_name \<mapsto> driver_name, info_driver_version \<mapsto> driver_version,
     info_driver_arrow_version \<mapsto> arrow_version]"

text \<open>Each row is the code and its string.\<close>

definition info_rows :: "(int32 \<rightharpoonup> string) \<Rightarrow> int32 list \<Rightarrow> (int32 \<times> string) list" where
  "info_rows m want = map (\<lambda>code. (code, the (m code))) (filter (\<lambda>code. m code \<noteq> None) want)"

definition build_info ::
  "'srv libs \<Rightarrow> string \<Rightarrow> ((int32 \<rightharpoonup> string) \<Rightarrow> int32 list) \<Rightarrow> nat \<Rightarrow> metadata \<Rightarrow> int32 list \<Rightarrow>
     'srv runtime \<Rightarrow> (int32 \<times> string) list \<times> 'srv runtime" where
  "build_info L arrow_version order c ctx codes w =
    (let want_vendor_version = (codes = [] \<or> info_vendor_version \<in> set codes);
         (info, w') =
           (if want_vendor_version then
              (case server_spark_version L c ctx w of
                 (Inr v, w') \<Rightarrow>
                   (if v \<noteq> [] then (string_info arrow_version)(info_vendor_version \<mapsto> v)
                    else string_info arrow_version, w')
               | (Inl e, w') \<Rightarrow> (string_info arrow_version, w'))
            else (string_info arrow_version, w));
         want = (if codes = [] then order info else codes)
     in (info_rows info want, w'))"

definition get_info ::
  "'srv libs \<Rightarrow> string \<Rightarrow> ((int32 \<rightharpoonup> string) \<Rightarrow> int32 list) \<Rightarrow> nat \<Rightarrow> metadata \<Rightarrow> int32 list \<Rightarrow>
     'srv world \<Rightarrow> (go_error + (int32 \<times> string) list) \<times> 'srv world" where
  "get_info L arrow_version order k ctx codes W = (case conn_client k W of
     None \<Rightarrow> (Inl err_conn_closed, W)
   | Some c \<Rightarrow>
       (case build_info L arrow_version order c ctx codes (wd_run W) of
          (rows, w) \<Rightarrow> (Inr rows, W\<lparr>wd_run := w\<rparr>)))"

section \<open>The schemas of GetObjects\<close>

definition usage_schema :: arrow_type where
  "usage_schema = TStruct
    [Field ''fk_catalog'' TString True, Field ''fk_db_schema'' TString True,
     Field ''fk_table'' TString False, Field ''fk_column_name'' TString False]"

definition constraint_schema :: arrow_type where
  "constraint_schema = TStruct
    [Field ''constraint_name'' TString True, Field ''constraint_type'' TString False,
     Field ''constraint_column_names'' (TList TString) False,
     Field ''constraint_column_usage'' (TList usage_schema) True]"

definition column_schema :: arrow_type where
  "column_schema = TStruct
    [Field ''column_name'' TString False, Field ''ordinal_position'' TInt32 True,
     Field ''remarks'' TString True, Field ''xdbc_data_type'' TInt16 True,
     Field ''xdbc_type_name'' TString True, Field ''xdbc_column_size'' TInt32 True,
     Field ''xdbc_decimal_digits'' TInt16 True, Field ''xdbc_num_prec_radix'' TInt16 True,
     Field ''xdbc_nullable'' TInt16 True, Field ''xdbc_column_def'' TString True,
     Field ''xdbc_sql_data_type'' TInt16 True, Field ''xdbc_datetime_sub'' TInt16 True,
     Field ''xdbc_char_octet_length'' TInt32 True, Field ''xdbc_is_nullable'' TString True,
     Field ''xdbc_scope_catalog'' TString True, Field ''xdbc_scope_schema'' TString True,
     Field ''xdbc_scope_table'' TString True, Field ''xdbc_is_autoincrement'' TBool True,
     Field ''xdbc_is_generatedcolumn'' TBool True]"

definition table_schema :: arrow_type where
  "table_schema = TStruct
    [Field ''table_name'' TString False, Field ''table_type'' TString False,
     Field ''table_columns'' (TList column_schema) True,
     Field ''table_constraints'' (TList constraint_schema) True]"

definition db_schema_schema :: arrow_type where
  "db_schema_schema = TStruct
    [Field ''db_schema_name'' TString True, Field ''db_schema_tables'' (TList table_schema) True]"

definition get_objects_schema :: schema where
  "get_objects_schema =
    [Field ''catalog_name'' TString True, Field ''catalog_db_schemas'' (TList db_schema_schema) True]"

section \<open>What GetInfo returns\<close>

text \<open>The codes the driver can answer; the version of the server only when it gives one.\<close>

lemma string_info_dom:
  "dom (string_info v) = {info_vendor_name, info_vendor_arrow_version, info_driver_name,
     info_driver_version, info_driver_arrow_version}"
  by (auto simp: string_info_def)

lemma string_info_version: "string_info v info_vendor_version = None"
  by (simp add: string_info_def info_codes)

definition known_info :: "int32 set" where
  "known_info = {info_vendor_name, info_vendor_version, info_vendor_arrow_version, info_driver_name,
     info_driver_version, info_driver_arrow_version}"

lemma server_spark_version_same:
  "same_runtime w (snd (server_spark_version L c ctx w))"
  by (simp add: server_spark_version_def same_runtime_def Let_def log_request_def case_prod_beta
      split: sum.split)

text \<open>The version as \<^verbatim>\<open>buildInfo\<close> sees it: no answer, or an empty one, counts as none.\<close>

definition version_answer :: "'srv libs \<Rightarrow> nat \<Rightarrow> metadata \<Rightarrow> 'srv runtime \<Rightarrow> string option" where
  "version_answer L c ctx w = (case fst (server_spark_version L c ctx w) of
     Inl e \<Rightarrow> None | Inr v \<Rightarrow> if v = [] then None else Some v)"

lemma build_info_requested:
  assumes "codes \<noteq> []"
  shows "map fst (fst (build_info L av order c ctx codes w)) =
      filter (\<lambda>code. code \<in> known_info \<and>
        (code = info_vendor_version \<longrightarrow> version_answer L c ctx w \<noteq> None)) codes"
    and "(code, v) \<in> set (fst (build_info L av order c ctx codes w)) \<Longrightarrow>
      (if code = info_vendor_version then version_answer L c ctx w = Some v
       else string_info av code = Some v)"
proof -
  define info where "info =
    (if info_vendor_version \<in> set codes then
       (case version_answer L c ctx w of
          Some v \<Rightarrow> (string_info av)(info_vendor_version \<mapsto> v) | None \<Rightarrow> string_info av)
     else string_info av)"
  have eq: "fst (build_info L av order c ctx codes w) = info_rows info codes"
    using assms
    by (auto simp: build_info_def info_def version_answer_def Let_def case_prod_beta
        split: sum.splits)
  have dom: "info code \<noteq> None \<longleftrightarrow> code \<in> known_info \<and>
      (code = info_vendor_version \<longrightarrow> version_answer L c ctx w \<noteq> None)"
    if "code \<in> set codes" for code
    using that string_info_dom [of av] string_info_version [of av]
    by (auto simp: info_def known_info_def info_codes dom_def split: option.splits)
  show "map fst (fst (build_info L av order c ctx codes w)) =
      filter (\<lambda>code. code \<in> known_info \<and>
        (code = info_vendor_version \<longrightarrow> version_answer L c ctx w \<noteq> None)) codes"
    unfolding eq info_rows_def using dom by (simp add: o_def cong: filter_cong)
  show "(code, v) \<in> set (fst (build_info L av order c ctx codes w)) \<Longrightarrow>
      (if code = info_vendor_version then version_answer L c ctx w = Some v
       else string_info av code = Some v)"
    unfolding eq info_rows_def using string_info_dom [of av] string_info_version [of av]
    by (auto simp: info_def info_codes split: option.splits if_splits)
qed

section \<open>Properties\<close>

text \<open>C28: \<^verbatim>\<open>GetInfo\<close> with a list of codes gives one row per requested code it knows, in the order of
  the request, codes it does not know left out; the row of the vendor version is there exactly
  when the server gave a version, and a failing version call fails nothing else.\<close>

theorem get_info_rows:
  assumes "codes \<noteq> []" "conn_client k W = Some c"
  shows "\<exists>rows W'. get_info L av order k ctx codes W = (Inr rows, W') \<and>
    map fst rows = filter (\<lambda>code. code \<in> known_info \<and>
      (code = info_vendor_version \<longrightarrow> version_answer L c ctx (wd_run W) \<noteq> None)) codes \<and>
    (\<forall>row\<in>set rows. if fst row = info_vendor_version
       then version_answer L c ctx (wd_run W) = Some (snd row)
       else string_info av (fst row) = Some (snd row))"
proof -
  obtain rows w where b: "build_info L av order c ctx codes (wd_run W) = (rows, w)" by fastforce
  have "get_info L av order k ctx codes W = (Inr rows, W\<lparr>wd_run := w\<rparr>)"
    using assms(2) b by (simp add: get_info_def)
  then show ?thesis
    using build_info_requested(1) [OF assms(1), of L av order c ctx "wd_run W"]
      build_info_requested(2) [OF assms(1), of _ _ L av order c ctx "wd_run W"] b
    by force
qed

theorem get_info_rows_witness:
  "\<exists>rows W'. get_info sample_libs ''18.0.0'' (\<lambda>m. []) 0 [] [info_driver_name, 42] sample_world = (Inr rows, W') \<and>
     map fst rows = [info_driver_name]"
  using get_info_rows [of "[info_driver_name, 42]" 0 sample_world 0 sample_libs "''18.0.0''" "\<lambda>m. []" "[]"]
  by (fastforce simp: sample_world_def conn_client_def known_info_def info_codes)

end
