(* ===== verification/Go_Fmt.thy ===== *)
theory Go_Fmt
  imports Go_Strings
begin

text \<open>
  Go's \<^verbatim>\<open>fmt.Sprintf(format)\<close> with a format and no operands, as \<^verbatim>\<open>setErr\<close> of the C layer calls it on
  texts that come from elsewhere. A directive then prints a complaint in its place. The stages of
  a directive are those of \<^verbatim>\<open>doPrintf\<close>: flags, argument index, width, precision, argument index,
  verb; each takes the rest of the format and gives what it leaves of it.
\<close>

section \<open>The stages of a directive\<close>

definition is_flag :: "char \<Rightarrow> bool" where
  "is_flag c \<longleftrightarrow> c \<in> set ''#0+- ''"

definition is_digit :: "char \<Rightarrow> bool" where
  "is_digit c \<longleftrightarrow> byte_in 48 57 c"

text \<open>\<^verbatim>\<open>parsenum\<close>: whether there was a number; a crazy long one takes the rest of the format.\<close>

fun parse_num :: "bool \<Rightarrow> nat \<Rightarrow> string \<Rightarrow> bool \<times> string" where
  "parse_num isnum n [] = (isnum, [])"
| "parse_num isnum n (c # s) =
    (if is_digit c then
       (if n > 1000000 then (False, []) else parse_num True (n * 10 + (of_char c - 48)) s)
     else (isnum, c # s))"

text \<open>\<^verbatim>\<open>argNumber\<close>. Without operands every index is a bad one; it is \<^verbatim>\<open>found\<close> when it is a number.
  The result is the rest, \<^verbatim>\<open>found\<close>, and whether an index was tried.\<close>

definition arg_number :: "string \<Rightarrow> string \<times> bool \<times> bool" where
  "arg_number s =
    (case s of
       [] \<Rightarrow> (s, False, False)
     | c # t \<Rightarrow>
         if c \<noteq> CHR ''['' then (s, False, False)
         else if length s < 3 \<or> CHR '']'' \<notin> set t then (t, False, True)
         else (case parse_num False 0 (takeWhile (\<lambda>x. x \<noteq> CHR '']'') t) of
                 (isnum, rest) \<Rightarrow>
                   (tl (dropWhile (\<lambda>x. x \<noteq> CHR '']'') t), isnum \<and> rest = [], True)))"

text \<open>Width: what it prints, whether the directive turns bad, \<^verbatim>\<open>afterIndex\<close>, the rest.\<close>

definition width_stage :: "string \<Rightarrow> bool \<Rightarrow> string \<times> bool \<times> bool \<times> string" where
  "width_stage s after_index =
    (case s of
       CHR ''*'' # t \<Rightarrow> (''%!(BADWIDTH)'', False, False, t)
     | _ \<Rightarrow> (case parse_num False 0 s of
         (isnum, t) \<Rightarrow> ([], after_index \<and> isnum, after_index, t)))"

definition precision_stage :: "string \<Rightarrow> bool \<Rightarrow> string \<times> bool \<times> bool \<times> string" where
  "precision_stage s after_index =
    (case s of
       CHR ''.'' # t \<Rightarrow>
         (case arg_number t of (t1, found, tried) \<Rightarrow>
           (case t1 of
              CHR ''*'' # t2 \<Rightarrow> (''%!(BADPREC)'', after_index \<or> tried, False, t2)
            | _ \<Rightarrow> (case parse_num False 0 t1 of
                (isnum, t2) \<Rightarrow> ([], after_index \<or> tried, found, t2))))
     | _ \<Rightarrow> ([], False, after_index, s))"

definition verb_stage :: "string \<Rightarrow> bool \<Rightarrow> string \<times> string" where
  "verb_stage s bad =
    (if s = [] then (''%!(NOVERB)'', [])
     else (case decode_rune s of (verb, width) \<Rightarrow>
       ((if verb = 0x25 then ''%''
         else if bad then ''%!'' @ encode_rune verb @ ''(BADINDEX)''
         else ''%!'' @ encode_rune verb @ ''(MISSING)''), drop width s)))"

definition directive :: "string \<Rightarrow> string \<times> string" where
  "directive s =
    (case arg_number (dropWhile is_flag s) of (s1, found1, tried1) \<Rightarrow>
      (case width_stage s1 found1 of (out2, bad2, after2, s2) \<Rightarrow>
        (case precision_stage s2 after2 of (out3, bad3, after3, s3) \<Rightarrow>
          (case (if after3 then (s3, True, False) else arg_number s3) of (s4, found4, tried4) \<Rightarrow>
            (case verb_stage s4 (tried1 \<or> bad2 \<or> bad3 \<or> tried4) of (out5, s5) \<Rightarrow>
              (out2 @ out3 @ out5, s5))))))"

section \<open>Sprintf\<close>

lemma parse_num_shorter: "length (snd (parse_num b n s)) \<le> length s"
  by (induction b n s rule: parse_num.induct) auto

lemma arg_number_shorter: "length (fst (arg_number s)) \<le> length s"
proof (cases s)
  case (Cons c t)
  have "length (tl (dropWhile (\<lambda>x. x \<noteq> CHR '']'') t)) \<le> length t"
    using length_dropWhile_le [of "\<lambda>x. x \<noteq> CHR '']''" t] by simp
  then show ?thesis using Cons by (auto simp: arg_number_def split: prod.split)
qed (simp add: arg_number_def)

lemma width_stage_shorter: "length (snd (snd (snd (width_stage s b)))) \<le> length s"
  using parse_num_shorter [of False 0 s]
  by (auto simp: width_stage_def split: list.split prod.split char.split bool.split)

lemma precision_stage_shorter: "length (snd (snd (snd (precision_stage s b)))) \<le> length s"
proof (cases "\<exists>t. s = CHR ''.'' # t")
  case True
  then obtain t where s: "s = CHR ''.'' # t" by blast
  obtain t1 found tried where a: "arg_number t = (t1, found, tried)" by (metis prod_cases3)
  then have "length t1 \<le> length t" using arg_number_shorter [of t] by simp
  then show ?thesis using parse_num_shorter [of False 0 t1] s a
    by (auto simp: precision_stage_def split: list.split prod.split char.split bool.split)
qed (auto simp: precision_stage_def split: list.split char.split bool.split)

lemma verb_stage_shorter: "length (snd (verb_stage s b)) \<le> length s"
  by (simp add: verb_stage_def split: prod.split)

lemma directive_shorter: "length (snd (directive s)) \<le> length s"
proof -
  obtain s1 f1 t1 where 1: "arg_number (dropWhile is_flag s) = (s1, f1, t1)" by (metis prod_cases3)
  obtain o2 b2 a2 s2 where 2: "width_stage s1 f1 = (o2, b2, a2, s2)" by (metis prod_cases4)
  obtain o3 b3 a3 s3 where 3: "precision_stage s2 a2 = (o3, b3, a3, s3)" by (metis prod_cases4)
  obtain s4 f4 t4 where 4: "(if a3 then (s3, True, False) else arg_number s3) = (s4, f4, t4)"
    by (metis prod_cases3)
  have "length s4 \<le> length s3"
    using 4 arg_number_shorter [of s3] by (auto split: if_splits)
  also have "length s3 \<le> length s2" using precision_stage_shorter [of s2 a2] 3 by simp
  also have "length s2 \<le> length s1" using width_stage_shorter [of s1 f1] 2 by simp
  also have "length s1 \<le> length (dropWhile is_flag s)"
    using arg_number_shorter [of "dropWhile is_flag s"] 1 by simp
  also have "length (dropWhile is_flag s) \<le> length s" by (rule length_dropWhile_le)
  finally have "length s4 \<le> length s" .
  moreover have "length (snd (verb_stage s4 (t1 \<or> b2 \<or> b3 \<or> t4))) \<le> length s4"
    by (rule verb_stage_shorter)
  moreover have "snd (directive s) = snd (verb_stage s4 (t1 \<or> b2 \<or> b3 \<or> t4))"
    using 1 2 3 4 by (auto simp: directive_def case_prod_beta split: if_splits)
  ultimately show ?thesis by simp
qed

function sprintf0 :: "string \<Rightarrow> string" where
  "sprintf0 [] = []"
| "sprintf0 (c # s) =
    (if c = CHR ''%'' then fst (directive s) @ sprintf0 (snd (directive s)) else c # sprintf0 s)"
  by pat_completeness auto

termination sprintf0
  by (relation "measure length") (use directive_shorter in \<open>auto simp: less_Suc_eq_le\<close>)

text \<open>A text without a percent sign prints as itself.\<close>

lemma sprintf0_plain: "CHR ''%'' \<notin> set s \<Longrightarrow> sprintf0 s = s"
  by (induction s) auto

lemma sprintf0_append_plain: "CHR ''%'' \<notin> set s \<Longrightarrow> sprintf0 (s @ t) = s @ sprintf0 t"
  by (induction s) auto

text \<open>A text with one percent sign never does: the directive has no verb \<^verbatim>\<open>%\<close>, so it prints a complaint.\<close>

lemma set_drop_stage: "set (tl (dropWhile P t)) \<subseteq> set t"
  by (induction t) auto

lemma parse_num_set: "set (snd (parse_num b n s)) \<subseteq> set s"
  by (induction b n s rule: parse_num.induct) auto

lemma arg_number_set: "set (fst (arg_number s)) \<subseteq> set s"
proof (cases s)
  case (Cons c t)
  then show ?thesis using set_drop_stage [of "\<lambda>x. x \<noteq> CHR '']''" t]
    by (auto simp: arg_number_def split: prod.split)
qed (simp add: arg_number_def)

lemma width_stage_cases:
  "(\<exists>t. s = CHR ''*'' # t \<and> width_stage s b = (''%!(BADWIDTH)'', False, False, t)) \<or>
   (\<exists>x y. width_stage s b = ([], x, y, snd (parse_num False 0 s)))"
proof (cases "\<exists>t. s = CHR ''*'' # t")
  case False
  then have "width_stage s b = (case parse_num False 0 s of (isnum, t) \<Rightarrow> ([], b \<and> isnum, b, t))"
    by (auto simp: width_stage_def simp del: parse_num.simps split: list.split char.split bool.split)
  then show ?thesis by (simp add: case_prod_beta)
qed (auto simp: width_stage_def)

lemma precision_stage_cases:
  "(\<exists>x y. precision_stage s b = ([], x, y, s)) \<or>
   (\<exists>t o1 x y t2. s = CHR ''.'' # t \<and> precision_stage s b = (o1, x, y, t2) \<and>
      (o1 = [] \<or> o1 = ''%!(BADPREC)'') \<and> set t2 \<subseteq> set t)"
proof (cases "\<exists>t. s = CHR ''.'' # t")
  case True
  then obtain t where s: "s = CHR ''.'' # t" by blast
  obtain t1 found tried where a: "arg_number t = (t1, found, tried)" by (metis prod_cases3)
  then have t1: "set t1 \<subseteq> set t" using arg_number_set [of t] by simp
  show ?thesis
  proof (cases "\<exists>t2. t1 = CHR ''*'' # t2")
    case True
    then show ?thesis using s a t1 by (auto simp: precision_stage_def)
  next
    case False
    then have "precision_stage s b = (case parse_num False 0 t1 of (isnum, t2) \<Rightarrow> ([], b \<or> tried, found, t2))"
      using s a by (auto simp: precision_stage_def simp del: parse_num.simps split: list.split char.split bool.split)
    then show ?thesis using s t1 parse_num_set [of False 0 t1] by (auto simp: case_prod_beta)
  qed
next
  case False
  then have "precision_stage s b = ([], False, b, s)"
    by (auto simp: precision_stage_def split: list.split char.split bool.split)
  then show ?thesis by blast
qed

lemma stage_sets:
  "set (snd (snd (snd (width_stage s b)))) \<subseteq> set s" "set (snd (snd (snd (precision_stage s b)))) \<subseteq> set s"
  using width_stage_cases [of s b] precision_stage_cases [of s b] parse_num_set [of False 0 s] by auto

lemma stage_outs:
  "fst (width_stage s b) = [] \<or> fst (width_stage s b) = ''%!(BADWIDTH)''"
  "fst (precision_stage s b) = [] \<or> fst (precision_stage s b) = ''%!(BADPREC)''"
  using width_stage_cases [of s b] precision_stage_cases [of s b] by auto

lemma list_case2:
  "(\<And>x y. P x y \<Longrightarrow> k \<le> fst (f x y)) \<Longrightarrow> k \<le> fst e \<Longrightarrow>
     k \<le> fst (case s of [] \<Rightarrow> e | [x] \<Rightarrow> e | x # y # r \<Rightarrow> if P x y then f x y else e)"
  by (auto split: list.split)

lemma list_case3:
  "(\<And>x y z. P x y z \<Longrightarrow> k \<le> fst (f x y z)) \<Longrightarrow> k \<le> fst e \<Longrightarrow>
     k \<le> fst (case s of [] \<Rightarrow> e | [x] \<Rightarrow> e | [x, y] \<Rightarrow> e | x # y # z # r \<Rightarrow> if P x y z then f x y z else e)"
  by (auto split: list.split)

lemma decode_rune_not_ascii:
  assumes "\<not> of_char c < (0x80::nat)"
  shows "0x80 \<le> fst (decode_rune (c # s))"
proof -
  define b0 where "b0 = (of_char c :: nat)"
  have two: "0x80 \<le> (b0 - 0xC0) * 64 + x" if "0xC2 \<le> b0" for x using that by simp
  have three: "0x80 \<le> (b0 - 0xE0) * 4096 + (c1 - 0x80) * 64 + x"
    if "0xE0 \<le> b0" "(if b0 = 0xE0 then 0xA0 else 0x80) \<le> c1" for c1 x
    using that by (cases "b0 = 0xE0") auto
  have four: "0x80 \<le> (b0 - 0xF0) * 262144 + (c1 - 0x80) * 4096 + y * 64 + x"
    if "0xF0 \<le> b0" "(if b0 = 0xF0 then 0x90 else 0x80) \<le> c1" for c1 x y
    using that by (cases "b0 = 0xF0") auto
  have err: "0x80 \<le> rune_error" by (simp add: rune_error_def)
  have b0: "\<not> b0 < 0x80" using assms by (simp add: b0_def)
  consider (2) "0xC2 \<le> b0" "b0 \<le> 0xDF" | (3) "0xE0 \<le> b0" "b0 \<le> 0xEF" | (4) "0xF0 \<le> b0" "b0 \<le> 0xF4"
    | (bad) "b0 < 0xC2 \<or> 0xF4 < b0" by linarith
  then show ?thesis
  proof cases
    case 2
    then show ?thesis using b0 err two [OF 2(1)]
      by (cases s) (auto simp only: decode_rune.simps b0_def [symmetric] Let_def if_False if_True list.case fst_conv
          simp_thms split: if_split)
  next
    case 3
    then have "\<not> (0xC2 \<le> b0 \<and> b0 \<le> 0xDF)" by simp
    then show ?thesis using b0 3 err
      by (simp only: decode_rune.simps b0_def [symmetric] Let_def if_False if_True simp_thms)
        (rule list_case2, auto simp only: byte_in_def fst_conv intro!: three)
  next
    case 4
    then have "\<not> (0xC2 \<le> b0 \<and> b0 \<le> 0xDF)" "\<not> (0xE0 \<le> b0 \<and> b0 \<le> 0xEF)" by simp_all
    then show ?thesis using b0 4 err
      by (simp only: decode_rune.simps b0_def [symmetric] Let_def if_False if_True simp_thms)
        (rule list_case3, auto simp only: byte_in_def fst_conv intro!: four)
  next
    case bad
    then have "\<not> (0xC2 \<le> b0 \<and> b0 \<le> 0xDF)" "\<not> (0xE0 \<le> b0 \<and> b0 \<le> 0xEF)" "\<not> (0xF0 \<le> b0 \<and> b0 \<le> 0xF4)"
      by auto
    then show ?thesis using b0 err
      by (simp only: decode_rune.simps b0_def [symmetric] Let_def if_False fst_conv)
  qed
qed

lemma verb_stage_out:
  assumes "CHR ''%'' \<notin> set s"
  shows "prefix ''%!'' (fst (verb_stage s b))"
proof (cases s)
  case (Cons c t)
  have "c \<noteq> CHR ''%''" using assms Cons by auto
  have "fst (decode_rune s) \<noteq> 0x25"
  proof (cases "of_char c < (0x80::nat)")
    case True
    have "of_char c \<noteq> (of_char (CHR ''%'') :: nat)" using \<open>c \<noteq> CHR ''%''\<close> by (metis char_of_char)
    then show ?thesis using True Cons by simp
  next
    case False
    then show ?thesis using decode_rune_not_ascii [of c t] Cons by simp
  qed
  then show ?thesis using Cons by (simp add: verb_stage_def case_prod_beta)
qed (simp add: verb_stage_def)

lemma directive_complains:
  assumes "CHR ''%'' \<notin> set s"
  shows "prefix ''%!'' (fst (directive s))"
proof -
  obtain s1 f1 t1 where 1: "arg_number (dropWhile is_flag s) = (s1, f1, t1)" by (metis prod_cases3)
  obtain o2 b2 a2 s2 where 2: "width_stage s1 f1 = (o2, b2, a2, s2)" by (metis prod_cases4)
  obtain o3 b3 a3 s3 where 3: "precision_stage s2 a2 = (o3, b3, a3, s3)" by (metis prod_cases4)
  obtain s4 f4 t4 where 4: "(if a3 then (s3, True, False) else arg_number s3) = (s4, f4, t4)"
    by (metis prod_cases3)
  have "set s4 \<subseteq> set s3" using 4 arg_number_set [of s3] by (auto split: if_splits)
  also have "set s3 \<subseteq> set s2" using stage_sets(2) [of s2 a2] 3 by simp
  also have "set s2 \<subseteq> set s1" using stage_sets(1) [of s1 f1] 2 by simp
  also have "set s1 \<subseteq> set (dropWhile is_flag s)" using arg_number_set [of "dropWhile is_flag s"] 1 by simp
  also have "set (dropWhile is_flag s) \<subseteq> set s" by (auto dest: set_dropWhileD)
  finally have "prefix ''%!'' (fst (verb_stage s4 (t1 \<or> b2 \<or> b3 \<or> t4)))"
    using assms by (intro verb_stage_out) auto
  moreover have "fst (directive s) = o2 @ o3 @ fst (verb_stage s4 (t1 \<or> b2 \<or> b3 \<or> t4))"
    using 1 2 3 4 by (auto simp: directive_def case_prod_beta split: if_splits)
  ultimately show ?thesis
    using stage_outs(1) [of s1 f1] stage_outs(2) [of s2 a2] 2 3 by auto
qed

lemma directive_exclamation: "directive (CHR ''!'' # s) = (''%!!(MISSING)'', s)"
  by (simp add: directive_def is_flag_def arg_number_def width_stage_def precision_stage_def verb_stage_def
      is_digit_def byte_in_def encode_rune_ascii char_of_def bit_0)

lemma sprintf0_one_percent:
  assumes "count_list s (CHR ''%'') = 1"
  shows "sprintf0 s \<noteq> s"
proof -
  obtain a b where s: "s = a @ CHR ''%'' # b" "CHR ''%'' \<notin> set a"
  proof -
    have "CHR ''%'' \<in> set s" using assms count_notin [of "CHR ''%''" s] by force
    then show ?thesis using split_list_first [of "CHR ''%''" s] that by blast
  qed
  then have b: "CHR ''%'' \<notin> set b" using assms by (simp add: count_notin count_list_0_iff)
  have "fst (directive b) @ sprintf0 (snd (directive b)) \<noteq> CHR ''%'' # b"
  proof (cases "\<exists>c. b = CHR ''!'' # c")
    case True
    then obtain c where c: "b = CHR ''!'' # c" by blast
    then show ?thesis using b by (simp add: directive_exclamation sprintf0_plain)
  next
    case False
    show ?thesis
    proof
      assume eq: "fst (directive b) @ sprintf0 (snd (directive b)) = CHR ''%'' # b"
      obtain zs where "fst (directive b) = ''%!'' @ zs" using directive_complains [OF b] by (auto simp: prefix_def)
      then have "b = CHR ''!'' # zs @ sprintf0 (snd (directive b))" using eq by simp
      then show False using False by blast
    qed
  qed
  then show ?thesis using s by (simp add: sprintf0_append_plain)
qed

lemma sprintf0_same_iff: "count_list s (CHR ''%'') \<le> 1 \<Longrightarrow> sprintf0 s = s \<longleftrightarrow> CHR ''%'' \<notin> set s"
  using sprintf0_one_percent [of s] sprintf0_plain [of s] count_list_0_iff [of s "CHR ''%''"]
  by (cases "count_list s (CHR ''%'')") auto

end
