(* ===== verification/C_Errors.thy ===== *)
theory C_Errors
  imports Adbc_Errors Go_Fmt
begin

text \<open>
  How the C layer (\<^verbatim>\<open>c/driver.go\<close>, with the helpers of \<^verbatim>\<open>c/utils.c\<close>) hands an error to its caller:
  \<^verbatim>\<open>setErr\<close>, \<^verbatim>\<open>setErrWithDetails\<close>, \<^verbatim>\<open>errToAdbcErr\<close>, the release callbacks and the accessors of the
  error details. The caller's \<^verbatim>\<open>struct AdbcError\<close> objects are a memory indexed by address; a pointer
  is an \<open>option\<close>, \<open>None\<close> the null pointer. The number of blocks the driver has allocated with
  \<^verbatim>\<open>malloc\<close> and not freed is kept beside them. The lemmas show who owns those blocks.
\<close>

section \<open>Memory\<close>

text \<open>Which callback \<^verbatim>\<open>release\<close> points to; another driver's callback is a foreign one.\<close>

datatype c_release = NoRelease | ReleasePlain | ReleaseDetails | ReleaseForeign

record c_error =
  ce_message :: "string option"
  ce_vendor :: int32
  ce_sqlstate :: "byte list"
  ce_release :: c_release
  ce_details :: "(string \<times> string) list option"

record c_memory =
  cm_errs :: "nat \<Rightarrow> c_error"
  cm_blocks :: int

text \<open>A panic that \<^verbatim>\<open>recover\<close> catches; its \<^verbatim>\<open>%#v\<close> form, the texts of the connection string errors
  (which use \<^verbatim>\<open>%q\<close>) and what a foreign callback does are arguments.\<close>

datatype panic = NilPointer | IndexOutOfRange | InvalidHandle | WrongType | DriverPanic

record error_libs =
  el_config_text :: "config_error \<Rightarrow> string"
  el_panic_text :: "panic \<Rightarrow> string"
  el_foreign_release :: "c_error \<Rightarrow> c_error"

definition vendor_private_data :: int32 where
  "vendor_private_data = 0x80000000"

definition message_text :: "'a error_libs_scheme \<Rightarrow> message \<Rightarrow> string" where
  "message_text E m = (case m of Text t \<Rightarrow> t | ConfigMsg e \<Rightarrow> el_config_text E e)"

section \<open>Release callbacks\<close>

text \<open>\<^verbatim>\<open>free(NULL)\<close> frees nothing.\<close>

definition spark_release_error :: "c_error \<Rightarrow> c_error \<times> int" where
  "spark_release_error e =
    (e\<lparr>ce_message := None, ce_release := NoRelease\<rparr>, if ce_message e = None then 0 else 1)"

text \<open>The blocks of a \<^verbatim>\<open>struct SparkError\<close>: itself, and the three arrays and two blocks per detail
  when there are details.\<close>

definition detail_blocks :: "'a list \<Rightarrow> int" where
  "detail_blocks ds = 1 + (if ds = [] then 0 else 3 + 2 * int (length ds))"

definition spark_release_err_with_details :: "c_error \<Rightarrow> c_error \<times> int" where
  "spark_release_err_with_details e =
    (if ce_release e \<noteq> ReleaseDetails then (e, 0)
     else (case ce_details e of
       None \<Rightarrow> (e, 0)
     | Some ds \<Rightarrow>
         (e\<lparr>ce_message := None, ce_release := NoRelease, ce_details := None\<rparr>,
          detail_blocks ds + (if ce_message e = None then 0 else 1))))"

definition sparkerr_release :: "'a error_libs_scheme \<Rightarrow> c_error \<Rightarrow> c_error \<times> int" where
  "sparkerr_release E e = apfst (\<lambda>e'. e'\<lparr>ce_release := NoRelease\<rparr>)
    (case ce_release e of
       NoRelease \<Rightarrow> (e, 0)
     | ReleasePlain \<Rightarrow> spark_release_error e
     | ReleaseDetails \<Rightarrow> spark_release_err_with_details e
     | ReleaseForeign \<Rightarrow> (el_foreign_release E e, 0))"

definition error_get_detail_count :: "c_error option \<Rightarrow> nat" where
  "error_get_detail_count e = (case e of
     None \<Rightarrow> 0
   | Some e \<Rightarrow> if ce_release e \<noteq> ReleaseDetails then 0
       else (case ce_details e of None \<Rightarrow> 0 | Some ds \<Rightarrow> length ds))"

definition error_get_detail :: "c_error option \<Rightarrow> int \<Rightarrow> (string \<times> string) option" where
  "error_get_detail e i = (case e of
     None \<Rightarrow> None
   | Some e \<Rightarrow> if ce_release e \<noteq> ReleaseDetails then None
       else (case ce_details e of
         None \<Rightarrow> None
       | Some ds \<Rightarrow> if i < 0 \<or> int (length ds) \<le> i then None else Some (ds ! nat i)))"

section \<open>setErr\<close>

definition err_prefix :: string where "err_prefix = ''[Spark] ''"

definition upd_err :: "nat \<Rightarrow> (c_error \<Rightarrow> c_error) \<Rightarrow> c_memory \<Rightarrow> c_memory" where
  "upd_err a f m = m\<lparr>cm_errs := (cm_errs m)(a := f (cm_errs m a))\<rparr>"

definition release_err :: "'a error_libs_scheme \<Rightarrow> nat \<Rightarrow> c_memory \<Rightarrow> c_memory" where
  "release_err E a m = (case sparkerr_release E (cm_errs m a) of
     (e, n) \<Rightarrow> m\<lparr>cm_errs := (cm_errs m)(a := e), cm_blocks := cm_blocks m - n\<rparr>)"

text \<open>The part of \<^verbatim>\<open>setErr\<close> around the formatting: the old error is released, the message is a
  new block.\<close>

definition put_message ::
  "'a error_libs_scheme \<Rightarrow> nat option \<Rightarrow> string \<Rightarrow> c_memory \<Rightarrow> c_memory" where
  "put_message E p msg m = (case p of
     None \<Rightarrow> m
   | Some a \<Rightarrow>
       (let m1 = (if ce_release (cm_errs m a) \<noteq> NoRelease then release_err E a m else m);
            m2 = upd_err a (\<lambda>e. e\<lparr>ce_message := Some msg, ce_release := ReleasePlain\<rparr>) m1
        in m2\<lparr>cm_blocks := cm_blocks m2 + 1\<rparr>))"

definition set_err ::
  "'a error_libs_scheme \<Rightarrow> nat option \<Rightarrow> string \<Rightarrow> c_memory \<Rightarrow> c_memory" where
  "set_err E p format m = put_message E p
    (if prefix err_prefix format then sprintf0 format else err_prefix @ sprintf0 format) m"

text \<open>The calls with operands all have a format that starts with \<^verbatim>\<open>%s:\<close> and the name of the
  function, so the prefix is always added.\<close>

definition set_err_in ::
  "'a error_libs_scheme \<Rightarrow> nat option \<Rightarrow> string \<Rightarrow> string \<Rightarrow> c_memory \<Rightarrow> c_memory" where
  "set_err_in E p fname text m = put_message E p (err_prefix @ fname @ '': '' @ text) m"

section \<open>setErrWithDetails and errToAdbcErr\<close>

text \<open>A detail that does not serialize is replaced by the text of its error.\<close>

definition detail_bytes :: "error_detail \<Rightarrow> string \<times> string" where
  "detail_bytes d = (det_key d, case det_serialized d of Inl msg \<Rightarrow> msg | Inr bytes \<Rightarrow> bytes)"

definition set_err_with_details ::
  "'a error_libs_scheme \<Rightarrow> nat option \<Rightarrow> adbc_error \<Rightarrow> c_memory \<Rightarrow> c_memory" where
  "set_err_with_details E p err m = (case p of
     None \<Rightarrow> m
   | Some a \<Rightarrow>
       (let m1 = upd_err a (\<lambda>e. e\<lparr>ce_sqlstate := map (\<lambda>i. err_sqlstate err ! i) [0..<5]\<rparr>) m;
            text = message_text E (err_msg err);
            details = err_details err
        in
        if ce_vendor (cm_errs m1 a) \<noteq> vendor_private_data then
          (let m2 = (if err_vendor_code err \<noteq> vendor_private_data
                     then upd_err a (\<lambda>e. e\<lparr>ce_vendor := err_vendor_code err\<rparr>) m1 else m1)
           in set_err E p text m2)
        else if details = [] \<and> err_vendor_code err \<noteq> 0 \<and> err_vendor_code err \<noteq> vendor_private_data then
          set_err E p text (upd_err a (\<lambda>e. e\<lparr>ce_vendor := err_vendor_code err\<rparr>) m1)
        else
          (let m2 = upd_err a (\<lambda>e. e\<lparr>ce_message := Some text, ce_release := ReleaseDetails,
                                      ce_details := Some (map detail_bytes details)\<rparr>) m1
           in m2\<lparr>cm_blocks := cm_blocks m2 + 1 + detail_blocks details\<rparr>)))"

definition err_to_adbc_err ::
  "'a error_libs_scheme \<Rightarrow> nat option \<Rightarrow> go_error option \<Rightarrow> c_memory \<Rightarrow> status \<times> c_memory" where
  "err_to_adbc_err E p err m = (case err of
     None \<Rightarrow> (StatusOK, m)
   | Some (Adbc e) \<Rightarrow> (err_code e, set_err_with_details E p e m)
   | Some (Plain msg) \<Rightarrow> (StatusUnknown, set_err E p (message_text E msg) m))"

section \<open>Who owns the blocks\<close>

text \<open>The blocks that calling \<^verbatim>\<open>release\<close> of an error frees.\<close>

definition owned_blocks :: "c_error \<Rightarrow> int" where
  "owned_blocks e =
    (let msg = (if ce_message e = None then 0 else 1) in
     case ce_release e of
       ReleasePlain \<Rightarrow> msg
     | ReleaseDetails \<Rightarrow> (case ce_details e of None \<Rightarrow> 0 | Some ds \<Rightarrow> msg + detail_blocks ds)
     | NoRelease \<Rightarrow> 0
     | ReleaseForeign \<Rightarrow> 0)"

lemma sparkerr_release_frees:
  "snd (sparkerr_release E e) = owned_blocks e"
  "ce_release (fst (sparkerr_release E e)) = NoRelease"
  by (auto simp: sparkerr_release_def owned_blocks_def spark_release_error_def
      spark_release_err_with_details_def split: c_release.splits option.splits)

lemma release_err_mem [simp]:
  "cm_blocks (release_err E a m) = cm_blocks m - owned_blocks (cm_errs m a)"
  "ce_release (cm_errs (release_err E a m) a) = NoRelease"
  "b \<noteq> a \<Longrightarrow> cm_errs (release_err E a m) b = cm_errs m b"
  using sparkerr_release_frees [of E "cm_errs m a"]
  by (auto simp: release_err_def split: prod.splits)

text \<open>A release by this driver leaves the vendor code and the SQL state.\<close>

lemma release_err_fields:
  assumes "ce_release (cm_errs m a) \<noteq> ReleaseForeign"
  shows "ce_vendor (cm_errs (release_err E a m) a) = ce_vendor (cm_errs m a)"
    and "ce_sqlstate (cm_errs (release_err E a m) a) = ce_sqlstate (cm_errs m a)"
  using assms
  by (auto simp: release_err_def sparkerr_release_def spark_release_error_def
      spark_release_err_with_details_def split: prod.splits c_release.splits option.splits if_splits)

lemma upd_err_mem [simp]:
  "cm_blocks (upd_err a f m) = cm_blocks m"
  "cm_errs (upd_err a f m) b = (if b = a then f (cm_errs m a) else cm_errs m b)"
  by (simp_all add: upd_err_def)

lemma owned_no_release [simp]: "ce_release e = NoRelease \<Longrightarrow> owned_blocks e = 0"
  by (simp add: owned_blocks_def)

lemma owned_blocks_upd [simp]:
  "owned_blocks (e\<lparr>ce_sqlstate := s\<rparr>) = owned_blocks e"
  "owned_blocks (e\<lparr>ce_vendor := v\<rparr>) = owned_blocks e"
  by (cases "ce_release e"; simp add: owned_blocks_def)+

lemma put_message_mem:
  "cm_blocks (put_message E (Some a) msg m) = cm_blocks m - owned_blocks (cm_errs m a) + 1"
  "ce_message (cm_errs (put_message E (Some a) msg m) a) = Some msg"
  "ce_release (cm_errs (put_message E (Some a) msg m) a) = ReleasePlain"
  "b \<noteq> a \<Longrightarrow> cm_errs (put_message E (Some a) msg m) b = cm_errs m b"
  by (auto simp: put_message_def Let_def)

lemma put_message_vendor:
  "ce_release (cm_errs m a) \<noteq> ReleaseForeign \<Longrightarrow>
     ce_vendor (cm_errs (put_message E (Some a) msg m) a) = ce_vendor (cm_errs m a)"
  by (simp add: put_message_def Let_def release_err_fields)

lemma put_message_owned:
  "cm_blocks (put_message E (Some a) msg m) - owned_blocks (cm_errs (put_message E (Some a) msg m) a) =
     cm_blocks m - owned_blocks (cm_errs m a)"
  by (simp add: put_message_mem owned_blocks_def [of "cm_errs (put_message E (Some a) msg m) a"])

text \<open>The calls that fill in details without looking at what the error holds.\<close>

definition overwrites :: "c_error \<Rightarrow> go_error option \<Rightarrow> bool" where
  "overwrites old err = (case err of
     Some (Adbc e) \<Rightarrow> ce_vendor old = vendor_private_data \<and>
       \<not> (err_details e = [] \<and> err_vendor_code e \<noteq> 0 \<and> err_vendor_code e \<noteq> vendor_private_data)
   | _ \<Rightarrow> False)"

lemma set_err_with_details_overwrites:
  assumes "overwrites (cm_errs m a) (Some (Adbc e))"
  shows "cm_blocks (set_err_with_details E (Some a) e m) = cm_blocks m + 1 + detail_blocks (err_details e)"
    and "ce_release (cm_errs (set_err_with_details E (Some a) e m) a) = ReleaseDetails"
    and "ce_details (cm_errs (set_err_with_details E (Some a) e m) a) =
      Some (map detail_bytes (err_details e))"
    and "ce_message (cm_errs (set_err_with_details E (Some a) e m) a) =
      Some (message_text E (err_msg e))"
  using assms by (auto simp: set_err_with_details_def overwrites_def Let_def)

lemma detail_blocks_map [simp]: "detail_blocks (map f ds) = detail_blocks ds"
  by (simp add: detail_blocks_def)

lemma reported_blocks:
  "(case err_to_adbc_err E (Some a) err m of (code, m') \<Rightarrow>
      cm_blocks m' - owned_blocks (cm_errs m' a) =
      cm_blocks m - owned_blocks (cm_errs m a)
        + (if overwrites (cm_errs m a) err then owned_blocks (cm_errs m a) else 0))"
proof (cases "overwrites (cm_errs m a) err")
  case True
  then obtain e where "err = Some (Adbc e)"
    by (auto simp: overwrites_def split: option.splits go_error.splits)
  then show ?thesis using set_err_with_details_overwrites [of m a e E] True
    by (simp add: err_to_adbc_err_def owned_blocks_def)
next
  case False
  show ?thesis
  proof (cases err)
    case (Some g)
    show ?thesis
    proof (cases g)
      case (Adbc e)
      then show ?thesis using False Some put_message_owned
        by (auto simp: err_to_adbc_err_def set_err_with_details_def overwrites_def Let_def set_err_def
            put_message_owned)
    qed (use False Some in \<open>simp add: err_to_adbc_err_def set_err_def put_message_owned\<close>)
  qed (simp add: err_to_adbc_err_def overwrites_def)
qed

section \<open>Properties\<close>

text \<open>C33: reporting an error frees what the caller's error held, so the driver never holds a block
  that no error owns, with one exception: an error with the details wanted (vendor code
  \<^verbatim>\<open>ADBC_ERROR_VENDOR_CODE_PRIVATE_DATA\<close>) that is used again without being released in between is
  overwritten, and exactly the blocks it owned are lost.\<close>

theorem reported_error_owns_blocks:
  "(case err_to_adbc_err E (Some a) err m of (code, m') \<Rightarrow>
      cm_blocks m' - owned_blocks (cm_errs m' a) =
      cm_blocks m - owned_blocks (cm_errs m a)
        + (if overwrites (cm_errs m a) err then owned_blocks (cm_errs m a) else 0))"
  by (rule reported_blocks)

text \<open>C34: a caller that asks for the details of an error gets them: as many as the Go error has,
  in order, each with its key and its serialized bytes (or the text of the error that kept it from
  being serialized). When there are any, the message of the error comes as it is. Releasing the error
  frees every block that reporting it has allocated: when the caller's error held nothing before, the
  driver has as many blocks afterwards as before the report.\<close>

theorem error_details_reach_caller:
  assumes "ce_vendor (cm_errs m a) = vendor_private_data"
    and "err_to_adbc_err E (Some a) (Some (Adbc e)) m = (code, m')"
  shows "code = err_code e \<and>
    error_get_detail_count (Some (cm_errs m' a)) = length (err_details e) \<and>
    map (\<lambda>i. error_get_detail (Some (cm_errs m' a)) (int i)) [0..<length (err_details e)] =
      map (\<lambda>d. Some (detail_bytes d)) (err_details e) \<and>
    (err_details e \<noteq> [] \<longrightarrow> ce_message (cm_errs m' a) = Some (message_text E (err_msg e))) \<and>
    ce_release (cm_errs (release_err E a m') a) = NoRelease \<and>
    (ce_release (cm_errs m a) = NoRelease \<longrightarrow> cm_blocks (release_err E a m') = cm_blocks m)"
proof -
  have m': "m' = set_err_with_details E (Some a) e m" "code = err_code e"
    using assms(2) by (simp_all add: err_to_adbc_err_def)
  have free: "ce_release (cm_errs m a) = NoRelease \<longrightarrow> cm_blocks (release_err E a m') = cm_blocks m"
    using reported_blocks [where E = E and a = a and err = "Some (Adbc e)" and m = m] assms(2) by simp
  show ?thesis
  proof (cases "overwrites (cm_errs m a) (Some (Adbc e))")
    case True
    note o = set_err_with_details_overwrites [OF this, of E]
    show ?thesis using free unfolding m'
      by (auto simp: o error_get_detail_count_def error_get_detail_def intro!: nth_equalityI)
  next
    case False
    then have none: "err_details e = []" using assms(1) by (auto simp: overwrites_def)
    have "ce_release (cm_errs m' a) = ReleasePlain"
      using False assms(1) none m'(1)
      by (auto simp: set_err_with_details_def Let_def overwrites_def set_err_def put_message_mem)
    then show ?thesis using free m'(2) none by (simp add: error_get_detail_count_def)
  qed
qed

theorem error_details_reach_caller_witness:
  "error_get_detail (Some (cm_errs (snd (err_to_adbc_err
      \<lparr>el_config_text = \<lambda>e. [], el_panic_text = \<lambda>p. [], el_foreign_release = \<lambda>e. e\<rparr> (Some 0)
      (Some (Adbc ((adbc_err (Text ''m'') StatusIO)\<lparr>err_details := [\<lparr>det_key = ''k'', det_serialized = Inr ''v''\<rparr>]\<rparr>)))
      \<lparr>cm_errs = \<lambda>a. \<lparr>ce_message = None, ce_vendor = vendor_private_data, ce_sqlstate = no_sqlstate,
         ce_release = NoRelease, ce_details = None\<rparr>, cm_blocks = 0\<rparr>)) 0)) 0 = Some (''k'', ''v'')"
  using error_details_reach_caller [of
      "\<lparr>cm_errs = \<lambda>a. \<lparr>ce_message = None, ce_vendor = vendor_private_data, ce_sqlstate = no_sqlstate,
         ce_release = NoRelease, ce_details = None\<rparr>, cm_blocks = 0\<rparr>" 0
      "\<lparr>el_config_text = \<lambda>e. [], el_panic_text = \<lambda>p. [], el_foreign_release = \<lambda>e. e\<rparr>"
      "(adbc_err (Text ''m'') StatusIO)\<lparr>err_details := [\<lparr>det_key = ''k'', det_serialized = Inr ''v''\<rparr>]\<rparr>",
      OF _ surjective_pairing]
  by (simp add: detail_bytes_def)

text \<open>C35: the text of an error is used as a format. A text without a percent sign reaches a caller that
  has not asked for details word for word, behind the driver's prefix (which is not added twice); a text
  with one percent sign never does, whatever follows the sign, so that \<^verbatim>\<open>100%\<close> arrives as
  \<^verbatim>\<open>100%!(NOVERB)\<close>.\<close>

theorem error_text_is_a_format:
  assumes "ce_vendor (cm_errs m a) \<noteq> vendor_private_data"
    and "err_to_adbc_err E (Some a) (Some err) m = (code, m')"
    and "text = message_text E (case err of Adbc e \<Rightarrow> err_msg e | Plain msg \<Rightarrow> msg)"
    and "count_list text (CHR ''%'') \<le> 1"
  shows "ce_message (cm_errs m' a) = Some (if prefix err_prefix text then text else err_prefix @ text) \<longleftrightarrow>
    CHR ''%'' \<notin> set text"
proof -
  have "ce_message (cm_errs m' a) =
      Some (if prefix err_prefix text then sprintf0 text else err_prefix @ sprintf0 text)"
    using assms(1-3)
    by (cases err) (auto simp: err_to_adbc_err_def set_err_with_details_def Let_def set_err_def put_message_mem)
  then show ?thesis using sprintf0_same_iff [OF assms(4)] by simp
qed

theorem error_text_is_a_format_witness:
  "ce_message (cm_errs (snd (err_to_adbc_err
      \<lparr>el_config_text = \<lambda>e. [], el_panic_text = \<lambda>p. [], el_foreign_release = \<lambda>e. e\<rparr> (Some 0)
      (Some (Plain (Text ''100%''))) \<lparr>cm_errs = \<lambda>a. \<lparr>ce_message = None, ce_vendor = 0, ce_sqlstate = no_sqlstate,
         ce_release = NoRelease, ce_details = None\<rparr>, cm_blocks = 0\<rparr>)) 0) \<noteq> Some ''[Spark] 100%''"
  using error_text_is_a_format [of
      "\<lparr>cm_errs = \<lambda>a. \<lparr>ce_message = None, ce_vendor = 0, ce_sqlstate = no_sqlstate,
         ce_release = NoRelease, ce_details = None\<rparr>, cm_blocks = 0\<rparr>" 0
      "\<lparr>el_config_text = \<lambda>e. [], el_panic_text = \<lambda>p. [], el_foreign_release = \<lambda>e. e\<rparr>"
      "Plain (Text ''100%'')", OF _ surjective_pairing refl]
  by (simp add: err_prefix_def vendor_private_data_def message_text_def)

end
