(* ===== verification/C_State.thy ===== *)
theory C_State
  imports C_Errors Info_Tables
begin

text \<open>
  The state of the C layer (\<^verbatim>\<open>c/driver.go\<close>) and what all its functions share: the C structures of
  the caller, cgo handles and the Go objects behind them, the poison flag, contexts, the export of
  option values, and the frame every exported function has around it, which turns a panic into an
  error status. A C structure is known by its address, a pointer is an \<open>option\<close>; a buffer is the
  list of its bytes. Sizes are below \<open>2 ^ 63\<close>, so that \<^verbatim>\<open>int(size)\<close> keeps them.
\<close>

section \<open>Objects behind the handles\<close>

text \<open>The results of the metadata calls are in-memory tables read by Arrow's own reader, which is
  an argument: its \<^verbatim>\<open>Next\<close> takes a position to the next. The streams of statements are read by the
  driver's reader.\<close>

datatype arrow_table =
    ObjectsTable "catalog_row list"
  | InfoTable "(int32 \<times> string) list"
  | TypesTable schema record_batch

datatype c_reader = ResultReader reader | TableReader arrow_table nat int

record c_database =
  cdb_opts :: "string \<rightharpoonup> string"
  cdb_db :: "database option"

record c_conn =
  ccn_cancel :: "nat option"
  ccn_cnxn :: "nat option"
  ccn_init :: "(string \<rightharpoonup> string) option"

record c_stmt =
  cst_cancel :: "nat option"
  cst_stmt :: "statement option"

record c_array_stream =
  cas_rdr :: c_reader
  cas_err :: "c_error option"
  cas_status :: status

datatype c_object =
    ObjDatabase c_database | ObjConn c_conn | ObjStmt c_stmt | ObjStream c_array_stream

text \<open>What an exported array holds, and the release callback of a stream.\<close>

datatype exported = ExportedBatch record_batch | ExportedTable arrow_table nat

datatype stream_release = StreamReleased | SparkStreamRelease | ForeignStreamRelease

record c_stream =
  cs_release :: stream_release
  cs_private :: "nat option"

text \<open>An \<^verbatim>\<open>AdbcPartitions\<close>: the block all partitions are copied to (\<^verbatim>\<open>private_data\<close>), \<^verbatim>\<open>num_partitions\<close>,
  and for each partition its offset in the block and its length, or \<open>None\<close> when nobody has written them.\<close>

record c_partitions =
  cp_data :: "string option"
  cp_num :: nat
  cp_parts :: "(nat \<times> nat) option list"

record 'srv c_world =
  cw_mem :: c_memory
  cw_poison :: bool
  cw_go :: "'srv world"
  cw_handles :: "nat \<rightharpoonup> c_object"
  cw_next_handle :: nat
  cw_dbs :: "nat \<Rightarrow> nat option"
  cw_cnxns :: "nat \<Rightarrow> nat option"
  cw_stmts :: "nat \<Rightarrow> nat option"
  cw_streams :: "nat \<Rightarrow> c_stream"
  cw_arrays :: "nat \<Rightarrow> exported option"
  cw_schemas :: "nat \<Rightarrow> schema option"
  cw_parts :: "nat \<Rightarrow> c_partitions"
  cw_next_ctx :: nat
  cw_live_ctxs :: "nat set"
  cw_bytes :: "nat \<Rightarrow> string"
  cw_sizes :: "nat \<Rightarrow> nat"
  cw_ints :: "nat \<Rightarrow> int64"
  cw_doubles :: "nat \<Rightarrow> int64"

text \<open>Arrow's C data interface as far as the layer calls it, the order of map iteration, and the
  arguments of the Go driver.\<close>

datatype import_result = Imported record_batch | ImportError string | ImportPanic
datatype stream_import = StreamImported | StreamImportError string | StreamImportPanic

record 'srv c_libs = error_libs +
  cl_libs :: "'srv libs"
  cl_arrow_version :: string
  cl_info_order :: "(int32 \<rightharpoonup> string) \<Rightarrow> int32 list"
  cl_map_order :: "(string \<rightharpoonup> string) \<Rightarrow> (string \<times> string) list"
  cl_table_next :: "arrow_table \<Rightarrow> nat \<Rightarrow> bool \<times> nat"
  cl_table_err :: "arrow_table \<Rightarrow> nat \<Rightarrow> go_error option"
  cl_import :: "exported option option \<Rightarrow> schema option option \<Rightarrow> import_result"
  cl_import_stream :: "c_stream option \<Rightarrow> stream_import"

section \<open>Outcomes\<close>

datatype 'a outcome = Done 'a | Panicked panic

text \<open>An action of the layer.\<close>

type_synonym ('srv, 'a) c_act = "'srv c_world \<Rightarrow> 'a outcome \<times> 'srv c_world"

definition c_bind :: "('srv, 'a) c_act \<Rightarrow> ('a \<Rightarrow> ('srv, 'b) c_act) \<Rightarrow> ('srv, 'b) c_act" where
  "c_bind m f w = (case m w of
     (Done x, w') \<Rightarrow> f x w'
   | (Panicked p, w') \<Rightarrow> (Panicked p, w'))"

definition c_ret :: "'a \<Rightarrow> ('srv, 'a) c_act" where
  "c_ret x w = (Done x, w)"

definition with_mem :: "(c_memory \<Rightarrow> c_memory) \<Rightarrow> 'srv c_world \<Rightarrow> 'srv c_world" where
  "with_mem f w = w\<lparr>cw_mem := f (cw_mem w)\<rparr>"

text \<open>\<^verbatim>\<open>setErr(err, ...)\<close> followed by \<^verbatim>\<open>return code\<close>; \<^verbatim>\<open>return errToAdbcErr(err, e)\<close>.\<close>

definition c_fail ::
  "'srv c_libs \<Rightarrow> nat option \<Rightarrow> string \<Rightarrow> 'a \<Rightarrow> ('srv, 'a) c_act" where
  "c_fail E err text code w = (Done code, with_mem (set_err E err text) w)"

definition c_fail_in ::
  "'srv c_libs \<Rightarrow> nat option \<Rightarrow> string \<Rightarrow> string \<Rightarrow> 'a \<Rightarrow> ('srv, 'a) c_act" where
  "c_fail_in E err fname text code w = (Done code, with_mem (set_err_in E err fname text) w)"

definition c_status :: "'srv c_libs \<Rightarrow> nat option \<Rightarrow> go_error option \<Rightarrow> ('srv, status) c_act" where
  "c_status E err e w = (case err_to_adbc_err E err e (cw_mem w) of
     (code, m) \<Rightarrow> (Done code, w\<lparr>cw_mem := m\<rparr>))"

section \<open>poison and the frame of an exported function\<close>

definition poison ::
  "'srv c_libs \<Rightarrow> nat option \<Rightarrow> string \<Rightarrow> panic \<Rightarrow> 'srv c_world \<Rightarrow> status \<times> 'srv c_world" where
  "poison E err fname p w =
    (StatusInternal,
     with_mem (set_err_in E err fname (''Go panic in Spark driver (see stderr): '' @ el_panic_text E p))
       (w\<lparr>cw_poison := True\<rparr>))"

text \<open>The deferred function with \<^verbatim>\<open>recover\<close>.\<close>

definition guarded ::
  "'srv c_libs \<Rightarrow> nat option \<Rightarrow> string \<Rightarrow> ('srv, status) c_act \<Rightarrow> 'srv c_world \<Rightarrow>
     status \<times> 'srv c_world" where
  "guarded E err fname body w = (case body w of
     (Done code, w') \<Rightarrow> (code, w')
   | (Panicked p, w') \<Rightarrow> poison E err fname p w')"

section \<open>Handles\<close>

text \<open>\<^verbatim>\<open>cgo.NewHandle\<close> and \<^verbatim>\<open>createHandle\<close>: a number never used before, in a block of its own.\<close>

definition create_handle :: "c_object \<Rightarrow> 'srv c_world \<Rightarrow> nat \<times> 'srv c_world" where
  "create_handle x w =
    (let h = cw_next_handle w;
         m = cw_mem w
     in (h, w\<lparr>cw_handles := (cw_handles w)(h \<mapsto> x), cw_next_handle := h + 1,
              cw_mem := m\<lparr>cm_blocks := cm_blocks m + 1\<rparr>\<rparr>))"

text \<open>Freeing the block and \<^verbatim>\<open>Delete\<close> of the handle.\<close>

definition delete_handle :: "nat \<Rightarrow> 'srv c_world \<Rightarrow> 'srv c_world" where
  "delete_handle h w =
    (let m = cw_mem w in
     w\<lparr>cw_handles := (cw_handles w)(h := None), cw_mem := m\<lparr>cm_blocks := cm_blocks m - 1\<rparr>\<rparr>)"

definition set_handle :: "nat \<Rightarrow> c_object \<Rightarrow> 'srv c_world \<Rightarrow> 'srv c_world" where
  "set_handle h x w = w\<lparr>cw_handles := (cw_handles w)(h \<mapsto> x)\<rparr>"

text \<open>\<^verbatim>\<open>getFromHandle\<close> at the four types.\<close>

definition get_database :: "nat \<Rightarrow> ('srv, c_database) c_act" where
  "get_database h w = (case cw_handles w h of
     None \<Rightarrow> (Panicked InvalidHandle, w)
   | Some (ObjDatabase x) \<Rightarrow> (Done x, w)
   | Some y \<Rightarrow> (Panicked WrongType, w))"

definition get_conn :: "nat \<Rightarrow> ('srv, c_conn) c_act" where
  "get_conn h w = (case cw_handles w h of
     None \<Rightarrow> (Panicked InvalidHandle, w)
   | Some (ObjConn x) \<Rightarrow> (Done x, w)
   | Some y \<Rightarrow> (Panicked WrongType, w))"

definition get_stmt :: "nat \<Rightarrow> ('srv, c_stmt) c_act" where
  "get_stmt h w = (case cw_handles w h of
     None \<Rightarrow> (Panicked InvalidHandle, w)
   | Some (ObjStmt x) \<Rightarrow> (Done x, w)
   | Some y \<Rightarrow> (Panicked WrongType, w))"

definition get_stream :: "nat \<Rightarrow> ('srv, c_array_stream) c_act" where
  "get_stream h w = (case cw_handles w h of
     None \<Rightarrow> (Panicked InvalidHandle, w)
   | Some (ObjStream x) \<Rightarrow> (Done x, w)
   | Some y \<Rightarrow> (Panicked WrongType, w))"

section \<open>Contexts\<close>

text \<open>The field \<^verbatim>\<open>cancel\<close> of a \<^verbatim>\<open>cancellableContext\<close>; the contexts not yet cancelled are in the state.\<close>

definition cancel_context :: "nat option \<Rightarrow> 'srv c_world \<Rightarrow> 'srv c_world" where
  "cancel_context c w = (case c of
     None \<Rightarrow> w
   | Some i \<Rightarrow> w\<lparr>cw_live_ctxs := cw_live_ctxs w - {i}\<rparr>)"

definition new_context :: "nat option \<Rightarrow> 'srv c_world \<Rightarrow> nat \<times> 'srv c_world" where
  "new_context c w =
    (let w1 = cancel_context c w; i = cw_next_ctx w1
     in (i, w1\<lparr>cw_next_ctx := i + 1, cw_live_ctxs := insert i (cw_live_ctxs w1)\<rparr>))"

section \<open>Arguments\<close>

text \<open>\<^verbatim>\<open>C.GoString\<close> of a null pointer is the empty string; \<^verbatim>\<open>fromCArr\<close>, \<^verbatim>\<open>toStrPtr\<close>, \<^verbatim>\<open>toStrSlice\<close>.\<close>

definition go_string :: "string option \<Rightarrow> string" where
  "go_string s = (case s of None \<Rightarrow> [] | Some t \<Rightarrow> t)"

definition from_c_arr :: "'a list option \<Rightarrow> nat \<Rightarrow> 'a list" where
  "from_c_arr p n = (case p of None \<Rightarrow> [] | Some xs \<Rightarrow> take n xs)"

definition to_str_ptr :: "string option \<Rightarrow> string option" where
  "to_str_ptr s = s"

definition to_str_slice :: "string list option \<Rightarrow> string list" where
  "to_str_slice ss = (case ss of None \<Rightarrow> [] | Some xs \<Rightarrow> xs)"

section \<open>Option values\<close>

definition write_bytes :: "string \<Rightarrow> string \<Rightarrow> string" where
  "write_bytes val buf = val @ drop (length val) buf"

definition export_string_option :: "string \<Rightarrow> nat option \<Rightarrow> nat option \<Rightarrow> ('srv, status) c_act" where
  "export_string_option val out len w = (case len of
     None \<Rightarrow> (Panicked NilPointer, w)
   | Some l \<Rightarrow>
       (let need = length val + 1;
            done = (\<lambda>w. (Done StatusOK, w\<lparr>cw_sizes := (cw_sizes w)(l := need)\<rparr>))
        in if need \<le> cw_sizes w l then
             (case out of
                None \<Rightarrow> (Panicked IndexOutOfRange, w)
              | Some b \<Rightarrow> done (w\<lparr>cw_bytes := (cw_bytes w)
                  (b := write_bytes (val @ [CHR 0x00]) (cw_bytes w b))\<rparr>))
           else done w))"

definition export_bytes_option :: "string \<Rightarrow> nat option \<Rightarrow> nat option \<Rightarrow> ('srv, status) c_act" where
  "export_bytes_option val out len w = (case len of
     None \<Rightarrow> (Panicked NilPointer, w)
   | Some l \<Rightarrow>
       (let w1 = (if length val \<le> cw_sizes w l then
              (case out of
                 None \<Rightarrow> w
               | Some b \<Rightarrow> w\<lparr>cw_bytes := (cw_bytes w)(b := write_bytes val (cw_bytes w b))\<rparr>)
            else w)
        in (Done StatusOK, w1\<lparr>cw_sizes := (cw_sizes w1)(l := length val)\<rparr>)))"

end
