(* ===== verification/C_Database.thy ===== *)
theory C_Database
  imports C_State
begin

text \<open>
  The checks before every exported function of \<^verbatim>\<open>c/driver.go\<close>, the bodies of the option functions,
  which are the same for databases, connections and statements, and the database functions.

  A Go object has optional interfaces that the layer asks for with type assertions. The driver's
  types (\<^verbatim>\<open>driver/spark\<close>) have none of them: no \<^verbatim>\<open>GetSetOptions\<close>, no \<^verbatim>\<open>PostInitOptions\<close>; the
  outcome of such an assertion is an \<open>option\<close>, and the code behind a successful one is kept.
\<close>

section \<open>Checks\<close>

definition check_alloc ::
  "'srv c_libs \<Rightarrow> string \<Rightarrow> ('srv c_world \<Rightarrow> nat \<Rightarrow> nat option) \<Rightarrow> nat option \<Rightarrow> nat option \<Rightarrow> string \<Rightarrow>
     ('srv, nat option) c_act" where
  "check_alloc E what private p err fname w =
    (if cw_poison w then c_fail_in E err fname ''Go panicked, driver is in unknown state'' None w
     else (case p of
       None \<Rightarrow> c_fail_in E err fname (what @ '' not allocated'') None w
     | Some a \<Rightarrow>
         (case private w a of
            None \<Rightarrow> c_fail_in E err fname (what @ '' not allocated'') None w
          | Some h \<Rightarrow> (Done (Some h), w))))"

text \<open>\<^verbatim>\<open>if !check(...) { return C.ADBC_STATUS_INVALID_STATE }\<close>\<close>

definition when_ok :: "('srv, 'a option) c_act \<Rightarrow> ('a \<Rightarrow> ('srv, status) c_act) \<Rightarrow> ('srv, status) c_act" where
  "when_ok m k = c_bind m (\<lambda>r. case r of None \<Rightarrow> c_ret StatusInvalidState | Some x \<Rightarrow> k x)"

definition check_db_alloc ::
  "'srv c_libs \<Rightarrow> nat option \<Rightarrow> nat option \<Rightarrow> string \<Rightarrow> ('srv, nat option) c_act" where
  "check_db_alloc E = check_alloc E ''database'' cw_dbs"

definition check_db_init ::
  "'srv c_libs \<Rightarrow> nat option \<Rightarrow> nat option \<Rightarrow> string \<Rightarrow>
     ('srv, (nat \<times> c_database \<times> database) option) c_act" where
  "check_db_init E db err fname = c_bind (check_db_alloc E db err fname) (\<lambda>r. case r of
     None \<Rightarrow> c_ret None
   | Some h \<Rightarrow> c_bind (get_database h) (\<lambda>cdb. case cdb_db cdb of
       None \<Rightarrow> c_fail_in E err fname ''database not initialized'' None
     | Some d \<Rightarrow> c_ret (Some (h, cdb, d))))"

section \<open>Options\<close>

text \<open>The methods of \<^verbatim>\<open>adbc.GetSetOptions\<close> on an object of type \<open>'o\<close>; a \<^verbatim>\<open>double\<close> is its bits.\<close>

record 'o option_ops =
  og_string :: "'o \<Rightarrow> string \<Rightarrow> go_error + string"
  og_bytes :: "'o \<Rightarrow> string \<Rightarrow> go_error + string"
  og_double :: "'o \<Rightarrow> string \<Rightarrow> int64 \<times> go_error option"
  og_int :: "'o \<Rightarrow> string \<Rightarrow> int64 \<times> go_error option"
  os_bytes :: "'o \<Rightarrow> string \<Rightarrow> string \<Rightarrow> go_error option \<times> 'o"
  os_double :: "'o \<Rightarrow> string \<Rightarrow> int64 \<Rightarrow> go_error option \<times> 'o"
  os_int :: "'o \<Rightarrow> string \<Rightarrow> int64 \<Rightarrow> go_error option \<times> 'o"

text \<open>The type assertion, and what follows when it fails.\<close>

definition with_ops ::
  "'srv c_libs \<Rightarrow> 'o option_ops option \<Rightarrow> nat option \<Rightarrow> string \<Rightarrow>
     ('o option_ops \<Rightarrow> ('srv, status) c_act) \<Rightarrow> ('srv, status) c_act" where
  "with_ops E ops err fname k = (case ops of
     None \<Rightarrow> c_fail E err (fname @ '': options are not supported'') StatusNotImplemented
   | Some F \<Rightarrow> k F)"

definition get_option_string ::
  "'srv c_libs \<Rightarrow> 'o option_ops option \<Rightarrow> nat option \<Rightarrow> string \<Rightarrow> 'o \<Rightarrow> string option \<Rightarrow> nat option \<Rightarrow>
     nat option \<Rightarrow> ('srv, status) c_act" where
  "get_option_string E ops err fname x key value len = with_ops E ops err fname (\<lambda>F.
     case og_string F x (go_string key) of
       Inl e \<Rightarrow> c_status E err (Some e)
     | Inr v \<Rightarrow> export_string_option v value len)"

definition get_option_bytes ::
  "'srv c_libs \<Rightarrow> 'o option_ops option \<Rightarrow> nat option \<Rightarrow> string \<Rightarrow> 'o \<Rightarrow> string option \<Rightarrow> nat option \<Rightarrow>
     nat option \<Rightarrow> ('srv, status) c_act" where
  "get_option_bytes E ops err fname x key value len = with_ops E ops err fname (\<lambda>F.
     case og_bytes F x (go_string key) of
       Inl e \<Rightarrow> c_status E err (Some e)
     | Inr v \<Rightarrow> export_bytes_option v value len)"

text \<open>The value is written before the error is looked at.\<close>

definition get_option_double ::
  "'srv c_libs \<Rightarrow> 'o option_ops option \<Rightarrow> nat option \<Rightarrow> string \<Rightarrow> 'o \<Rightarrow> string option \<Rightarrow> nat option \<Rightarrow>
     ('srv, status) c_act" where
  "get_option_double E ops err fname x key value = with_ops E ops err fname (\<lambda>F w.
     case og_double F x (go_string key) of (v, e) \<Rightarrow>
       (case value of
          None \<Rightarrow> (Panicked NilPointer, w)
        | Some a \<Rightarrow> c_status E err e (w\<lparr>cw_doubles := (cw_doubles w)(a := v)\<rparr>)))"

definition get_option_int ::
  "'srv c_libs \<Rightarrow> 'o option_ops option \<Rightarrow> nat option \<Rightarrow> string \<Rightarrow> 'o \<Rightarrow> string option \<Rightarrow> nat option \<Rightarrow>
     ('srv, status) c_act" where
  "get_option_int E ops err fname x key value = with_ops E ops err fname (\<lambda>F w.
     case og_int F x (go_string key) of (v, e) \<Rightarrow>
       (case value of
          None \<Rightarrow> (Panicked NilPointer, w)
        | Some a \<Rightarrow> c_status E err e (w\<lparr>cw_ints := (cw_ints w)(a := v)\<rparr>)))"

text \<open>The setters; \<open>put\<close> stores the changed object.\<close>

definition set_option_bytes ::
  "'srv c_libs \<Rightarrow> 'o option_ops option \<Rightarrow> nat option \<Rightarrow> string \<Rightarrow> 'o \<Rightarrow>
     ('o \<Rightarrow> 'srv c_world \<Rightarrow> 'srv c_world) \<Rightarrow> string option \<Rightarrow> string option \<Rightarrow> nat \<Rightarrow> ('srv, status) c_act" where
  "set_option_bytes E ops err fname x put key value len = with_ops E ops err fname (\<lambda>F w.
     case os_bytes F x (go_string key) (from_c_arr value len) of (e, x') \<Rightarrow> c_status E err e (put x' w))"

definition set_option_double ::
  "'srv c_libs \<Rightarrow> 'o option_ops option \<Rightarrow> nat option \<Rightarrow> string \<Rightarrow> 'o \<Rightarrow>
     ('o \<Rightarrow> 'srv c_world \<Rightarrow> 'srv c_world) \<Rightarrow> string option \<Rightarrow> int64 \<Rightarrow> ('srv, status) c_act" where
  "set_option_double E ops err fname x put key value = with_ops E ops err fname (\<lambda>F w.
     case os_double F x (go_string key) value of (e, x') \<Rightarrow> c_status E err e (put x' w))"

definition set_option_int ::
  "'srv c_libs \<Rightarrow> 'o option_ops option \<Rightarrow> nat option \<Rightarrow> string \<Rightarrow> 'o \<Rightarrow>
     ('o \<Rightarrow> 'srv c_world \<Rightarrow> 'srv c_world) \<Rightarrow> string option \<Rightarrow> int64 \<Rightarrow> ('srv, status) c_act" where
  "set_option_int E ops err fname x put key value = with_ops E ops err fname (\<lambda>F w.
     case os_int F x (go_string key) value of (e, x') \<Rightarrow> c_status E err e (put x' w))"

section \<open>Database options\<close>

definition database_options :: "database option_ops option" where
  "database_options = None"

definition database_post_init :: "(database \<Rightarrow> string \<Rightarrow> string \<Rightarrow> go_error option \<times> database) option" where
  "database_post_init = None"

definition put_database :: "nat \<Rightarrow> c_database \<Rightarrow> database \<Rightarrow> 'srv c_world \<Rightarrow> 'srv c_world" where
  "put_database h cdb d = set_handle h (ObjDatabase (cdb\<lparr>cdb_db := Some d\<rparr>))"

definition spark_database_get_option where
  "spark_database_get_option E db key value len err =
    guarded E err ''AdbcDatabaseGetOption'' (when_ok (check_db_init E db err ''AdbcDatabaseGetOption'')
      (\<lambda>(h, cdb, d). get_option_string E database_options err ''AdbcDatabaseGetOption'' d key value len))"

definition spark_database_get_option_bytes where
  "spark_database_get_option_bytes E db key value len err =
    guarded E err ''AdbcDatabaseGetOptionBytes'' (when_ok (check_db_init E db err ''AdbcDatabaseGetOptionBytes'')
      (\<lambda>(h, cdb, d). get_option_bytes E database_options err ''AdbcDatabaseGetOptionBytes'' d key value len))"

definition spark_database_get_option_double where
  "spark_database_get_option_double E db key value err =
    guarded E err ''AdbcDatabaseGetOptionDouble'' (when_ok (check_db_init E db err ''AdbcDatabaseGetOptionDouble'')
      (\<lambda>(h, cdb, d). get_option_double E database_options err ''AdbcDatabaseGetOptionDouble'' d key value))"

definition spark_database_get_option_int where
  "spark_database_get_option_int E db key value err =
    guarded E err ''AdbcDatabaseGetOptionInt'' (when_ok (check_db_init E db err ''AdbcDatabaseGetOptionInt'')
      (\<lambda>(h, cdb, d). get_option_int E database_options err ''AdbcDatabaseGetOptionInt'' d key value))"

definition spark_database_set_option_bytes where
  "spark_database_set_option_bytes E db key value len err =
    guarded E err ''AdbcDatabaseSetOptionBytes'' (when_ok (check_db_init E db err ''AdbcDatabaseSetOptionBytes'')
      (\<lambda>(h, cdb, d). set_option_bytes E database_options err ''AdbcDatabaseSetOptionBytes'' d
        (put_database h cdb) key value len))"

definition spark_database_set_option_double where
  "spark_database_set_option_double E db key value err =
    guarded E err ''AdbcDatabaseSetOptionDouble'' (when_ok (check_db_init E db err ''AdbcDatabaseSetOptionDouble'')
      (\<lambda>(h, cdb, d). set_option_double E database_options err ''AdbcDatabaseSetOptionDouble'' d
        (put_database h cdb) key value))"

definition spark_database_set_option_int where
  "spark_database_set_option_int E db key value err =
    guarded E err ''AdbcDatabaseSetOptionInt'' (when_ok (check_db_init E db err ''AdbcDatabaseSetOptionInt'')
      (\<lambda>(h, cdb, d). set_option_int E database_options err ''AdbcDatabaseSetOptionInt'' d
        (put_database h cdb) key value))"

definition spark_database_set_option ::
  "'srv c_libs \<Rightarrow> nat option \<Rightarrow> string option \<Rightarrow> string option \<Rightarrow> nat option \<Rightarrow> 'srv c_world \<Rightarrow>
     status \<times> 'srv c_world" where
  "spark_database_set_option E db key value err = guarded E err ''AdbcDatabaseSetOption''
    (when_ok (check_db_alloc E db err ''AdbcDatabaseSetOption'') (\<lambda>h.
      c_bind (get_database h) (\<lambda>cdb.
        let k = go_string key; v = go_string value in
        case cdb_db cdb of
          Some d \<Rightarrow>
            (case database_post_init of
               None \<Rightarrow> c_fail E err ''AdbcDatabaseSetOption: options are not supported'' StatusNotImplemented
             | Some f \<Rightarrow> (\<lambda>w. case f d k v of (e, d') \<Rightarrow> c_status E err e (put_database h cdb d' w)))
        | None \<Rightarrow> (\<lambda>w. (Done StatusOK,
            set_handle h (ObjDatabase (cdb\<lparr>cdb_opts := (cdb_opts cdb)(k \<mapsto> v)\<rparr>)) w)))))"

section \<open>New, Init, Release\<close>

definition spark_database_new ::
  "'srv c_libs \<Rightarrow> nat option \<Rightarrow> nat option \<Rightarrow> 'srv c_world \<Rightarrow> status \<times> 'srv c_world" where
  "spark_database_new E db err = guarded E err ''AdbcDatabaseNew'' (\<lambda>w.
    if cw_poison w then
      c_fail E err ''AdbcDatabaseNew: Go panicked, driver is in unknown state'' StatusInternal w
    else (case db of
      None \<Rightarrow> (Panicked NilPointer, w)
    | Some a \<Rightarrow>
        if cw_dbs w a \<noteq> None then
          c_fail E err ''AdbcDatabaseNew: database already allocated'' StatusInvalidState w
        else (case create_handle (ObjDatabase \<lparr>cdb_opts = Map.empty, cdb_db = None\<rparr>) w of
          (h, w1) \<Rightarrow> (Done StatusOK, w1\<lparr>cw_dbs := (cw_dbs w1)(a \<mapsto> h)\<rparr>))))"

text \<open>\<^verbatim>\<open>drv.NewDatabase(cdb.opts)\<close>; logging to standard error is in \<open>C_Logging\<close>.\<close>

definition make_database :: "'srv c_libs \<Rightarrow> c_database \<Rightarrow> 'srv c_world \<Rightarrow> (go_error + database) \<times> 'srv c_world" where
  "make_database E cdb w =
    (let W = cw_go w; r = wd_run W in
     case new_database (lib_unicode (cl_libs E)) (cl_map_order E (cdb_opts cdb)) (rt_heap r) of
       (res, hp) \<Rightarrow> (res, w\<lparr>cw_go := W\<lparr>wd_run := r\<lparr>rt_heap := hp\<rparr>\<rparr>\<rparr>))"

definition spark_database_init ::
  "'srv c_libs \<Rightarrow> nat option \<Rightarrow> nat option \<Rightarrow> 'srv c_world \<Rightarrow> status \<times> 'srv c_world" where
  "spark_database_init E db err = guarded E err ''AdbcDatabaseInit''
    (when_ok (check_db_alloc E db err ''AdbcDatabaseInit'') (\<lambda>h.
      c_bind (get_database h) (\<lambda>cdb.
        if cdb_db cdb \<noteq> None then
          c_fail E err ''AdbcDatabaseInit: database already initialized'' StatusInvalidState
        else (\<lambda>w. case make_database E cdb w of
            (Inl e, w1) \<Rightarrow> c_status E err (Some e) w1
          | (Inr d, w1) \<Rightarrow> (Done StatusOK, put_database h cdb d w1)))))"

text \<open>\<open>the db\<close> is safe: the check has found the pointer not null. \<^verbatim>\<open>Close\<close> of a database does nothing and
  its result is dropped.\<close>

definition spark_database_release ::
  "'srv c_libs \<Rightarrow> nat option \<Rightarrow> nat option \<Rightarrow> 'srv c_world \<Rightarrow> status \<times> 'srv c_world" where
  "spark_database_release E db err = guarded E err ''AdbcDatabaseInit''
    (when_ok (check_db_alloc E db err ''AdbcDatabaseRelease'') (\<lambda>h.
      c_bind (get_database h) (\<lambda>cdb w.
        (Done StatusOK, delete_handle h (w\<lparr>cw_dbs := (cw_dbs w)(the db := None)\<rparr>)))))"

end
