(* ===== verification/C_Streams.thy ===== *)
theory C_Streams
  imports C_State
begin

text \<open>
  The export of a record reader as an \<^verbatim>\<open>ArrowArrayStream\<close>, and the callbacks of the exported stream.
  They have no \<^verbatim>\<open>recover\<close>: a panic in one of them ends the process and is the outcome
  \<open>Panicked\<close>.
\<close>

section \<open>Readers\<close>

definition rdr_retain :: "c_reader \<Rightarrow> 'srv c_world \<Rightarrow> c_reader \<times> 'srv c_world" where
  "rdr_retain rd w = (case rd of
     ResultReader r \<Rightarrow> (ResultReader (fst (reader_retain (r, wd_run (cw_go w)))), w)
   | TableReader t pos n \<Rightarrow> (TableReader t pos (n + 1), w))"

definition put_run :: "'srv runtime \<Rightarrow> 'srv c_world \<Rightarrow> 'srv c_world" where
  "put_run r w = w\<lparr>cw_go := (cw_go w)\<lparr>wd_run := r\<rparr>\<rparr>"

definition rdr_release :: "c_reader \<Rightarrow> 'srv c_world \<Rightarrow> c_reader \<times> 'srv c_world" where
  "rdr_release rd w = (case rd of
     ResultReader r \<Rightarrow>
       (case reader_release (r, wd_run (cw_go w)) of (r', run) \<Rightarrow> (ResultReader r', put_run run w))
   | TableReader t pos n \<Rightarrow> (TableReader t pos (n - 1), w))"

definition rdr_next :: "'srv c_libs \<Rightarrow> c_reader \<Rightarrow> 'srv c_world \<Rightarrow> bool \<times> c_reader \<times> 'srv c_world" where
  "rdr_next E rd w = (case rd of
     ResultReader r \<Rightarrow>
       (case reader_next (cl_libs E) (r, wd_run (cw_go w)) of
          (ok, r', run) \<Rightarrow> (ok, ResultReader r', put_run run w))
   | TableReader t pos n \<Rightarrow>
       (case cl_table_next E t pos of (ok, pos') \<Rightarrow> (ok, TableReader t pos' n, w)))"

definition rdr_err :: "'srv c_libs \<Rightarrow> c_reader \<Rightarrow> go_error option" where
  "rdr_err E rd = (case rd of
     ResultReader r \<Rightarrow> rd_err r
   | TableReader t pos n \<Rightarrow> cl_table_err E t pos)"

definition rdr_schema :: "c_reader \<Rightarrow> schema option" where
  "rdr_schema rd = (case rd of
     ResultReader r \<Rightarrow> rd_schema r
   | TableReader (ObjectsTable rows) pos n \<Rightarrow> Some get_objects_schema
   | TableReader (InfoTable rows) pos n \<Rightarrow> Some get_info_schema
   | TableReader (TypesTable sc b) pos n \<Rightarrow> Some sc)"

text \<open>\<^verbatim>\<open>RecordBatch()\<close> of the reader, as the export sees it; a nil batch is a nil pointer.\<close>

definition rdr_batch :: "c_reader \<Rightarrow> 'srv c_world \<Rightarrow> exported option" where
  "rdr_batch rd w = (case rd of
     ResultReader r \<Rightarrow> map_option ExportedBatch (cur_batch (r, wd_run (cw_go w)))
   | TableReader t pos n \<Rightarrow> Some (ExportedTable t pos))"

section \<open>exportRecordReader\<close>

definition export_record_reader :: "c_reader \<Rightarrow> nat option \<Rightarrow> ('srv, nat) c_act" where
  "export_record_reader rd out w = (case out of
     None \<Rightarrow> (Panicked NilPointer, w)
   | Some s \<Rightarrow>
       (case rdr_retain rd w of (rd', w1) \<Rightarrow>
         (case create_handle (ObjStream \<lparr>cas_rdr = rd', cas_err = None, cas_status = StatusOK\<rparr>) w1 of
           (h, w2) \<Rightarrow>
             (Done h, w2\<lparr>cw_streams := (cw_streams w2)
                (s := \<lparr>cs_release = SparkStreamRelease, cs_private = Some h\<rparr>)\<rparr>))))"

text \<open>\<^verbatim>\<open>defer rdr.Release(); exportRecordReader(rdr, out); return C.ADBC_STATUS_OK\<close>. The reader is the one
  the stream now holds.\<close>

definition export_and_release :: "c_reader \<Rightarrow> nat option \<Rightarrow> ('srv, status) c_act" where
  "export_and_release rd out w = (case export_record_reader rd out w of
     (Panicked p, w1) \<Rightarrow> (Panicked p, snd (rdr_release rd w1))
   | (Done h, w1) \<Rightarrow>
       (case cw_handles w1 h of
          Some (ObjStream s) \<Rightarrow>
            (case rdr_release (cas_rdr s) w1 of
               (rd', w2) \<Rightarrow> (Done StatusOK, set_handle h (ObjStream (s\<lparr>cas_rdr := rd'\<rparr>)) w2))
        | _ \<Rightarrow> (Done StatusOK, w1)))"

section \<open>Errors of a stream\<close>

datatype errno = ENone | EIO | ENOTSUP | ENOENT | EEXIST | EINVAL | ECANCELED | ETIMEDOUT | EACCES

fun errno_of :: "status \<Rightarrow> errno" where
  "errno_of StatusUnknown = EIO"
| "errno_of StatusNotImplemented = ENOTSUP"
| "errno_of StatusNotFound = ENOENT"
| "errno_of StatusAlreadyExists = EEXIST"
| "errno_of StatusInvalidArgument = EINVAL"
| "errno_of StatusInvalidState = EINVAL"
| "errno_of StatusInvalidData = EIO"
| "errno_of StatusIntegrity = EIO"
| "errno_of StatusInternal = EIO"
| "errno_of StatusIO = EIO"
| "errno_of StatusCancelled = ECANCELED"
| "errno_of StatusTimeout = ETIMEDOUT"
| "errno_of StatusUnauthenticated = EACCES"
| "errno_of StatusUnauthorized = EACCES"
| "errno_of StatusOK = EIO"

definition empty_c_error :: c_error where
  "empty_c_error = \<lparr>ce_message = None, ce_vendor = 0, ce_sqlstate = no_sqlstate,
     ce_release = NoRelease, ce_details = None\<rparr>"

text \<open>The error of the stream is a structure of its own, in a block the driver allocates.\<close>

definition maybe_error ::
  "'srv c_libs \<Rightarrow> c_array_stream \<Rightarrow> c_memory \<Rightarrow> errno \<times> c_array_stream \<times> c_memory" where
  "maybe_error E s m = (case rdr_err E (cas_rdr s) of
     None \<Rightarrow> (ENone, s, m)
   | Some err \<Rightarrow>
       (let (e0, n) = (case cas_err s of
              Some e \<Rightarrow> (case sparkerr_release E e of (e', k) \<Rightarrow> (e', - k))
            | None \<Rightarrow> (empty_c_error, 1));
            own = \<lparr>cm_errs = (\<lambda>a. e0\<lparr>ce_vendor := vendor_private_data\<rparr>), cm_blocks = cm_blocks m + n\<rparr>;
            (code, own') = err_to_adbc_err E (Some 0) (Some err) own
        in (errno_of code,
            s\<lparr>cas_err := Some (cm_errs own' 0), cas_status := code\<rparr>,
            m\<lparr>cm_blocks := cm_blocks own'\<rparr>)))"

section \<open>Callbacks\<close>

text \<open>The test every callback starts with.\<close>

definition our_stream :: "nat option \<Rightarrow> 'srv c_world \<Rightarrow> nat option" where
  "our_stream stream w = (case stream of
     None \<Rightarrow> None
   | Some a \<Rightarrow> if cs_release (cw_streams w a) \<noteq> SparkStreamRelease then None
               else cs_private (cw_streams w a))"

definition stream_maybe_error :: "'srv c_libs \<Rightarrow> nat \<Rightarrow> c_array_stream \<Rightarrow> ('srv, errno) c_act" where
  "stream_maybe_error E h s w = (case maybe_error E s (cw_mem w) of
     (no, s', m) \<Rightarrow> (Done no, set_handle h (ObjStream s') (w\<lparr>cw_mem := m\<rparr>)))"

definition spark_array_stream_get_last_error :: "nat option \<Rightarrow> ('srv, string option) c_act" where
  "spark_array_stream_get_last_error stream w = (case our_stream stream w of
     None \<Rightarrow> (Done None, w)
   | Some h \<Rightarrow> c_bind (get_stream h) (\<lambda>s. c_ret (case cas_err s of
       None \<Rightarrow> None | Some e \<Rightarrow> ce_message e)) w)"

definition spark_array_stream_get_next :: "'srv c_libs \<Rightarrow> nat option \<Rightarrow> nat option \<Rightarrow> ('srv, errno) c_act" where
  "spark_array_stream_get_next E stream array w = (case our_stream stream w of
     None \<Rightarrow> (Done EINVAL, w)
   | Some h \<Rightarrow> c_bind (get_stream h) (\<lambda>s w.
       (case rdr_next E (cas_rdr s) w of (ok, rd, w1) \<Rightarrow>
         (let s1 = s\<lparr>cas_rdr := rd\<rparr>; w2 = set_handle h (ObjStream s1) w1 in
          case array of
            None \<Rightarrow> (Panicked NilPointer, w2)
          | Some a \<Rightarrow>
              if ok then
                (case rdr_batch rd w2 of
                   None \<Rightarrow> (Panicked NilPointer, w2)
                 | Some x \<Rightarrow> (Done ENone, w2\<lparr>cw_arrays := (cw_arrays w2)(a \<mapsto> x)\<rparr>))
              else stream_maybe_error E h s1 (w2\<lparr>cw_arrays := (cw_arrays w2)(a := None)\<rparr>)))) w)"

definition spark_array_stream_get_schema :: "'srv c_libs \<Rightarrow> nat option \<Rightarrow> nat option \<Rightarrow> ('srv, errno) c_act" where
  "spark_array_stream_get_schema E stream schema w = (case our_stream stream w of
     None \<Rightarrow> (Done EINVAL, w)
   | Some h \<Rightarrow> c_bind (get_stream h) (\<lambda>s w.
       (case rdr_schema (cas_rdr s) of
          None \<Rightarrow> stream_maybe_error E h s w
        | Some sc \<Rightarrow> (case schema of
              None \<Rightarrow> (Panicked NilPointer, w)
            | Some a \<Rightarrow> (Done ENone, w\<lparr>cw_schemas := (cw_schemas w)(a \<mapsto> sc)\<rparr>)))) w)"

text \<open>\<^verbatim>\<open>stream.release\<close> itself stays as it is.\<close>

definition spark_array_stream_release :: "'srv c_libs \<Rightarrow> nat option \<Rightarrow> ('srv, unit) c_act" where
  "spark_array_stream_release E stream w = (case our_stream stream w of
     None \<Rightarrow> (Done (), w)
   | Some h \<Rightarrow> c_bind (get_stream h) (\<lambda>s w.
       (case rdr_release (cas_rdr s) w of (rd, w1) \<Rightarrow>
         (let freed = (case cas_err s of None \<Rightarrow> 0 | Some e \<Rightarrow> snd (sparkerr_release E e) + 1);
              w2 = with_mem (\<lambda>m. m\<lparr>cm_blocks := cm_blocks m - freed\<rparr>) w1;
              a = the stream;
              w3 = w2\<lparr>cw_streams := (cw_streams w2)(a := (cw_streams w2 a)\<lparr>cs_private := None\<rparr>)\<rparr>
          in (Done (), delete_handle h w3)))) w)"

text \<open>The status (when asked for) and the error of the stream.\<close>

definition spark_error_from_array_stream :: "nat option \<Rightarrow> ('srv, status option \<times> c_error option) c_act" where
  "spark_error_from_array_stream stream w = (case our_stream stream w of
     None \<Rightarrow> (Done (None, None), w)
   | Some h \<Rightarrow> c_bind (get_stream h) (\<lambda>s. c_ret (Some (cas_status s), cas_err s)) w)"

end
