(* ===== verification/C_Connection.thy ===== *)
theory C_Connection
  imports C_Database C_Streams
begin

text \<open>The connection functions of \<^verbatim>\<open>c/driver.go\<close>.\<close>

section \<open>Checks\<close>

definition check_conn_alloc ::
  "'srv c_libs \<Rightarrow> nat option \<Rightarrow> nat option \<Rightarrow> string \<Rightarrow> ('srv, nat option) c_act" where
  "check_conn_alloc E = check_alloc E ''connection'' cw_cnxns"

definition check_conn_init ::
  "'srv c_libs \<Rightarrow> nat option \<Rightarrow> nat option \<Rightarrow> string \<Rightarrow> ('srv, (nat \<times> c_conn \<times> nat) option) c_act" where
  "check_conn_init E cnxn err fname = c_bind (check_conn_alloc E cnxn err fname) (\<lambda>r. case r of
     None \<Rightarrow> c_ret None
   | Some h \<Rightarrow> c_bind (get_conn h) (\<lambda>conn. case ccn_cnxn conn of
       None \<Rightarrow> c_fail_in E err fname ''connection not initialized'' None
     | Some k \<Rightarrow> c_ret (Some (h, conn, k))))"

text \<open>\<^verbatim>\<open>conn.newContext()\<close>\<close>

definition conn_new_context :: "nat \<Rightarrow> c_conn \<Rightarrow> 'srv c_world \<Rightarrow> 'srv c_world" where
  "conn_new_context h conn w = (case new_context (ccn_cancel conn) w of
     (i, w1) \<Rightarrow> set_handle h (ObjConn (conn\<lparr>ccn_cancel := Some i\<rparr>)) w1)"

definition put_go :: "'srv world \<Rightarrow> 'srv c_world \<Rightarrow> 'srv c_world" where
  "put_go W w = w\<lparr>cw_go := W\<rparr>"

section \<open>Options\<close>

definition connection_options :: "nat option_ops option" where
  "connection_options = None"

definition connection_post_init :: "(nat \<Rightarrow> string \<Rightarrow> string \<Rightarrow> 'srv world \<Rightarrow> go_error option \<times> 'srv world) option"
  where
  "connection_post_init = None"

text \<open>A connection is a reference, so a setter has nothing to store.\<close>

definition put_connection :: "nat \<Rightarrow> 'srv c_world \<Rightarrow> 'srv c_world" where
  "put_connection k w = w"

definition spark_connection_get_option where
  "spark_connection_get_option E cnxn key value len err =
    guarded E err ''AdbcConnectionGetOption'' (when_ok (check_conn_init E cnxn err ''AdbcConnectionGetOption'')
      (\<lambda>(h, conn, k). get_option_string E connection_options err ''AdbcConnectionGetOption'' k key value len))"

definition spark_connection_get_option_bytes where
  "spark_connection_get_option_bytes E cnxn key value len err =
    guarded E err ''AdbcConnectionGetOptionBytes'' (when_ok (check_conn_init E cnxn err ''AdbcConnectionGetOptionBytes'')
      (\<lambda>(h, conn, k). get_option_bytes E connection_options err ''AdbcConnectionGetOptionBytes'' k key value len))"

definition spark_connection_get_option_double where
  "spark_connection_get_option_double E cnxn key value err =
    guarded E err ''AdbcConnectionGetOptionDouble'' (when_ok (check_conn_init E cnxn err ''AdbcConnectionGetOptionDouble'')
      (\<lambda>(h, conn, k). get_option_double E connection_options err ''AdbcConnectionGetOptionDouble'' k key value))"

definition spark_connection_get_option_int where
  "spark_connection_get_option_int E cnxn key value err =
    guarded E err ''AdbcConnectionGetOptionInt'' (when_ok (check_conn_init E cnxn err ''AdbcConnectionGetOptionInt'')
      (\<lambda>(h, conn, k). get_option_int E connection_options err ''AdbcConnectionGetOptionInt'' k key value))"

definition spark_connection_set_option_bytes where
  "spark_connection_set_option_bytes E cnxn key value len err =
    guarded E err ''AdbcConnectionSetOptionBytes'' (when_ok (check_conn_init E cnxn err ''AdbcConnectionSetOptionBytes'')
      (\<lambda>(h, conn, k). set_option_bytes E connection_options err ''AdbcConnectionSetOptionBytes'' k
        put_connection key value len))"

definition spark_connection_set_option_double where
  "spark_connection_set_option_double E cnxn key value err =
    guarded E err ''AdbcConnectionSetOptionDouble'' (when_ok (check_conn_init E cnxn err ''AdbcConnectionSetOptionDouble'')
      (\<lambda>(h, conn, k). set_option_double E connection_options err ''AdbcConnectionSetOptionDouble'' k
        put_connection key value))"

definition spark_connection_set_option_int where
  "spark_connection_set_option_int E cnxn key value err =
    guarded E err ''AdbcConnectionSetOptionInt'' (when_ok (check_conn_init E cnxn err ''AdbcConnectionSetOptionInt'')
      (\<lambda>(h, conn, k). set_option_int E connection_options err ''AdbcConnectionSetOptionInt'' k
        put_connection key value))"

text \<open>An option set before \<^verbatim>\<open>Init\<close> is kept for it.\<close>

definition spark_connection_set_option ::
  "'srv c_libs \<Rightarrow> nat option \<Rightarrow> string option \<Rightarrow> string option \<Rightarrow> nat option \<Rightarrow> 'srv c_world \<Rightarrow>
     status \<times> 'srv c_world" where
  "spark_connection_set_option E cnxn key val err = guarded E err ''AdbcConnectionSetOption''
    (when_ok (check_conn_alloc E cnxn err ''AdbcConnectionSetOption'') (\<lambda>h.
      c_bind (get_conn h) (\<lambda>conn. case ccn_cnxn conn of
        None \<Rightarrow>
          (let args = (case ccn_init conn of None \<Rightarrow> Map.empty | Some m \<Rightarrow> m) in
           (\<lambda>w. (Done StatusOK, set_handle h
              (ObjConn (conn\<lparr>ccn_init := Some (args(go_string key \<mapsto> go_string val))\<rparr>)) w)))
      | Some k \<Rightarrow>
          (case connection_post_init of
             None \<Rightarrow> c_fail E err ''AdbcConnectionSetOption: not supported post-init'' StatusNotImplemented
           | Some f \<Rightarrow> (\<lambda>w. case f k (go_string key) (go_string val) (cw_go w) of
               (e, W) \<Rightarrow> c_status E err e (put_go W w))))))"

section \<open>New, Init, Release, Cancel\<close>

definition spark_connection_new ::
  "'srv c_libs \<Rightarrow> nat option \<Rightarrow> nat option \<Rightarrow> 'srv c_world \<Rightarrow> status \<times> 'srv c_world" where
  "spark_connection_new E cnxn err = guarded E err ''AdbcConnectionNew'' (\<lambda>w.
    if cw_poison w then
      c_fail E err ''AdbcConnectionNew: Go panicked, driver is in unknown state'' StatusInternal w
    else (case cnxn of
      None \<Rightarrow> (Panicked NilPointer, w)
    | Some a \<Rightarrow>
        if cw_cnxns w a \<noteq> None then
          c_fail E err ''AdbcConnectionNew: connection already allocated'' StatusInvalidState w
        else (case create_handle (ObjConn \<lparr>ccn_cancel = None, ccn_cnxn = None, ccn_init = None\<rparr>) w of
          (h, w1) \<Rightarrow> (Done StatusOK, w1\<lparr>cw_cnxns := (cw_cnxns w1)(a \<mapsto> h)\<rparr>))))"

text \<open>The loop that hands the options over; an error leaves it.\<close>

fun apply_init_args ::
  "'srv c_libs \<Rightarrow> nat option \<Rightarrow> (string \<Rightarrow> string \<Rightarrow> 'srv world \<Rightarrow> go_error option \<times> 'srv world) \<Rightarrow>
     (string \<times> string) list \<Rightarrow> ('srv, status) c_act" where
  "apply_init_args E err f [] w = (Done StatusOK, w)"
| "apply_init_args E err f (kv # kvs) w =
    (case f (fst kv) (snd kv) (cw_go w) of
       (e, W) \<Rightarrow> (case c_status E err e (put_go W w) of
          (Done code, w') \<Rightarrow>
            if code \<noteq> StatusOK then (Done code, w') else apply_init_args E err f kvs w'
        | (Panicked p, w') \<Rightarrow> (Panicked p, w')))"

definition init_options ::
  "'srv c_libs \<Rightarrow> nat option \<Rightarrow> nat \<Rightarrow> c_conn \<Rightarrow> nat \<Rightarrow> ('srv, status) c_act" where
  "init_options E err h conn k w =
    (let args = (case ccn_init conn of None \<Rightarrow> [] | Some m \<Rightarrow> cl_map_order E m) in
     if args = [] then (Done StatusOK, w)
     else (case connection_post_init of
       None \<Rightarrow> c_fail E err ''AdbcConnectionInit: options are not supported'' StatusNotImplemented w
     | Some f \<Rightarrow> c_bind (apply_init_args E err (f k) args) (\<lambda>code w.
         (Done code, if code = StatusOK then set_handle h (ObjConn (conn\<lparr>ccn_init := None\<rparr>)) w else w)) w))"

definition spark_connection_init ::
  "'srv c_libs \<Rightarrow> nat option \<Rightarrow> nat option \<Rightarrow> nat option \<Rightarrow> 'srv c_world \<Rightarrow> status \<times> 'srv c_world" where
  "spark_connection_init E cnxn db err = guarded E err ''AdbcConnectionInit''
    (when_ok (check_conn_alloc E cnxn err ''AdbcConnectionInit'') (\<lambda>h.
      c_bind (get_conn h) (\<lambda>conn.
        if ccn_cnxn conn \<noteq> None then
          c_fail E err ''AdbcConnectionInit: connection already initialized'' StatusInvalidState
        else when_ok (check_db_init E db err ''AdbcConnectionInit'') (\<lambda>(hd, cdb, d) w.
          case open_connection (cl_libs E) d (cw_go w) of
            (Inl e, W) \<Rightarrow> c_status E err (Some e) (put_go W w)
          | (Inr k, W) \<Rightarrow>
              (let conn1 = conn\<lparr>ccn_cnxn := Some k\<rparr> in
               init_options E err h conn1 k (set_handle h (ObjConn conn1) (put_go W w)))))))"

text \<open>The deferred clean-up runs after the status was determined.\<close>

definition spark_connection_release ::
  "'srv c_libs \<Rightarrow> nat option \<Rightarrow> nat option \<Rightarrow> 'srv c_world \<Rightarrow> status \<times> 'srv c_world" where
  "spark_connection_release E cnxn err = guarded E err ''AdbcConnectionRelease''
    (when_ok (check_conn_alloc E cnxn err ''AdbcConnectionRelease'') (\<lambda>h.
      c_bind (get_conn h) (\<lambda>conn w.
        case (case ccn_cnxn conn of
            None \<Rightarrow> (Done StatusOK, w)
          | Some k \<Rightarrow> (case connection_close (cl_libs E) k (cw_go w) of
              (e, W) \<Rightarrow> c_status E err e (put_go W w))) of
          (res, w1) \<Rightarrow>
            (let w2 = cancel_context (ccn_cancel conn) w1 in
             (res, delete_handle h (w2\<lparr>cw_cnxns := (cw_cnxns w2)(the cnxn := None)\<rparr>))))))"

definition spark_connection_cancel ::
  "'srv c_libs \<Rightarrow> nat option \<Rightarrow> nat option \<Rightarrow> 'srv c_world \<Rightarrow> status \<times> 'srv c_world" where
  "spark_connection_cancel E cnxn err = guarded E err ''AdbcConnectionCancel''
    (when_ok (check_conn_init E cnxn err ''AdbcConnectionCancel'') (\<lambda>(h, conn, k) w.
      (Done StatusOK, set_handle h (ObjConn (conn\<lparr>ccn_cancel := None\<rparr>))
        (cancel_context (ccn_cancel conn) w))))"

section \<open>Metadata\<close>

definition spark_connection_get_info ::
  "'srv c_libs \<Rightarrow> nat option \<Rightarrow> int32 list option \<Rightarrow> nat \<Rightarrow> nat option \<Rightarrow> nat option \<Rightarrow> 'srv c_world \<Rightarrow>
     status \<times> 'srv c_world" where
  "spark_connection_get_info E cnxn codes len out err = guarded E err ''AdbcConnectionGetInfo''
    (when_ok (check_conn_init E cnxn err ''AdbcConnectionGetInfo'') (\<lambda>(h, conn, k) w0.
      let w = conn_new_context h conn w0 in
      case get_info (cl_libs E) (cl_arrow_version E) (cl_info_order E) k [] (from_c_arr codes len) (cw_go w) of
        (Inl e, W) \<Rightarrow> c_status E err (Some e) (put_go W w)
      | (Inr rows, W) \<Rightarrow> export_and_release (TableReader (InfoTable rows) 0 1) out (put_go W w)))"

definition spark_connection_get_objects ::
  "'srv c_libs \<Rightarrow> nat option \<Rightarrow> int \<Rightarrow> string option \<Rightarrow> string option \<Rightarrow> string option \<Rightarrow>
     string list option \<Rightarrow> string option \<Rightarrow> nat option \<Rightarrow> nat option \<Rightarrow> 'srv c_world \<Rightarrow> status \<times> 'srv c_world"
  where
  "spark_connection_get_objects E cnxn depth catalog db_schema table_name table_type column_name out err =
    guarded E err ''AdbcConnectionGetObjects''
    (when_ok (check_conn_init E cnxn err ''AdbcConnectionGetObjects'') (\<lambda>(h, conn, k) w0.
      let w = conn_new_context h conn w0 in
      case get_objects (cl_libs E) k [] depth (to_str_ptr catalog) (to_str_ptr db_schema)
          (to_str_ptr table_name) (to_str_ptr column_name) (to_str_slice table_type) (cw_go w) of
        None \<Rightarrow> (Panicked DriverPanic, w)
      | Some (Inl e, W) \<Rightarrow> c_status E err (Some e) (put_go W w)
      | Some (Inr rows, W) \<Rightarrow> export_and_release (TableReader (ObjectsTable rows) 0 1) out (put_go W w)))"

text \<open>The driver's connection is no \<^verbatim>\<open>ConnectionGetStatistics\<close>, so both functions end at the type
  assertion, under the name of the first.\<close>

definition statistics_refused :: "'srv c_libs \<Rightarrow> nat option \<Rightarrow> ('srv, status) c_act" where
  "statistics_refused E err = c_fail E err ''AdbcConnectionGetStatistics: not supported'' StatusNotImplemented"

definition spark_connection_get_statistics ::
  "'srv c_libs \<Rightarrow> nat option \<Rightarrow> nat option \<Rightarrow> 'srv c_world \<Rightarrow> status \<times> 'srv c_world" where
  "spark_connection_get_statistics E cnxn err = guarded E err ''AdbcConnectionGetStatistics''
    (when_ok (check_conn_init E cnxn err ''AdbcConnectionGetStatistics'') (\<lambda>(h, conn, k).
      statistics_refused E err))"

definition spark_connection_get_statistic_names ::
  "'srv c_libs \<Rightarrow> nat option \<Rightarrow> nat option \<Rightarrow> 'srv c_world \<Rightarrow> status \<times> 'srv c_world" where
  "spark_connection_get_statistic_names E cnxn err = guarded E err ''AdbcConnectionGetStatistics''
    (when_ok (check_conn_init E cnxn err ''AdbcConnectionGetStatistics'') (\<lambda>(h, conn, k).
      statistics_refused E err))"

definition export_schema :: "schema \<Rightarrow> nat option \<Rightarrow> ('srv, status) c_act" where
  "export_schema sc out w = (case out of
     None \<Rightarrow> (Panicked NilPointer, w)
   | Some a \<Rightarrow> (Done StatusOK, w\<lparr>cw_schemas := (cw_schemas w)(a \<mapsto> sc)\<rparr>))"

definition spark_connection_get_table_schema ::
  "'srv c_libs \<Rightarrow> nat option \<Rightarrow> string option \<Rightarrow> string option \<Rightarrow> string option \<Rightarrow> nat option \<Rightarrow>
     nat option \<Rightarrow> 'srv c_world \<Rightarrow> status \<times> 'srv c_world" where
  "spark_connection_get_table_schema E cnxn catalog db_schema table_name schema err =
    guarded E err ''AdbcConnectionGetTableSchema''
    (when_ok (check_conn_init E cnxn err ''AdbcConnectionGetTableSchema'') (\<lambda>(h, conn, k) w0.
      let w = conn_new_context h conn w0 in
      case get_table_schema (cl_libs E) k [] (to_str_ptr catalog) (to_str_ptr db_schema)
          (go_string table_name) (cw_go w) of
        None \<Rightarrow> (Panicked DriverPanic, w)
      | Some (Inl e, W) \<Rightarrow> c_status E err (Some e) (put_go W w)
      | Some (Inr sc, W) \<Rightarrow> export_schema sc schema (put_go W w)))"

definition spark_connection_get_table_types ::
  "'srv c_libs \<Rightarrow> nat option \<Rightarrow> nat option \<Rightarrow> nat option \<Rightarrow> 'srv c_world \<Rightarrow> status \<times> 'srv c_world" where
  "spark_connection_get_table_types E cnxn out err = guarded E err ''AdbcConnectionGetTableTypes''
    (when_ok (check_conn_init E cnxn err ''AdbcConnectionGetTableTypes'') (\<lambda>(h, conn, k) w0.
      let w = conn_new_context h conn w0 in
      case get_table_types k (cw_go w) of
        Inl e \<Rightarrow> c_status E err (Some e) w
      | Inr (sc, b) \<Rightarrow> export_and_release (TableReader (TypesTable sc b) 0 1) out w))"

definition spark_connection_read_partition ::
  "'srv c_libs \<Rightarrow> nat option \<Rightarrow> string option \<Rightarrow> nat \<Rightarrow> nat option \<Rightarrow> nat option \<Rightarrow> 'srv c_world \<Rightarrow>
     status \<times> 'srv c_world" where
  "spark_connection_read_partition E cnxn serialized len out err = guarded E err ''AdbcConnectionReadPartition''
    (when_ok (check_conn_init E cnxn err ''AdbcConnectionReadPartition'') (\<lambda>(h, conn, k) w0.
      let w = conn_new_context h conn w0 in
      case read_partition k (from_c_arr serialized len) of
        Inl e \<Rightarrow> c_status E err (Some e) w
      | Inr r \<Rightarrow> export_and_release (ResultReader r) out w))"

definition spark_connection_commit ::
  "'srv c_libs \<Rightarrow> nat option \<Rightarrow> nat option \<Rightarrow> 'srv c_world \<Rightarrow> status \<times> 'srv c_world" where
  "spark_connection_commit E cnxn err = guarded E err ''AdbcConnectionCommit''
    (when_ok (check_conn_init E cnxn err ''AdbcConnectionCommit'') (\<lambda>(h, conn, k) w.
      c_status E err (commit k) (conn_new_context h conn w)))"

definition spark_connection_rollback ::
  "'srv c_libs \<Rightarrow> nat option \<Rightarrow> nat option \<Rightarrow> 'srv c_world \<Rightarrow> status \<times> 'srv c_world" where
  "spark_connection_rollback E cnxn err = guarded E err ''AdbcConnectionRollback''
    (when_ok (check_conn_init E cnxn err ''AdbcConnectionRollback'') (\<lambda>(h, conn, k) w.
      c_status E err (rollback k) (conn_new_context h conn w)))"

end
