(* ===== verification/C_Statement.thy ===== *)
theory C_Statement
  imports C_Connection
begin

text \<open>The statement functions of \<^verbatim>\<open>c/driver.go\<close>. The Go statement is owned by its handle.\<close>

section \<open>Checks\<close>

definition check_stmt_alloc ::
  "'srv c_libs \<Rightarrow> nat option \<Rightarrow> nat option \<Rightarrow> string \<Rightarrow> ('srv, nat option) c_act" where
  "check_stmt_alloc E = check_alloc E ''statement'' cw_stmts"

definition check_stmt_init ::
  "'srv c_libs \<Rightarrow> nat option \<Rightarrow> nat option \<Rightarrow> string \<Rightarrow> ('srv, (nat \<times> c_stmt \<times> statement) option) c_act" where
  "check_stmt_init E stmt err fname = c_bind (check_stmt_alloc E stmt err fname) (\<lambda>r. case r of
     None \<Rightarrow> c_ret None
   | Some h \<Rightarrow> c_bind (get_stmt h) (\<lambda>cs. case cst_stmt cs of
       None \<Rightarrow> c_fail_in E err fname ''statement not allocated'' None
     | Some st \<Rightarrow> c_ret (Some (h, cs, st))))"

text \<open>\<^verbatim>\<open>st.newContext()\<close> gives the handle's structure with the new context.\<close>

definition stmt_new_context :: "nat \<Rightarrow> c_stmt \<Rightarrow> 'srv c_world \<Rightarrow> c_stmt \<times> 'srv c_world" where
  "stmt_new_context h cs w = (case new_context (cst_cancel cs) w of
     (i, w1) \<Rightarrow> (let cs1 = cs\<lparr>cst_cancel := Some i\<rparr> in (cs1, set_handle h (ObjStmt cs1) w1)))"

definition put_statement :: "nat \<Rightarrow> c_stmt \<Rightarrow> statement \<Rightarrow> 'srv c_world \<Rightarrow> 'srv c_world" where
  "put_statement h cs st = set_handle h (ObjStmt (cs\<lparr>cst_stmt := Some st\<rparr>))"

section \<open>Options\<close>

definition statement_options :: "statement option_ops option" where
  "statement_options = None"

definition spark_statement_get_option where
  "spark_statement_get_option E stmt key value len err =
    guarded E err ''AdbcStatementGetOption'' (when_ok (check_stmt_init E stmt err ''AdbcStatementGetOption'')
      (\<lambda>(h, cs, st). get_option_string E statement_options err ''AdbcStatementGetOption'' st key value len))"

definition spark_statement_get_option_bytes where
  "spark_statement_get_option_bytes E stmt key value len err =
    guarded E err ''AdbcStatementGetOptionBytes'' (when_ok (check_stmt_init E stmt err ''AdbcStatementGetOptionBytes'')
      (\<lambda>(h, cs, st). get_option_bytes E statement_options err ''AdbcStatementGetOptionBytes'' st key value len))"

definition spark_statement_get_option_double where
  "spark_statement_get_option_double E stmt key value err =
    guarded E err ''AdbcStatementGetOptionDouble'' (when_ok (check_stmt_init E stmt err ''AdbcStatementGetOptionDouble'')
      (\<lambda>(h, cs, st). get_option_double E statement_options err ''AdbcStatementGetOptionDouble'' st key value))"

definition spark_statement_get_option_int where
  "spark_statement_get_option_int E stmt key value err =
    guarded E err ''AdbcStatementGetOptionInt'' (when_ok (check_stmt_init E stmt err ''AdbcStatementGetOptionInt'')
      (\<lambda>(h, cs, st). get_option_int E statement_options err ''AdbcStatementGetOptionInt'' st key value))"

definition spark_statement_set_option_bytes where
  "spark_statement_set_option_bytes E stmt key value len err =
    guarded E err ''AdbcStatementSetOptionBytes'' (when_ok (check_stmt_init E stmt err ''AdbcStatementSetOptionBytes'')
      (\<lambda>(h, cs, st). set_option_bytes E statement_options err ''AdbcStatementSetOptionBytes'' st
        (put_statement h cs) key value len))"

definition spark_statement_set_option_double where
  "spark_statement_set_option_double E stmt key value err =
    guarded E err ''AdbcStatementSetOptionDouble'' (when_ok (check_stmt_init E stmt err ''AdbcStatementSetOptionDouble'')
      (\<lambda>(h, cs, st). set_option_double E statement_options err ''AdbcStatementSetOptionDouble'' st
        (put_statement h cs) key value))"

definition spark_statement_set_option_int where
  "spark_statement_set_option_int E stmt key value err =
    guarded E err ''AdbcStatementSetOptionInt'' (when_ok (check_stmt_init E stmt err ''AdbcStatementSetOptionInt'')
      (\<lambda>(h, cs, st). set_option_int E statement_options err ''AdbcStatementSetOptionInt'' st
        (put_statement h cs) key value))"

definition spark_statement_set_option ::
  "'srv c_libs \<Rightarrow> nat option \<Rightarrow> string option \<Rightarrow> string option \<Rightarrow> nat option \<Rightarrow> 'srv c_world \<Rightarrow>
     status \<times> 'srv c_world" where
  "spark_statement_set_option E stmt key value err = guarded E err ''AdbcStatementSetOption''
    (when_ok (check_stmt_init E stmt err ''AdbcStatementSetOption'') (\<lambda>(h, cs, st).
      c_status E err (statement_set_option (go_string key) (go_string value))))"

section \<open>New, Release, Cancel\<close>

definition spark_statement_new ::
  "'srv c_libs \<Rightarrow> nat option \<Rightarrow> nat option \<Rightarrow> nat option \<Rightarrow> 'srv c_world \<Rightarrow> status \<times> 'srv c_world" where
  "spark_statement_new E cnxn stmt err = guarded E err ''AdbcStatementNew'' (\<lambda>w.
    if cw_poison w then
      c_fail E err ''AdbcStatementNew: Go panicked, driver is in unknown state'' StatusInternal w
    else (case stmt of
      None \<Rightarrow> (Panicked NilPointer, w)
    | Some a \<Rightarrow>
        if cw_stmts w a \<noteq> None then
          c_fail E err ''AdbcStatementNew: statement already allocated'' StatusInvalidState w
        else when_ok (check_conn_init E cnxn err ''AdbcStatementNew'') (\<lambda>(hc, conn, k) w.
          (case new_statement k (cw_go w) of
             Inl e \<Rightarrow> c_status E err (Some e) w
           | Inr st \<Rightarrow>
               (case create_handle (ObjStmt \<lparr>cst_cancel = None, cst_stmt = Some st\<rparr>) w of
                  (h, w1) \<Rightarrow> (Done StatusOK, w1\<lparr>cw_stmts := (cw_stmts w1)(a \<mapsto> h)\<rparr>)))) w))"

definition spark_statement_release ::
  "'srv c_libs \<Rightarrow> nat option \<Rightarrow> nat option \<Rightarrow> 'srv c_world \<Rightarrow> status \<times> 'srv c_world" where
  "spark_statement_release E stmt err = guarded E err ''AdbcStatementRelease'' (\<lambda>w.
    if cw_poison w then
      c_fail E err ''AdbcStatementRelease: Go panicked, driver is in unknown state'' StatusInternal w
    else when_ok (check_stmt_alloc E stmt err ''AdbcStatementRelease'') (\<lambda>h.
      c_bind (get_stmt h) (\<lambda>cs w.
        case (case cst_stmt cs of
            None \<Rightarrow> (Done StatusOK, w)
          | Some st \<Rightarrow> (case statement_close st (cw_go w) of
              (st', W) \<Rightarrow> c_status E err None (put_go W w))) of
          (res, w1) \<Rightarrow>
            (let w2 = cancel_context (cst_cancel cs) w1 in
             (res, delete_handle h (w2\<lparr>cw_stmts := (cw_stmts w2)(the stmt := None)\<rparr>))))) w)"

definition spark_statement_cancel ::
  "'srv c_libs \<Rightarrow> nat option \<Rightarrow> nat option \<Rightarrow> 'srv c_world \<Rightarrow> status \<times> 'srv c_world" where
  "spark_statement_cancel E stmt err = guarded E err ''AdbcStatementCancel''
    (when_ok (check_stmt_init E stmt err ''AdbcStatementCancel'') (\<lambda>(h, cs, st) w.
      (Done StatusOK, set_handle h (ObjStmt (cs\<lparr>cst_cancel := None\<rparr>))
        (cancel_context (cst_cancel cs) w))))"

section \<open>Execution\<close>

definition spark_statement_prepare ::
  "'srv c_libs \<Rightarrow> nat option \<Rightarrow> nat option \<Rightarrow> 'srv c_world \<Rightarrow> status \<times> 'srv c_world" where
  "spark_statement_prepare E stmt err = guarded E err ''AdbcStatementPrepare''
    (when_ok (check_stmt_init E stmt err ''AdbcStatementPrepare'') (\<lambda>(h, cs, st) w.
      case stmt_new_context h cs w of (cs1, w1) \<Rightarrow>
        (case prepare st of (e, st') \<Rightarrow> c_status E err e (put_statement h cs1 st' w1))))"

definition put_affected :: "nat option \<Rightarrow> int \<Rightarrow> 'srv c_world \<Rightarrow> 'srv c_world" where
  "put_affected affected n w = (case affected of
     None \<Rightarrow> w | Some a \<Rightarrow> w\<lparr>cw_ints := (cw_ints w)(a := word_of_int n)\<rparr>)"

text \<open>Without a place for the result the statement is an update.\<close>

definition spark_statement_execute_query ::
  "'srv c_libs \<Rightarrow> nat option \<Rightarrow> nat option \<Rightarrow> nat option \<Rightarrow> nat option \<Rightarrow> 'srv c_world \<Rightarrow>
     status \<times> 'srv c_world" where
  "spark_statement_execute_query E stmt out affected err = guarded E err ''AdbcStatementExecuteQuery''
    (when_ok (check_stmt_init E stmt err ''AdbcStatementExecuteQuery'') (\<lambda>(h, cs, st) w.
      case stmt_new_context h cs w of (cs1, w1) \<Rightarrow>
        if out = None then
          (case execute_update (cl_libs E) [] st (cw_go w1) of
             None \<Rightarrow> (Panicked DriverPanic, w1)
           | Some (Some e, n, W) \<Rightarrow> c_status E err (Some e) (put_go W w1)
           | Some (None, n, W) \<Rightarrow> (Done StatusOK, put_affected affected n (put_go W w1)))
        else
          (case execute_query (cl_libs E) [] st (cw_go w1) of
             None \<Rightarrow> (Panicked DriverPanic, w1)
           | Some (Inl e, n, W) \<Rightarrow> c_status E err (Some e) (put_go W w1)
           | Some (Inr r, n, W) \<Rightarrow>
               export_and_release (ResultReader r) out (put_affected affected n (put_go W w1)))))"

text \<open>The driver's statement is no \<^verbatim>\<open>StatementExecuteSchema\<close>; the function checks under the name of
  another.\<close>

definition spark_statement_execute_schema ::
  "'srv c_libs \<Rightarrow> nat option \<Rightarrow> nat option \<Rightarrow> 'srv c_world \<Rightarrow> status \<times> 'srv c_world" where
  "spark_statement_execute_schema E stmt err = guarded E err ''AdbcStatementExecuteQuery''
    (when_ok (check_stmt_init E stmt err ''AdbcStatementExecuteQuery'') (\<lambda>(h, cs, st).
      c_fail E err ''AdbcStatementExecuteSchema: not supported'' StatusNotImplemented))"

definition spark_statement_set_sql_query ::
  "'srv c_libs \<Rightarrow> nat option \<Rightarrow> string option \<Rightarrow> nat option \<Rightarrow> 'srv c_world \<Rightarrow> status \<times> 'srv c_world" where
  "spark_statement_set_sql_query E stmt query err = guarded E err ''AdbcStatementSetSqlQuery''
    (when_ok (check_stmt_init E stmt err ''AdbcStatementSetSqlQuery'') (\<lambda>(h, cs, st) w.
      case set_sql_query (go_string query) st of
        (e, st') \<Rightarrow> c_status E err e (put_statement h cs st' w)))"

definition spark_statement_set_substrait_plan ::
  "'srv c_libs \<Rightarrow> nat option \<Rightarrow> string option \<Rightarrow> nat \<Rightarrow> nat option \<Rightarrow> 'srv c_world \<Rightarrow>
     status \<times> 'srv c_world" where
  "spark_statement_set_substrait_plan E stmt plan len err = guarded E err ''AdbcStatementSetSubstraitPlan''
    (when_ok (check_stmt_init E stmt err ''AdbcStatementSetSubstraitPlan'') (\<lambda>(h, cs, st).
      c_status E err (set_substrait_plan (from_c_arr plan len))))"

section \<open>Binding\<close>

text \<open>The imported record is a new object of which the function holds one reference.\<close>

definition import_record :: "record_batch \<Rightarrow> 'srv world \<Rightarrow> batch_ref \<times> 'srv world" where
  "import_record rec W =
    (let b = (rt_next (wd_run W), rec)
     in (b, W\<lparr>wd_run := retain_rec b ((wd_run W)\<lparr>rt_next := rt_next (wd_run W) + 1\<rparr>)\<rparr>))"

definition at_address :: "('srv c_world \<Rightarrow> nat \<Rightarrow> 'a) \<Rightarrow> nat option \<Rightarrow> 'srv c_world \<Rightarrow> 'a option" where
  "at_address f p w = map_option (f w) p"

text \<open>The array is the driver's after a successful import, and released after a failed one.\<close>

definition take_array :: "nat option \<Rightarrow> 'srv c_world \<Rightarrow> 'srv c_world" where
  "take_array p w = (case p of None \<Rightarrow> w | Some a \<Rightarrow> w\<lparr>cw_arrays := (cw_arrays w)(a := None)\<rparr>)"

definition spark_statement_bind ::
  "'srv c_libs \<Rightarrow> nat option \<Rightarrow> nat option \<Rightarrow> nat option \<Rightarrow> nat option \<Rightarrow> 'srv c_world \<Rightarrow>
     status \<times> 'srv c_world" where
  "spark_statement_bind E stmt values schema err = guarded E err ''AdbcStatementBind''
    (when_ok (check_stmt_init E stmt err ''AdbcStatementBind'') (\<lambda>(h, cs, st) w.
      case cl_import E (at_address cw_arrays values w) (at_address cw_schemas schema w) of
        ImportPanic \<Rightarrow> (Panicked NilPointer, w)
      | ImportError e \<Rightarrow> c_status E err (Some (Plain (Text e))) (take_array values w)
      | Imported rec \<Rightarrow>
          (case import_record rec (cw_go w) of (b, W) \<Rightarrow>
            (case stmt_new_context h cs (take_array values (put_go W w)) of (cs1, w1) \<Rightarrow>
              (case bind_params (Some b) st (cw_go w1) of (e, st', W') \<Rightarrow>
                (case c_status E err e (put_statement h cs1 st' (put_go W' w1)) of (res, w2) \<Rightarrow>
                  (res, put_run (release_rec b (wd_run (cw_go w2))) w2)))))))"

text \<open>Importing takes the stream over.\<close>

definition take_stream :: "nat option \<Rightarrow> 'srv c_world \<Rightarrow> 'srv c_world" where
  "take_stream p w = (case p of
     None \<Rightarrow> w
   | Some a \<Rightarrow> w\<lparr>cw_streams := (cw_streams w)(a := \<lparr>cs_release = StreamReleased, cs_private = None\<rparr>)\<rparr>)"

definition spark_statement_bind_stream ::
  "'srv c_libs \<Rightarrow> nat option \<Rightarrow> nat option \<Rightarrow> nat option \<Rightarrow> 'srv c_world \<Rightarrow> status \<times> 'srv c_world" where
  "spark_statement_bind_stream E stmt stream err = guarded E err ''AdbcStatementBindStream''
    (when_ok (check_stmt_init E stmt err ''AdbcStatementBindStream'') (\<lambda>(h, cs, st) w.
      case cl_import_stream E (at_address cw_streams stream w) of
        StreamImportPanic \<Rightarrow> (Panicked NilPointer, w)
      | StreamImportError e \<Rightarrow> c_status E err (Some (Plain (Text e))) (take_stream stream w)
      | StreamImported \<Rightarrow>
          (case stmt_new_context h cs (take_stream stream w) of (cs1, w1) \<Rightarrow>
            c_status E err bind_stream w1)))"

definition spark_statement_get_parameter_schema ::
  "'srv c_libs \<Rightarrow> nat option \<Rightarrow> nat option \<Rightarrow> nat option \<Rightarrow> 'srv c_world \<Rightarrow> status \<times> 'srv c_world" where
  "spark_statement_get_parameter_schema E stmt schema err = guarded E err ''AdbcStatementGetParameterSchema''
    (when_ok (check_stmt_init E stmt err ''AdbcStatementGetParameterSchema'') (\<lambda>(h, cs, st).
      case get_parameter_schema of
        Inl e \<Rightarrow> c_status E err (Some e)
      | Inr sc \<Rightarrow> export_schema sc schema))"

section \<open>Partitions\<close>

text \<open>The loop that copies the partitions: \<open>dst\<close> is what is left of the block, from offset \<open>off\<close> on;
  the pointer to its first byte panics when nothing is left, and so does an index past
  \<^verbatim>\<open>num_partitions\<close>. The partitions before that are already in the structure.\<close>

fun copy_partitions :: "nat \<Rightarrow> nat \<Rightarrow> nat \<Rightarrow> string list \<Rightarrow> (nat \<times> nat) list \<times> panic option" where
  "copy_partitions num off dst [] = ([], None)"
| "copy_partitions num off dst (p # ps) =
    (if dst = 0 \<or> num = 0 then ([], Some IndexOutOfRange)
     else apfst ((#) (off, length p))
       (copy_partitions (num - 1) (off + length p) (dst - length p) ps))"

text \<open>The two arrays have \<^verbatim>\<open>num_partitions\<close> entries and come from \<^verbatim>\<open>malloc\<close>: an entry that is not
  written stays uninitialized, which is \<open>None\<close>.\<close>

definition export_partitions :: "partitions \<Rightarrow> nat \<Rightarrow> ('srv, status) c_act" where
  "export_partitions part a w =
    (let data = concat (part_ids part);
         w1 = with_mem (\<lambda>m. m\<lparr>cm_blocks := cm_blocks m + 3\<rparr>) w
     in case copy_partitions (part_num part) 0 (length data) (part_ids part) of
          (ls, failed) \<Rightarrow>
            ((case failed of Some x \<Rightarrow> Panicked x | None \<Rightarrow> Done StatusOK),
             w1\<lparr>cw_parts := (cw_parts w1)(a := \<lparr>cp_data = Some data, cp_num = part_num part,
               cp_parts = map Some ls @ replicate (part_num part - length ls) None\<rparr>)\<rparr>))"

definition release_partitions :: "nat option \<Rightarrow> ('srv, unit) c_act" where
  "release_partitions p w = (case p of
     None \<Rightarrow> (Panicked NilPointer, w)
   | Some a \<Rightarrow>
       if cp_data (cw_parts w a) = None then (Done (), w)
       else (Done (), with_mem (\<lambda>m. m\<lparr>cm_blocks := cm_blocks m - 3\<rparr>)
         (w\<lparr>cw_parts := (cw_parts w)(a := (cw_parts w a)\<lparr>cp_data := None, cp_parts := []\<rparr>)\<rparr>)))"

definition spark_statement_execute_partitions ::
  "'srv c_libs \<Rightarrow> nat option \<Rightarrow> nat option \<Rightarrow> nat option \<Rightarrow> nat option \<Rightarrow> nat option \<Rightarrow> 'srv c_world \<Rightarrow>
     status \<times> 'srv c_world" where
  "spark_statement_execute_partitions E stmt schema partitions affected err =
    guarded E err ''AdbcStatementExecutePartitions''
    (when_ok (check_stmt_init E stmt err ''AdbcStatementExecutePartitions'') (\<lambda>(h, cs, st) w.
      case stmt_new_context h cs w of (cs1, w1) \<Rightarrow>
        (case execute_partitions of
           Inl e \<Rightarrow> c_status E err (Some e) w1
         | Inr (sc, part, n) \<Rightarrow>
             (case partitions of
                None \<Rightarrow> c_fail E err
                  ''AdbcStatementExecutePartitions: partitions output struct is null'' StatusInvalidArgument w1
              | Some a \<Rightarrow>
                  (let w2 = put_affected affected n w1;
                       w3 = (case (sc, schema) of
                          (Some s, Some b) \<Rightarrow> w2\<lparr>cw_schemas := (cw_schemas w2)(b \<mapsto> s)\<rparr>
                        | _ \<Rightarrow> w2)
                   in export_partitions part a w3)))))"

end
