(* ===== verification/C_Driver.thy ===== *)
theory C_Driver
  imports C_Errors
begin

text \<open>
  \<^verbatim>\<open>AdbcDriverSparkInit\<close> of \<^verbatim>\<open>c/driver.go\<close>: the driver manager passes a \<^verbatim>\<open>struct AdbcDriver\<close> of the
  version it knows, and the function fills in its callbacks. The structure is memory in cells of
  one pointer, numbered from its start; the layout is that of \<^verbatim>\<open>adbc.h\<close>. A cell holds the name of a
  function, or \<open>None\<close> for null.
\<close>

definition driver_layout :: "string list" where
  "driver_layout = [
     ''private_data'', ''private_manager'', ''release'', ''DatabaseInit'', ''DatabaseNew'',
     ''DatabaseSetOption'', ''DatabaseRelease'', ''ConnectionCommit'', ''ConnectionGetInfo'',
     ''ConnectionGetObjects'', ''ConnectionGetTableSchema'', ''ConnectionGetTableTypes'',
     ''ConnectionInit'', ''ConnectionNew'', ''ConnectionSetOption'',
     ''ConnectionReadPartition'', ''ConnectionRelease'', ''ConnectionRollback'',
     ''StatementBind'', ''StatementBindStream'', ''StatementExecuteQuery'',
     ''StatementExecutePartitions'', ''StatementGetParameterSchema'', ''StatementNew'',
     ''StatementPrepare'', ''StatementRelease'', ''StatementSetOption'',
     ''StatementSetSqlQuery'', ''StatementSetSubstraitPlan'', ''ErrorGetDetailCount'',
     ''ErrorGetDetail'', ''ErrorFromArrayStream'', ''DatabaseGetOption'',
     ''DatabaseGetOptionBytes'', ''DatabaseGetOptionDouble'', ''DatabaseGetOptionInt'',
     ''DatabaseSetOptionBytes'', ''DatabaseSetOptionDouble'', ''DatabaseSetOptionInt'',
     ''ConnectionCancel'', ''ConnectionGetOption'', ''ConnectionGetOptionBytes'',
     ''ConnectionGetOptionDouble'', ''ConnectionGetOptionInt'', ''ConnectionGetStatistics'',
     ''ConnectionGetStatisticNames'', ''ConnectionSetOptionBytes'',
     ''ConnectionSetOptionDouble'', ''ConnectionSetOptionInt'', ''StatementCancel'',
     ''StatementExecuteSchema'', ''StatementGetOption'', ''StatementGetOptionBytes'',
     ''StatementGetOptionDouble'', ''StatementGetOptionInt'', ''StatementSetOptionBytes'',
     ''StatementSetOptionDouble'', ''StatementSetOptionInt'']"

definition version_1_0_0 :: int where "version_1_0_0 = 1000000"
definition version_1_1_0 :: int where "version_1_1_0 = 1001000"

definition slot_index :: "string \<Rightarrow> nat" where
  "slot_index s = length (takeWhile (\<lambda>x. x \<noteq> s) driver_layout)"

text \<open>\<^verbatim>\<open>ADBC_DRIVER_1_0_0_SIZE\<close> and \<^verbatim>\<open>ADBC_DRIVER_1_1_0_SIZE\<close>, in cells.\<close>

definition driver_1_0_0_size :: nat where "driver_1_0_0_size = slot_index ''ErrorGetDetailCount''"
definition driver_1_1_0_size :: nat where "driver_1_1_0_size = length driver_layout"

text \<open>The assignments of a function to a slot, in the order of the code.\<close>

definition slots_1_0_0 :: "(string \<times> string) list" where
  "slots_1_0_0 = [
     (''DatabaseInit'', ''SparkDatabaseInit''), (''DatabaseNew'', ''SparkDatabaseNew''),
     (''DatabaseRelease'', ''SparkDatabaseRelease''), (''DatabaseSetOption'', ''SparkDatabaseSetOption''),
     (''ConnectionNew'', ''SparkConnectionNew''), (''ConnectionInit'', ''SparkConnectionInit''),
     (''ConnectionRelease'', ''SparkConnectionRelease''), (''ConnectionSetOption'', ''SparkConnectionSetOption''),
     (''ConnectionGetInfo'', ''SparkConnectionGetInfo''), (''ConnectionGetObjects'', ''SparkConnectionGetObjects''),
     (''ConnectionGetTableSchema'', ''SparkConnectionGetTableSchema''), (''ConnectionGetTableTypes'', ''SparkConnectionGetTableTypes''),
     (''ConnectionReadPartition'', ''SparkConnectionReadPartition''), (''ConnectionCommit'', ''SparkConnectionCommit''),
     (''ConnectionRollback'', ''SparkConnectionRollback''), (''StatementNew'', ''SparkStatementNew''),
     (''StatementRelease'', ''SparkStatementRelease''), (''StatementSetOption'', ''SparkStatementSetOption''),
     (''StatementSetSqlQuery'', ''SparkStatementSetSqlQuery''), (''StatementSetSubstraitPlan'', ''SparkStatementSetSubstraitPlan''),
     (''StatementBind'', ''SparkStatementBind''), (''StatementBindStream'', ''SparkStatementBindStream''),
     (''StatementExecuteQuery'', ''SparkStatementExecuteQuery''), (''StatementExecutePartitions'', ''SparkStatementExecutePartitions''),
     (''StatementGetParameterSchema'', ''SparkStatementGetParameterSchema''), (''StatementPrepare'', ''SparkStatementPrepare'')]"

definition slots_1_1_0 :: "(string \<times> string) list" where
  "slots_1_1_0 = [
     (''ErrorGetDetailCount'', ''SparkErrorGetDetailCount''), (''ErrorGetDetail'', ''SparkErrorGetDetail''),
     (''ErrorFromArrayStream'', ''SparkErrorFromArrayStream''), (''DatabaseGetOption'', ''SparkDatabaseGetOption''),
     (''DatabaseGetOptionBytes'', ''SparkDatabaseGetOptionBytes''), (''DatabaseGetOptionDouble'', ''SparkDatabaseGetOptionDouble''),
     (''DatabaseGetOptionInt'', ''SparkDatabaseGetOptionInt''), (''DatabaseSetOptionBytes'', ''SparkDatabaseSetOptionBytes''),
     (''DatabaseSetOptionDouble'', ''SparkDatabaseSetOptionDouble''), (''DatabaseSetOptionInt'', ''SparkDatabaseSetOptionInt''),
     (''ConnectionCancel'', ''SparkConnectionCancel''), (''ConnectionGetOption'', ''SparkConnectionGetOption''),
     (''ConnectionGetOptionBytes'', ''SparkConnectionGetOptionBytes''), (''ConnectionGetOptionDouble'', ''SparkConnectionGetOptionDouble''),
     (''ConnectionGetOptionInt'', ''SparkConnectionGetOptionInt''), (''ConnectionGetStatistics'', ''SparkConnectionGetStatistics''),
     (''ConnectionGetStatisticNames'', ''SparkConnectionGetStatisticNames''), (''ConnectionSetOptionBytes'', ''SparkConnectionSetOptionBytes''),
     (''ConnectionSetOptionDouble'', ''SparkConnectionSetOptionDouble''), (''ConnectionSetOptionInt'', ''SparkConnectionSetOptionInt''),
     (''StatementCancel'', ''SparkStatementCancel''), (''StatementExecuteSchema'', ''SparkStatementExecuteSchema''),
     (''StatementGetOption'', ''SparkStatementGetOption''), (''StatementGetOptionBytes'', ''SparkStatementGetOptionBytes''),
     (''StatementGetOptionDouble'', ''SparkStatementGetOptionDouble''), (''StatementGetOptionInt'', ''SparkStatementGetOptionInt''),
     (''StatementSetOptionBytes'', ''SparkStatementSetOptionBytes''), (''StatementSetOptionDouble'', ''SparkStatementSetOptionDouble''),
     (''StatementSetOptionInt'', ''SparkStatementSetOptionInt'')]"

type_synonym driver_struct = "nat \<Rightarrow> string option"

definition clear :: "nat \<Rightarrow> driver_struct \<Rightarrow> driver_struct" where
  "clear n d = (\<lambda>i. if i < n then None else d i)"

definition install :: "(string \<times> string) list \<Rightarrow> driver_struct \<Rightarrow> driver_struct" where
  "install slots d = foldl (\<lambda>d (s, f). d(slot_index s \<mapsto> f)) d slots"

definition adbc_driver_spark_init ::
  "'a error_libs_scheme \<Rightarrow> int \<Rightarrow> driver_struct \<Rightarrow> nat option \<Rightarrow> c_memory \<Rightarrow>
     status \<times> driver_struct \<times> c_memory" where
  "adbc_driver_spark_init E version d err m =
    (if version = version_1_0_0 then
       (StatusOK, install slots_1_0_0 (clear driver_1_0_0_size d), m)
     else if version = version_1_1_0 then
       (StatusOK, install slots_1_1_0 (install slots_1_0_0 (clear driver_1_1_0_size d)), m)
     else (StatusNotImplemented, d,
       put_message E err (err_prefix @ ''Only version 1.0.0/1.1.0 supported, got '' @ itoa version) m))"

section \<open>What is written\<close>

lemma driver_sizes: "driver_1_0_0_size = 29" "driver_1_1_0_size = 58"
  by (simp_all add: driver_1_0_0_size_def driver_1_1_0_size_def slot_index_def driver_layout_def)

definition written_cells :: "int \<Rightarrow> nat" where
  "written_cells version = (if version = version_1_0_0 then driver_1_0_0_size
     else if version = version_1_1_0 then driver_1_1_0_size else 0)"

text \<open>Slots with the function of the same name.\<close>

definition named :: "string list \<Rightarrow> (string \<times> string) list" where
  "named slots = map (\<lambda>s. (s, ''Spark'' @ s)) slots"

lemma slots_named:
  "slots_1_0_0 = named (map fst slots_1_0_0)" "slots_1_1_0 = named (map fst slots_1_1_0)"
  by (simp_all add: named_def slots_1_0_0_def slots_1_1_0_def)

lemma install_slots: "install (named slots) d i =
    (if i \<in> slot_index ` set slots then Some (''Spark'' @ last (filter (\<lambda>s. slot_index s = i) slots)) else d i)"
  by (induction slots rule: rev_induct) (auto simp: install_def named_def)

text \<open>The callbacks of a structure are its cells after the three of the driver manager; every one
  is assigned.\<close>

lemma slots_cover:
  "set (map fst slots_1_0_0) = set (drop 3 (take driver_1_0_0_size driver_layout))"
  "set (map fst slots_1_0_0) \<union> set (map fst slots_1_1_0) = set (drop 3 driver_layout)"
  by (unfold driver_sizes slots_1_0_0_def slots_1_1_0_def driver_layout_def, simp_all add: insert_commute)

lemma layout_distinct: "distinct driver_layout" "length driver_layout = 58"
  by (simp_all add: driver_layout_def)

lemma slot_index_layout: "i < 58 \<Longrightarrow> slot_index (driver_layout ! i) = i"
proof -
  assume i: "i < 58"
  then have "driver_layout ! j \<noteq> driver_layout ! i" if "j < i" for j
    using that layout_distinct by (simp add: nth_eq_iff_index_eq)
  then have "takeWhile (\<lambda>x. x \<noteq> driver_layout ! i) driver_layout = take i driver_layout"
    using i layout_distinct(2) by (intro takeWhile_eq_take_P_nth) auto
  then show ?thesis using i layout_distinct(2) by (simp add: slot_index_def)
qed

lemma slot_index_image:
  assumes "set slots = set (drop 3 (take n driver_layout))" "n \<le> 58"
  shows "slot_index ` set slots = {3..<n}"
proof -
  have "x \<in> set slots \<longleftrightarrow> x \<in> (!) driver_layout ` {3..<n}" for x
  proof -
    have "x \<in> set slots \<longleftrightarrow> (\<exists>i<n - 3. x = driver_layout ! (3 + i))"
      using assms layout_distinct(2) by (auto simp: in_set_conv_nth min_def)
    also have "\<dots> \<longleftrightarrow> (\<exists>j\<in>{3..<n}. x = driver_layout ! j)"
    proof
      assume "\<exists>j\<in>{3..<n}. x = driver_layout ! j"
      then obtain j where "3 \<le> j" "j < n" "x = driver_layout ! j" by auto
      then show "\<exists>i<n - 3. x = driver_layout ! (3 + i)" by (intro exI [of _ "j - 3"]) simp
    next
      assume "\<exists>i<n - 3. x = driver_layout ! (3 + i)"
      then obtain i where "i < n - 3" "x = driver_layout ! (3 + i)" by blast
      then show "\<exists>j\<in>{3..<n}. x = driver_layout ! j" by (intro bexI [of _ "3 + i"]) auto
    qed
    finally show ?thesis by auto
  qed
  then have "set slots = (!) driver_layout ` {3..<n}" by blast
  then show ?thesis using assms(2) slot_index_layout by (force simp: image_iff)
qed

lemma install_cells:
  assumes slots: "set slots = set (drop 3 (take n driver_layout))" and n: "n \<le> 58" and "3 \<le> i" "i < n"
  shows "install (named slots) d i = Some (''Spark'' @ driver_layout ! i)"
proof -
  have i: "i \<in> slot_index ` set slots" using slot_index_image [OF slots n] assms by simp
  have only: "s = driver_layout ! i" if "s \<in> set slots" "slot_index s = i" for s
  proof -
    have "s \<in> set driver_layout" using that(1) set_drop_subset [of 3 "take n driver_layout"]
        set_take_subset [of n driver_layout] unfolding slots by blast
    then obtain j where "j < 58" "s = driver_layout ! j"
      by (metis in_set_conv_nth layout_distinct(2))
    then show ?thesis using that slot_index_layout by metis
  qed
  have "filter (\<lambda>s. slot_index s = i) slots \<noteq> []" using i by (auto simp: filter_empty_conv)
  from last_in_set [OF this]
  have "last (filter (\<lambda>s. slot_index s = i) slots) \<in> set slots \<and>
      slot_index (last (filter (\<lambda>s. slot_index s = i) slots)) = i"
    by (simp only: set_filter mem_Collect_eq)
  with only have "last (filter (\<lambda>s. slot_index s = i) slots) = driver_layout ! i" by blast
  then show ?thesis using i by (simp add: install_slots)
qed

lemma install_outside:
  assumes "set slots = set (drop 3 (take n driver_layout))" "n \<le> 58" "i < 3 \<or> n \<le> i"
  shows "install (named slots) d i = d i"
  using slot_index_image [OF assms(1,2)] assms(3) by (auto simp: install_slots)

lemma install_append: "install (named (xs @ ys)) d = install (named ys) (install (named xs) d)"
  by (simp add: install_def named_def)

text \<open>Both versions are one run over slots that cover the structure.\<close>

lemma init_cells:
  assumes "version = version_1_0_0 \<or> version = version_1_1_0"
  shows "\<exists>slots. adbc_driver_spark_init E version d err m =
      (StatusOK, install (named slots) (clear (written_cells version) d), m) \<and>
    set slots = set (drop 3 (take (written_cells version) driver_layout)) \<and> written_cells version \<le> 58"
proof (cases "version = version_1_0_0")
  case True
  then show ?thesis using slots_cover(1)
    by (auto simp: adbc_driver_spark_init_def written_cells_def driver_sizes slots_named [symmetric] intro!: exI [of _ "map fst slots_1_0_0"])
next
  case False
  then show ?thesis using assms slots_cover(2) layout_distinct(2)
    by (auto simp: adbc_driver_spark_init_def written_cells_def driver_sizes install_append slots_named [symmetric]
        intro!: exI [of _ "map fst slots_1_0_0 @ map fst slots_1_1_0"])
qed

section \<open>Property\<close>

text \<open>C36: the structure is filled in completely and nothing behind it is touched. For either version
  every callback of that version's structure is set to the driver's function of the same name, the
  fields of the driver manager are null, and the memory after the structure - which a manager of
  version 1.0.0 does not have - is as it was; any other version is refused and writes nothing.\<close>

theorem driver_table_filled_in_bounds:
  "(case adbc_driver_spark_init E version d err m of (code, d', m') \<Rightarrow>
     (code = StatusOK \<longleftrightarrow> version = version_1_0_0 \<or> version = version_1_1_0) \<and>
     map d' [0..<written_cells version] =
       replicate (min 3 (written_cells version)) None @
       map (\<lambda>s. Some (''Spark'' @ s)) (drop 3 (take (written_cells version) driver_layout)) \<and>
     (\<lambda>i. d' (written_cells version + i)) = (\<lambda>i. d (written_cells version + i)))"
proof (cases "version = version_1_0_0 \<or> version = version_1_1_0")
  case True
  then obtain slots where init: "adbc_driver_spark_init E version d err m =
      (StatusOK, install (named slots) (clear (written_cells version) d), m)"
    and slots: "set slots = set (drop 3 (take (written_cells version) driver_layout))"
    and n: "written_cells version \<le> 58"
    using init_cells by blast
  let ?n = "written_cells version" and ?d = "install (named slots) (clear (written_cells version) d)"
  have 3: "3 \<le> ?n" using True by (auto simp: written_cells_def driver_sizes)
  have "map ?d [0..<?n] = replicate 3 None @ map (\<lambda>s. Some (''Spark'' @ s)) (drop 3 (take ?n driver_layout))"
  proof (rule nth_equalityI)
    fix i assume "i < length (map ?d [0..<?n])"
    then have "i < ?n" by simp
    then show "map ?d [0..<?n] ! i =
        (replicate 3 None @ map (\<lambda>s. Some (''Spark'' @ s)) (drop 3 (take ?n driver_layout))) ! i"
      using install_outside [OF slots n, of i "clear ?n d"] install_cells [OF slots n, of i "clear ?n d"]
        layout_distinct(2) n 3
      by (auto simp: nth_append clear_def)
  qed (use 3 n layout_distinct(2) in simp)
  then show ?thesis using init True 3 install_outside [OF slots n, of _ "clear ?n d"]
    by (simp add: clear_def)
qed (auto simp: adbc_driver_spark_init_def written_cells_def)

end
