(* ===== verification/C_Invariant.thy ===== *)
theory C_Invariant
  imports C_Statement
begin

text \<open>
  The invariant of the C layer: which handles the caller's structures point to, what the objects
  behind them promise, and whose the references, streams and contexts of the driver are. The
  lemmas show how the elementary changes of state act on it; they are what the proofs about the
  exported functions use.
\<close>

section \<open>Structures and objects\<close>

datatype c_struct = DbStruct nat | CnxnStruct nat | StmtStruct nat | StreamStruct nat

fun private_fun ::
  "(nat \<Rightarrow> nat option) \<Rightarrow> (nat \<Rightarrow> nat option) \<Rightarrow> (nat \<Rightarrow> nat option) \<Rightarrow> (nat \<Rightarrow> c_stream) \<Rightarrow> c_struct \<Rightarrow> nat option"
  where
  "private_fun dbs cnxns stmts streams (DbStruct a) = dbs a"
| "private_fun dbs cnxns stmts streams (CnxnStruct a) = cnxns a"
| "private_fun dbs cnxns stmts streams (StmtStruct a) = stmts a"
| "private_fun dbs cnxns stmts streams (StreamStruct a) =
     (if cs_release (streams a) = SparkStreamRelease then cs_private (streams a) else None)"

abbreviation private_of :: "'srv c_world \<Rightarrow> c_struct \<Rightarrow> nat option" where
  "private_of w \<equiv> private_fun (cw_dbs w) (cw_cnxns w) (cw_stmts w) (cw_streams w)"

fun kind_ok :: "c_struct \<Rightarrow> c_object \<Rightarrow> bool" where
  "kind_ok (DbStruct a) (ObjDatabase x) = True"
| "kind_ok (CnxnStruct a) (ObjConn x) = True"
| "kind_ok (StmtStruct a) (ObjStmt x) = True"
| "kind_ok (StreamStruct a) (ObjStream x) = True"
| "kind_ok _ _ = False"

fun obj_conn :: "c_object \<Rightarrow> nat option" where
  "obj_conn (ObjConn c) = ccn_cnxn c"
| "obj_conn _ = None"

fun obj_ctx :: "c_object \<Rightarrow> nat option" where
  "obj_ctx (ObjConn c) = ccn_cancel c"
| "obj_ctx (ObjStmt s) = cst_cancel s"
| "obj_ctx _ = None"

text \<open>A reader behind a live stream has one reference and has not cancelled its stream.\<close>

fun obj_ok :: "'srv world \<Rightarrow> c_object \<Rightarrow> bool" where
  "obj_ok W (ObjDatabase d) \<longleftrightarrow> True"
| "obj_ok W (ObjConn c) \<longleftrightarrow>
     (\<forall>k. ccn_cnxn c = Some k \<longrightarrow> k < length (wd_conns W) \<and> conn_client k W \<noteq> None)"
| "obj_ok W (ObjStmt s) \<longleftrightarrow>
     (\<forall>st. cst_stmt s = Some st \<longrightarrow> params_ok st \<and>
        (\<forall>k. st_cnxn st = Some k \<longrightarrow> k < length (wd_conns W)))"
| "obj_ok W (ObjStream s) \<longleftrightarrow>
     (\<forall>r. cas_rdr s = ResultReader r \<longrightarrow> rd_refs r = 1 \<and> rd_cancel r)"

text \<open>The record references and the streams an object holds.\<close>

definition reader_refs :: "c_reader \<Rightarrow> nat \<Rightarrow> int" where
  "reader_refs rd i = (case rd of
     ResultReader r \<Rightarrow> int (count_list (map fst (held r)) i)
   | TableReader t pos n \<Rightarrow> 0)"

definition reader_streams :: "c_reader \<Rightarrow> int" where
  "reader_streams rd = (case rd of
     ResultReader r \<Rightarrow> if rd_cancel r then 1 else 0
   | TableReader t pos n \<Rightarrow> 0)"

fun obj_refs :: "c_object \<Rightarrow> nat \<Rightarrow> int" where
  "obj_refs (ObjStmt s) i = (case cst_stmt s of None \<Rightarrow> 0 | Some st \<Rightarrow> stmt_holds st i)"
| "obj_refs (ObjStream s) i = reader_refs (cas_rdr s) i"
| "obj_refs _ i = 0"

fun obj_streams :: "c_object \<Rightarrow> int" where
  "obj_streams (ObjStream s) = reader_streams (cas_rdr s)"
| "obj_streams _ = 0"

section \<open>The invariant\<close>

text \<open>Every pointer leads to a handle of the right kind, no two to the same one, and no handle is
  without a pointer to it.\<close>

definition ptrs_ok :: "(c_struct \<rightharpoonup> nat) \<Rightarrow> (nat \<rightharpoonup> c_object) \<Rightarrow> bool" where
  "ptrs_ok P H \<longleftrightarrow>
     (\<forall>x h. P x = Some h \<longrightarrow> (\<exists>obj. H h = Some obj \<and> kind_ok x obj)) \<and>
     (\<forall>x y h. P x = Some h \<longrightarrow> P y = Some h \<longrightarrow> x = y) \<and>
     (\<forall>h obj. H h = Some obj \<longrightarrow> (\<exists>x. P x = Some h))"

definition objs_ok :: "'srv world \<Rightarrow> nat \<Rightarrow> (nat \<rightharpoonup> c_object) \<Rightarrow> bool" where
  "objs_ok W n H \<longleftrightarrow> (\<forall>h obj. H h = Some obj \<longrightarrow> h < n \<and> obj_ok W obj)"

text \<open>Two handles never share a connection or a context.\<close>

definition unshared :: "(c_object \<Rightarrow> nat option) \<Rightarrow> (nat \<rightharpoonup> c_object) \<Rightarrow> bool" where
  "unshared f H \<longleftrightarrow> (\<forall>h h' x y i. H h = Some x \<longrightarrow> H h' = Some y \<longrightarrow> f x = Some i \<longrightarrow> f y = Some i \<longrightarrow> h = h')"

definition owned :: "(c_object \<Rightarrow> nat option) \<Rightarrow> (nat \<rightharpoonup> c_object) \<Rightarrow> nat set" where
  "owned f H = {i. \<exists>h x. H h = Some x \<and> f x = Some i}"

text \<open>The live contexts are those of the handles.\<close>

definition ctxs_ok :: "nat set \<Rightarrow> nat \<Rightarrow> (nat \<rightharpoonup> c_object) \<Rightarrow> bool" where
  "ctxs_ok live n H \<longleftrightarrow> live = owned obj_ctx H \<and> unshared obj_ctx H \<and> (\<forall>i\<in>live. i < n)"

text \<open>The references and streams are those of the objects, but for \<open>R\<close> and \<open>S\<close>.\<close>

definition total :: "(c_object \<Rightarrow> int) \<Rightarrow> (nat \<rightharpoonup> c_object) \<Rightarrow> int" where
  "total f H = (\<Sum>h\<in>dom H. f (the (H h)))"

definition books_ok :: "(nat \<Rightarrow> int) \<Rightarrow> int \<Rightarrow> 'srv runtime \<Rightarrow> (nat \<rightharpoonup> c_object) \<Rightarrow> bool" where
  "books_ok R S r H \<longleftrightarrow>
     (\<forall>i. rt_refs r i = total (\<lambda>x. obj_refs x i) H + R i) \<and> rt_streams r = total obj_streams H + S"

definition c_ok :: "(nat \<Rightarrow> int) \<Rightarrow> int \<Rightarrow> 'srv c_world \<Rightarrow> bool" where
  "c_ok R S w \<longleftrightarrow> \<not> cw_poison w \<and> ptrs_ok (private_of w) (cw_handles w) \<and>
     objs_ok (cw_go w) (cw_next_handle w) (cw_handles w) \<and> unshared obj_conn (cw_handles w) \<and>
     ctxs_ok (cw_live_ctxs w) (cw_next_ctx w) (cw_handles w) \<and>
     books_ok R S (wd_run (cw_go w)) (cw_handles w)"

section \<open>Tables of objects\<close>

lemma private_of_upd [simp]:
  "private_fun (f(a := p)) g h i = (private_fun f g h i)(DbStruct a := p)"
  "private_fun f (g(a := p)) h i = (private_fun f g h i)(CnxnStruct a := p)"
  "private_fun f g (h(a := p)) i = (private_fun f g h i)(StmtStruct a := p)"
  "private_fun f g h (i(a := c)) = (private_fun f g h i)(StreamStruct a :=
     (if cs_release c = SparkStreamRelease then cs_private c else None))"
proof -
  show "private_fun (f(a := p)) g h i = (private_fun f g h i)(DbStruct a := p)"
    by (rule ext, case_tac x) simp_all
  show "private_fun f (g(a := p)) h i = (private_fun f g h i)(CnxnStruct a := p)"
    by (rule ext, case_tac x) simp_all
  show "private_fun f g (h(a := p)) i = (private_fun f g h i)(StmtStruct a := p)"
    by (rule ext, case_tac x) simp_all
  show "private_fun f g h (i(a := c)) = (private_fun f g h i)(StreamStruct a :=
     (if cs_release c = SparkStreamRelease then cs_private c else None))"
    by (rule ext, case_tac x) simp_all
qed

lemma total_upd:
  assumes "finite (dom H)"
  shows "total f (H(h \<mapsto> x)) = total f H + f x - (case H h of None \<Rightarrow> 0 | Some y \<Rightarrow> f y)"
proof -
  have "total f (H(h \<mapsto> x)) = f x + (\<Sum>j\<in>dom H - {h}. f (the (H j)))"
    using assms by (simp add: total_def sum.insert_remove)
  moreover have "total f H = (\<Sum>j\<in>dom H - {h}. f (the (H j))) + (case H h of None \<Rightarrow> 0 | Some y \<Rightarrow> f y)"
    using assms by (cases "H h") (auto simp: total_def sum.remove [of "dom H" h] domIff)
  ultimately show ?thesis by simp
qed

lemma total_del:
  assumes "finite (dom H)" "H h = Some y"
  shows "total f (H(h := None)) = total f H - f y"
  using assms by (simp add: total_def sum.remove [of "dom H" h] domI)

lemma objs_ok_finite: "objs_ok W n H \<Longrightarrow> finite (dom H)"
  by (rule finite_subset [of _ "{..<n}"]) (auto simp: objs_ok_def)

lemma owned_upd_iff:
  "i \<in> owned f (H(h \<mapsto> x)) \<longleftrightarrow> f x = Some i \<or> (\<exists>j y. j \<noteq> h \<and> H j = Some y \<and> f y = Some i)"
proof
  assume "f x = Some i \<or> (\<exists>j y. j \<noteq> h \<and> H j = Some y \<and> f y = Some i)"
  then show "i \<in> owned f (H(h \<mapsto> x))"
  proof
    assume "f x = Some i"
    then show ?thesis by (auto simp: owned_def intro!: exI [of _ h])
  qed (auto simp: owned_def)
qed (auto simp: owned_def split: if_splits)

lemma owned_others:
  assumes "unshared f H"
  shows "(\<exists>j y. j \<noteq> h \<and> H j = Some y \<and> f y = Some i) \<longleftrightarrow>
    i \<in> owned f H \<and> \<not> (\<exists>y. H h = Some y \<and> f y = Some i)"
proof
  assume "\<exists>j y. j \<noteq> h \<and> H j = Some y \<and> f y = Some i"
  then show "i \<in> owned f H \<and> \<not> (\<exists>y. H h = Some y \<and> f y = Some i)"
    using assms by (auto simp: owned_def unshared_def)
next
  assume r: "i \<in> owned f H \<and> \<not> (\<exists>y. H h = Some y \<and> f y = Some i)"
  then obtain j y where "H j = Some y" "f y = Some i" by (auto simp: owned_def)
  moreover have "j \<noteq> h" using r calculation by auto
  ultimately show "\<exists>j y. j \<noteq> h \<and> H j = Some y \<and> f y = Some i" by blast
qed

lemma owned_upd:
  "unshared f H \<Longrightarrow> owned f (H(h \<mapsto> x)) =
     {i \<in> owned f H. \<not> (\<exists>y. H h = Some y \<and> f y = Some i)} \<union> set_option (f x)"
  by (auto simp only: owned_upd_iff owned_others Un_iff mem_Collect_eq elem_set set_eq_iff)

lemma owned_del:
  "unshared f H \<Longrightarrow> owned f (H(h := None)) = {i \<in> owned f H. \<not> (\<exists>y. H h = Some y \<and> f y = Some i)}"
  by (auto simp: owned_def unshared_def split: if_splits)

lemma unshared_upd:
  assumes u: "unshared f H"
    and x: "\<And>i. f x = Some i \<Longrightarrow> i \<notin> owned f H \<or> (\<exists>y. H h = Some y \<and> f y = Some i)"
  shows "unshared f (H(h \<mapsto> x))"
proof -
  have "j = h" if "H j = Some y" "f y = Some i" "f x = Some i" for i j y
    using x [OF that(3)] that u by (auto simp: owned_def unshared_def)
  then show ?thesis using u by (auto simp: unshared_def split: if_splits)
qed

lemma unshared_del: "unshared f H \<Longrightarrow> unshared f (H(h := None))"
  by (auto simp: unshared_def split: if_splits)

lemma owned_same:
  assumes "H h = Some y" "f x = f y"
  shows "owned f (H(h \<mapsto> x)) = owned f H"
proof -
  have "i \<in> owned f (H(h \<mapsto> x)) \<longleftrightarrow> i \<in> owned f H" for i
    unfolding owned_upd_iff using assms by (auto simp: owned_def; metis option.inject)
  then show ?thesis by blast
qed

section \<open>Elementary changes\<close>

text \<open>What the invariant does not look at.\<close>

lemma c_ok_frame:
  assumes "c_ok R S w" "cw_poison w' = cw_poison w" "private_of w' = private_of w"
    and "cw_handles w' = cw_handles w" "cw_next_handle w' = cw_next_handle w" "cw_go w' = cw_go w"
    and "cw_live_ctxs w' = cw_live_ctxs w" "cw_next_ctx w' = cw_next_ctx w"
  shows "c_ok R S w'"
  using assms by (simp add: c_ok_def)

lemma c_ok_irrelevant [simp]:
  "c_ok R S (w\<lparr>cw_mem := m\<rparr>) = c_ok R S w"
  "c_ok R S (w\<lparr>cw_arrays := ar\<rparr>) = c_ok R S w"
  "c_ok R S (w\<lparr>cw_schemas := sc\<rparr>) = c_ok R S w"
  "c_ok R S (w\<lparr>cw_parts := ps\<rparr>) = c_ok R S w"
  "c_ok R S (w\<lparr>cw_bytes := bs\<rparr>) = c_ok R S w"
  "c_ok R S (w\<lparr>cw_sizes := ss\<rparr>) = c_ok R S w"
  "c_ok R S (w\<lparr>cw_ints := is\<rparr>) = c_ok R S w"
  "c_ok R S (w\<lparr>cw_doubles := ds\<rparr>) = c_ok R S w"
  by (simp_all add: c_ok_def)

text \<open>A step of the Go driver that leaves the connections alone.\<close>

lemma obj_ok_conns: "wd_conns W' = wd_conns W \<Longrightarrow> obj_ok W' x = obj_ok W x"
  by (cases x) (simp_all add: conn_client_def)

lemma c_ok_put_go:
  assumes "c_ok R S w" "wd_conns W = wd_conns (cw_go w)"
    and "\<And>i. rt_refs (wd_run W) i - R' i = rt_refs (wd_run (cw_go w)) i - R i"
    and "rt_streams (wd_run W) - S' = rt_streams (wd_run (cw_go w)) - S"
  shows "c_ok R' S' (put_go W w)"
proof -
  have "rt_refs (wd_run W) i = total (\<lambda>x. obj_refs x i) (cw_handles w) + R' i" for i
    using assms(1) assms(3) [of i] by (simp add: c_ok_def books_ok_def)
  then show ?thesis using assms(1,2,4)
    by (simp add: c_ok_def put_go_def objs_ok_def books_ok_def obj_ok_conns [OF assms(2)])
qed

text \<open>An object is replaced by one of the same kind, connection and context.\<close>

lemma c_ok_set_handle:
  assumes ok: "c_ok R S w" and h: "cw_handles w h = Some y"
    and x: "\<And>s. kind_ok s y \<Longrightarrow> kind_ok s x" "obj_ok (cw_go w) x" "obj_conn x = obj_conn y" "obj_ctx x = obj_ctx y"
    and R: "\<And>i. R' i = R i + obj_refs y i - obj_refs x i" and S: "S' = S + obj_streams y - obj_streams x"
  shows "c_ok R' S' (set_handle h x w)"
proof -
  note c = ok [unfolded c_ok_def]
  have fin: "finite (dom (cw_handles w))" using c objs_ok_finite by blast
  have "unshared obj_conn ((cw_handles w)(h \<mapsto> x))" "unshared obj_ctx ((cw_handles w)(h \<mapsto> x))"
    using c h x(3,4) by (auto intro!: unshared_upd simp: ctxs_ok_def)
  moreover have "owned obj_ctx ((cw_handles w)(h \<mapsto> x)) = owned obj_ctx (cw_handles w)"
    using h x(4) by (rule owned_same)
  moreover have "ptrs_ok (private_of w) ((cw_handles w)(h \<mapsto> x))"
    using c h x(1) by (fastforce simp: ptrs_ok_def)
  moreover have "objs_ok (cw_go w) (cw_next_handle w) ((cw_handles w)(h \<mapsto> x))"
    using c h x(2) by (auto simp: objs_ok_def)
  ultimately show ?thesis using c h R S fin
    by (simp add: c_ok_def set_handle_def ctxs_ok_def books_ok_def total_upd)
qed

text \<open>Contexts.\<close>

lemma c_ok_ctx:
  assumes ok: "c_ok R S w" and h: "cw_handles w h = Some y"
    and x: "\<And>s. kind_ok s y \<Longrightarrow> kind_ok s x" "obj_ok (cw_go w) x" "obj_conn x = obj_conn y"
      "obj_refs x = obj_refs y" "obj_streams x = obj_streams y"
    and w': "cw_poison w' = cw_poison w" "private_of w' = private_of w" "cw_go w' = cw_go w"
      "cw_handles w' = (cw_handles w)(h \<mapsto> x)" "cw_next_handle w' = cw_next_handle w"
      "cw_live_ctxs w' = (cw_live_ctxs w - set_option (obj_ctx y)) \<union> set_option (obj_ctx x)"
    and ctx: "obj_ctx x = None \<and> cw_next_ctx w' = cw_next_ctx w \<or>
      obj_ctx x = Some (cw_next_ctx w) \<and> cw_next_ctx w' = cw_next_ctx w + 1"
  shows "c_ok R S w'"
proof -
  note c = ok [unfolded c_ok_def]
  have fin: "finite (dom (cw_handles w))" using c objs_ok_finite by blast
  have live: "cw_live_ctxs w = owned obj_ctx (cw_handles w)" "unshared obj_ctx (cw_handles w)"
    "\<forall>i\<in>cw_live_ctxs w. i < cw_next_ctx w"
    using c by (simp_all add: ctxs_ok_def)
  have conn: "unshared obj_conn ((cw_handles w)(h \<mapsto> x))" using c h x(3) by (auto intro!: unshared_upd)
  have "cw_live_ctxs w' = owned obj_ctx ((cw_handles w)(h \<mapsto> x))"
    using h by (auto simp: w'(6) live(1) owned_upd [OF live(2)])
  moreover have "unshared obj_ctx ((cw_handles w)(h \<mapsto> x))"
    using ctx live by (intro unshared_upd) auto
  moreover have "\<forall>i\<in>cw_live_ctxs w'. i < cw_next_ctx w'" using ctx live(3) by (auto simp: w'(6))
  ultimately have "ctxs_ok (cw_live_ctxs w') (cw_next_ctx w') ((cw_handles w)(h \<mapsto> x))"
    by (simp add: ctxs_ok_def)
  moreover have "ptrs_ok (private_of w) ((cw_handles w)(h \<mapsto> x))"
    using c h x(1) by (fastforce simp: ptrs_ok_def)
  moreover have "objs_ok (cw_go w) (cw_next_handle w) ((cw_handles w)(h \<mapsto> x))"
    using c h x(2) by (auto simp: objs_ok_def)
  ultimately show ?thesis using c h x(4,5) fin w' conn
    by (simp add: c_ok_def books_ok_def total_upd)
qed

text \<open>A new object that a structure points to.\<close>

lemma c_ok_create:
  assumes ok: "c_ok R S w" and s: "private_of w s = None"
    and x: "kind_ok s x" "obj_ok (cw_go w) x" "obj_conn x = None" "obj_ctx x = None"
    and w': "cw_poison w' = cw_poison w" "private_of w' = (private_of w)(s \<mapsto> cw_next_handle w)"
      "cw_go w' = cw_go w" "cw_handles w' = (cw_handles w)(cw_next_handle w \<mapsto> x)"
      "cw_next_handle w' = cw_next_handle w + 1" "cw_live_ctxs w' = cw_live_ctxs w"
      "cw_next_ctx w' = cw_next_ctx w"
    and R: "\<And>i. R' i = R i - obj_refs x i" and S: "S' = S - obj_streams x"
  shows "c_ok R' S' w'"
proof -
  note c = ok [unfolded c_ok_def]
  let ?h = "cw_next_handle w"
  have fin: "finite (dom (cw_handles w))" using c objs_ok_finite by blast
  have new: "cw_handles w ?h = None"
    using c by (metis less_irrefl not_Some_eq objs_ok_def)
  then have old: "private_of w z \<noteq> Some ?h" for z
    using c unfolding ptrs_ok_def by (metis option.distinct(1))
  have "ptrs_ok ((private_of w)(s \<mapsto> ?h)) ((cw_handles w)(?h \<mapsto> x))"
    unfolding ptrs_ok_def
  proof (intro conjI allI impI)
    fix z j assume z: "((private_of w)(s \<mapsto> ?h)) z = Some j"
    show "\<exists>obj. ((cw_handles w)(?h \<mapsto> x)) j = Some obj \<and> kind_ok z obj"
    proof (cases "z = s")
      case False
      then obtain obj where "cw_handles w j = Some obj" "kind_ok z obj"
        using z c unfolding ptrs_ok_def by (metis fun_upd_other)
      then show ?thesis using new by auto
    qed (use z x(1) in simp)
  next
    fix z z' j assume "((private_of w)(s \<mapsto> ?h)) z = Some j" "((private_of w)(s \<mapsto> ?h)) z' = Some j"
    then show "z = z'" using c old unfolding ptrs_ok_def by (auto split: if_splits)
  next
    fix j obj assume "((cw_handles w)(?h \<mapsto> x)) j = Some obj"
    then have "j = ?h \<or> (\<exists>z. private_of w z = Some j)"
      using c unfolding ptrs_ok_def by (auto split: if_splits)
    then show "\<exists>z. ((private_of w)(s \<mapsto> ?h)) z = Some j"
      using s by (metis fun_upd_other fun_upd_same option.distinct(1))
  qed
  moreover have "objs_ok (cw_go w) (?h + 1) ((cw_handles w)(?h \<mapsto> x))"
    using c x(2) by (auto simp: objs_ok_def less_SucI)
  moreover have "unshared obj_conn ((cw_handles w)(?h \<mapsto> x))" "unshared obj_ctx ((cw_handles w)(?h \<mapsto> x))"
    using c x(3,4) by (auto intro!: unshared_upd simp: ctxs_ok_def)
  moreover have "owned obj_ctx ((cw_handles w)(?h \<mapsto> x)) = owned obj_ctx (cw_handles w)"
    using c x(4) new owned_upd [of obj_ctx "cw_handles w" ?h x] by (auto simp: ctxs_ok_def)
  ultimately show ?thesis using c w' new fin R S
    by (simp add: c_ok_def ctxs_ok_def books_ok_def total_upd)
qed

text \<open>An object is deleted with the pointer to it; the Go driver may have closed it.\<close>

lemma c_ok_delete:
  assumes ok: "c_ok R S w" and h: "private_of w s = Some h" "cw_handles w h = Some y"
    and w': "cw_poison w' = cw_poison w" "private_of w' = (private_of w)(s := None)"
      "cw_handles w' = (cw_handles w)(h := None)" "cw_next_handle w' = cw_next_handle w"
      "cw_live_ctxs w' = cw_live_ctxs w - set_option (obj_ctx y)" "cw_next_ctx w' = cw_next_ctx w"
    and go: "\<And>j z. cw_handles w j = Some z \<Longrightarrow> j \<noteq> h \<Longrightarrow> obj_ok (cw_go w) z \<Longrightarrow> obj_ok (cw_go w') z"
    and R: "\<And>i. rt_refs (wd_run (cw_go w')) i - R' i = rt_refs (wd_run (cw_go w)) i - R i - obj_refs y i"
    and S: "rt_streams (wd_run (cw_go w')) - S' = rt_streams (wd_run (cw_go w)) - S - obj_streams y"
  shows "c_ok R' S' w'"
proof -
  note c = ok [unfolded c_ok_def]
  have fin: "finite (dom (cw_handles w))" using c objs_ok_finite by blast
  have other: "z = s" if "private_of w z = Some h" for z using c that h(1) by (auto simp: ptrs_ok_def)
  have "ptrs_ok ((private_of w)(s := None)) ((cw_handles w)(h := None))"
    unfolding ptrs_ok_def
  proof (intro conjI allI impI)
    fix j obj assume "((cw_handles w)(h := None)) j = Some obj"
    then obtain z where "j \<noteq> h" "private_of w z = Some j"
      using c unfolding ptrs_ok_def by (auto split: if_splits)
    then show "\<exists>z. ((private_of w)(s := None)) z = Some j" using h(1) by (intro exI [of _ z]) auto
  qed (use c other in \<open>auto simp: ptrs_ok_def split: if_splits\<close>)
  moreover have "objs_ok (cw_go w') (cw_next_handle w) ((cw_handles w)(h := None))"
    using c go by (auto simp: objs_ok_def split: if_splits)
  moreover have "unshared obj_conn ((cw_handles w)(h := None))" using c unshared_del by blast
  moreover have "ctxs_ok (cw_live_ctxs w') (cw_next_ctx w') ((cw_handles w)(h := None))"
    using c h(2) w'(5,6) owned_del [of obj_ctx "cw_handles w" h] unshared_del [of obj_ctx "cw_handles w" h]
    by (auto simp: ctxs_ok_def)
  moreover have "books_ok R' S' (wd_run (cw_go w')) ((cw_handles w)(h := None))"
  proof -
    have "rt_refs (wd_run (cw_go w')) i = total (\<lambda>x. obj_refs x i) ((cw_handles w)(h := None)) + R' i" for i
      using R [of i] c total_del [OF fin h(2), of "\<lambda>x. obj_refs x i"] by (simp add: books_ok_def)
    moreover have "rt_streams (wd_run (cw_go w')) = total obj_streams ((cw_handles w)(h := None)) + S'"
      using S c total_del [OF fin h(2), of obj_streams] by (simp add: books_ok_def)
    ultimately show ?thesis by (simp add: books_ok_def)
  qed
  ultimately show ?thesis using c w' by (simp add: c_ok_def)
qed

text \<open>A connection object gets a connection that was just opened.\<close>

lemma c_ok_open:
  assumes ok: "c_ok R S w" and h: "cw_handles w h = Some (ObjConn conn)"
    and W: "wd_conns W = wd_conns (cw_go w) @ [cn]" "cn_client cn \<noteq> None"
    and refs: "rt_refs (wd_run W) = rt_refs (wd_run (cw_go w))" "rt_streams (wd_run W) = rt_streams (wd_run (cw_go w))"
  shows "c_ok R S (set_handle h (ObjConn (conn\<lparr>ccn_cnxn := Some (length (wd_conns (cw_go w)))\<rparr>)) (put_go W w))"
proof -
  note c = ok [unfolded c_ok_def]
  let ?k = "length (wd_conns (cw_go w))" and ?x = "ObjConn (conn\<lparr>ccn_cnxn := Some (length (wd_conns (cw_go w)))\<rparr>)"
  have fin: "finite (dom (cw_handles w))" using c objs_ok_finite by blast
  have keep: "obj_ok W z" if "obj_ok (cw_go w) z" for z
    using that W(1) by (cases z) (auto simp: conn_client_def nth_append)
  have "?k \<notin> owned obj_conn (cw_handles w)"
  proof
    assume "?k \<in> owned obj_conn (cw_handles w)"
    then obtain j z where "cw_handles w j = Some z" "obj_conn z = Some ?k" by (auto simp: owned_def)
    moreover from this have "obj_ok (cw_go w) z" using c by (auto simp: objs_ok_def)
    ultimately show False by (cases z) auto
  qed
  then have conn: "unshared obj_conn ((cw_handles w)(h \<mapsto> ?x))" using c by (auto intro!: unshared_upd)
  have "unshared obj_ctx ((cw_handles w)(h \<mapsto> ?x))" using c h by (auto intro!: unshared_upd simp: ctxs_ok_def)
  moreover have "owned obj_ctx ((cw_handles w)(h \<mapsto> ?x)) = owned obj_ctx (cw_handles w)"
    using h by (rule owned_same) simp
  moreover have "ptrs_ok (private_of w) ((cw_handles w)(h \<mapsto> ?x))"
  proof -
    have "kind_ok z ?x" if "kind_ok z (ObjConn conn)" for z using that by (cases z) simp_all
    then show ?thesis using c h by (fastforce simp: ptrs_ok_def)
  qed
  moreover have "objs_ok W (cw_next_handle w) ((cw_handles w)(h \<mapsto> ?x))"
    using c h keep W by (auto simp: objs_ok_def conn_client_def nth_append)
  ultimately show ?thesis using c h fin refs conn
    by (simp add: c_ok_def set_handle_def put_go_def ctxs_ok_def books_ok_def total_upd)
qed

end
