(* ===== verification/Driver_Calls.thy ===== *)
theory Driver_Calls
  imports Catalog Info_Tables
begin

text \<open>
  What a call of the Go driver leaves behind, in the form its users need: the C layer and programs
  written against the driver. Every call returns, and but for the reader of a query and the connection
  of an \<^verbatim>\<open>Open\<close> nothing is held afterwards that was not held before.
\<close>

definition run_same :: "'srv world \<Rightarrow> 'srv world \<Rightarrow> bool" where
  "run_same W W' \<longleftrightarrow> wd_conns W' = wd_conns W \<and> rt_refs (wd_run W') = rt_refs (wd_run W) \<and>
     rt_streams (wd_run W') = rt_streams (wd_run W)"

lemma same_world_run: "same_world W W' \<Longrightarrow> run_same W W'"
  by (simp add: run_same_def same_world_def same_runtime_def)

lemma get_info_same:
  "get_info L v order k ctx codes W = (res, W') \<Longrightarrow> run_same W W'"
proof -
  have "same_runtime w (snd (build_info L v order c ctx codes w))" for c w
    using server_spark_version_same [of w L c ctx]
    by (auto simp: build_info_def Let_def case_prod_beta split: sum.split prod.split)
  then show "get_info L v order k ctx codes W = (res, W') \<Longrightarrow> run_same W W'"
    by (auto simp: get_info_def run_same_def same_runtime_def split: option.splits prod.splits) (metis snd_conv)+
qed

lemma open_connection_cases:
  assumes "open_connection L d W = (res, W')"
  shows "rt_refs (wd_run W') = rt_refs (wd_run W) \<and> rt_streams (wd_run W') = rt_streams (wd_run W) \<and>
    (case res of
       Inl e \<Rightarrow> wd_conns W' = wd_conns W
     | Inr k \<Rightarrow> k = length (wd_conns W) \<and> (\<exists>c. wd_conns W' = wd_conns W @ [\<lparr>cn_client = Some c\<rparr>]))"
proof -
  obtain r w where d: "database_open L d (wd_run W) = (r, w)" by fastforce
  then have "rt_refs w = rt_refs (wd_run W) \<and> rt_streams w = rt_streams (wd_run W)"
    by (auto simp: database_open_def dial_def new_uuid_def Let_def split: option.splits if_splits)
  with assms d show ?thesis by (auto simp: open_connection_def split: sum.splits)
qed

lemma connection_close_cases:
  assumes "connection_close L k W = (err, W')"
  shows "rt_refs (wd_run W') = rt_refs (wd_run W)" "rt_streams (wd_run W') = rt_streams (wd_run W)"
    "length (wd_conns W') = length (wd_conns W)" "j \<noteq> k \<Longrightarrow> conn_client j W' = conn_client j W"
  using assms
  by (auto simp: connection_close_def client_close_def conn_client_def log_request_def Let_def case_prod_beta
      split: option.splits if_splits)

text \<open>What an execution leaves.\<close>

lemma execute_query_cases:
  assumes "execute_query L ctx st W = Some (res, n, W')"
  shows "wd_conns W' = wd_conns W \<and>
    (case res of
       Inl e \<Rightarrow> run_same W W'
     | Inr r \<Rightarrow> others (r, wd_run W') = rt_refs (wd_run W) \<and> rd_refs r = 1 \<and> rd_cancel r \<and>
         rt_streams (wd_run W') = rt_streams (wd_run W) + 1)"
proof (cases "stmt_client st W = None \<or> st_query st = []")
  case True
  then show ?thesis using assms execute_query_refused [OF True, of L ctx] by (auto simp: run_same_def)
next
  case False
  then obtain c where c: "stmt_client st W = Some c" "st_query st \<noteq> []" by auto
  show ?thesis
  proof (cases "\<exists>args. positional_literals (lib_decimal L) st = Some (Inr args)")
    case True
    then obtain args where args: "positional_literals (lib_decimal L) st = Some (Inr args)" by blast
    obtain x w where x: "execute_plan L c ctx (sql_plan (st_query st) args) (wd_run W) = (x, w)" by fastforce
    have r: "res = x" "W' = W\<lparr>wd_run := w\<rparr>"
      using execute_query_open [OF c args, of ctx] assms x by simp_all
    show ?thesis unfolding r using execute_plan_ok(1) [OF x]
      by (cases x) (auto simp: executed_def run_same_def)
  next
    case no: False
    then have "res \<noteq> Inr r \<and> W' = W" for r
      using assms c by (auto simp: execute_query_def stmt_client_def split: option.splits sum.splits if_splits)
    then show ?thesis by (cases res) (auto simp: run_same_def)
  qed
qed

lemma execute_query_total:
  assumes "params_ok st"
  shows "\<exists>res n W'. execute_query L ctx st W = Some (res, n, W')"
proof -
  obtain res where "positional_literals (lib_decimal L) st = Some res"
    using positional_literals_total [OF assms] by blast
  then show ?thesis
    by (cases res) (auto simp: execute_query_def split: option.split prod.split)
qed

lemma execute_update_cases:
  assumes "params_ok st"
  shows "\<exists>err n W'. execute_update L ctx st W = Some (err, n, W') \<and> run_same W W'"
proof -
  obtain res n W1 where q: "execute_query L ctx st W = Some (res, n, W1)"
    using execute_query_total [OF assms] by blast
  show ?thesis
  proof (cases res)
    case (Inl e)
    then show ?thesis using q execute_query_cases [OF q] by (simp add: execute_update_def)
  next
    case (Inr r)
    obtain s where s: "drain (reader_next L) (r, wd_run W1) = Some s" using rr.drain_total by blast
    have "same_hold (r, wd_run W1) s" by (rule drain_same_hold [OF s])
    then have "rt_refs (snd (reader_release s)) = rt_refs (wd_run W)"
      "rt_streams (snd (reader_release s)) = rt_streams (wd_run W)"
      using execute_query_cases [OF q] Inr reader_release_last [of s] by (simp_all add: same_hold_def)
    then show ?thesis using q Inr s execute_query_cases [OF q]
      by (simp add: execute_update_def run_same_def)
  qed
qed

lemma execute_query_answer:
  assumes "execute_query L ctx st W = Some (Inr r, n, W')"
  shows "\<exists>c args msgs. stmt_client st W = Some c \<and> positional_literals (lib_decimal L) st = Some (Inr args) \<and>
    answer_of L c ctx (st_query st) args (wd_run W) = Inr msgs \<and>
    remaining L r = fst (delivered L msgs) \<and> final_error L r = snd (delivered L msgs) \<and> rd_refs r = 1"
proof -
  obtain c where c: "stmt_client st W = Some c" "st_query st \<noteq> []"
    using assms execute_query_refused [of st W L ctx] by (cases "stmt_client st W") auto
  obtain args where args: "positional_literals (lib_decimal L) st = Some (Inr args)"
    using assms c by (auto simp: execute_query_def stmt_client_def split: option.splits sum.splits if_splits)
  obtain res w where x: "execute_plan L c ctx (sql_plan (st_query st) args) (wd_run W) = (res, w)" by fastforce
  then have "executed L c ctx (sql_plan (st_query st) args) (wd_run W) (Inr r) w"
    using execute_plan_ok(1) [OF x] execute_query_open [OF c args] assms by simp
  then show ?thesis using c args by (auto simp: executed_def answer_of_def reads_def)
qed

section \<open>Property\<close>

text \<open>C16: after \<^verbatim>\<open>Close\<close> of a connection nothing reaches the server through it any more: new
  statements, executing statements made before, table schemas, table types, \<^verbatim>\<open>GetInfo\<close> and \<^verbatim>\<open>GetObjects\<close>
  are all refused as an invalid state and change nothing, a second \<^verbatim>\<open>Close\<close> returns nil and changes nothing, and
  \<^verbatim>\<open>Commit\<close>, \<^verbatim>\<open>Rollback\<close> and \<^verbatim>\<open>ReadPartition\<close> are refused as not implemented, as they always are.\<close>

theorem closed_connection_refuses:
  assumes "k < length (wd_conns W)" "connection_close L k W = (err, W')" "st_cnxn st = Some k"
  shows "new_statement k W' = Inl err_conn_closed \<and>
    get_table_schema L k ctx cat sch tbl W' = Some (Inl err_conn_closed, W') \<and>
    get_objects L k ctx depth cat' sch' tbl' col types W' = Some (Inl err_conn_closed, W') \<and>
    get_table_types k W' = Inl err_conn_closed \<and>
    get_info L v order k ctx codes W' = (Inl err_conn_closed, W') \<and>
    execute_query L ctx st W' = Some (Inl err_closed, -1, W') \<and>
    execute_update L ctx st W' = Some (Some err_closed, -1, W') \<and>
    error_status err_conn_closed = StatusInvalidState \<and> error_status err_closed = StatusInvalidState \<and>
    connection_close L k W' = (None, W') \<and>
    map_option error_status (commit k) = Some StatusNotImplemented \<and>
    map_option error_status (rollback k) = Some StatusNotImplemented \<and>
    (case read_partition k part of Inl e \<Rightarrow> error_status e = StatusNotImplemented | Inr r \<Rightarrow> False)"
proof -
  have closed: "conn_client k W' = None" using connection_close_closed(1) [OF assms(1,2)] .
  show ?thesis
    using closed_connection(1-3) [OF closed] closed_connection(4,5) [OF closed assms(3)] closed
    by (simp add: get_objects_def get_table_types_def get_info_def commit_def rollback_def read_partition_def
        err_no_transactions_def err_conn_closed_def err_closed_def adbc_err_def)
qed

theorem closed_connection_refuses_witness:
  "\<exists>W'. execute_query sample_libs [] sample_statement W' = Some (Inl err_closed, -1, W')"
proof -
  obtain err W' where "connection_close sample_libs 0 sample_world = (err, W')" by fastforce
  have "execute_query sample_libs [] sample_statement W' = Some (Inl err_closed, -1, W')"
    by (rule closed_connection_refuses [OF _ \<open>connection_close sample_libs 0 sample_world = (err, W')\<close>,
          of sample_statement, THEN conjunct2, THEN conjunct2, THEN conjunct2, THEN conjunct2, THEN conjunct2,
          THEN conjunct1])
      (simp_all add: sample_world_def sample_statement_def)
  then show ?thesis by blast
qed

end
