(* ===== verification/C_Calls.thy ===== *)
theory C_Calls
  imports C_Invariant Driver_Calls
begin

text \<open>
  Every exported function keeps the invariant and does not panic when its result pointers are not
  null. The checks at the start of the functions are a contract shared by the three kinds of
  handle, a locale with one interpretation per kind; the functions themselves are then a few
  steps over the elementary changes.
\<close>

section \<open>Running an action\<close>

text \<open>The action ends, without a panic, in a state with \<open>Q\<close>.\<close>

definition wp :: "('srv, 'a) c_act \<Rightarrow> ('a \<Rightarrow> 'srv c_world \<Rightarrow> bool) \<Rightarrow> 'srv c_world \<Rightarrow> bool" where
  "wp m Q w \<longleftrightarrow> (case m w of (Done x, w') \<Rightarrow> Q x w' | (Panicked p, w') \<Rightarrow> False)"

lemma wp_simps [simp]:
  "wp (c_ret x) Q w \<longleftrightarrow> Q x w"
  "wp (c_bind m f) Q w \<longleftrightarrow> wp m (\<lambda>x. wp (f x) Q) w"
  "wp (c_fail E err text x) Q w \<longleftrightarrow> Q x (with_mem (set_err E err text) w)"
  "wp (c_fail_in E err fname text x) Q w \<longleftrightarrow> Q x (with_mem (set_err_in E err fname text) w)"
  by (auto simp: wp_def c_ret_def c_bind_def c_fail_def c_fail_in_def split: prod.split outcome.split)

lemma wp_Done: "m w = (Done x, w') \<Longrightarrow> wp m Q w \<longleftrightarrow> Q x w'"
  by (simp add: wp_def)

lemma c_status_eq: "c_status E err e w =
    (Done (fst (err_to_adbc_err E err e (cw_mem w))), w\<lparr>cw_mem := snd (err_to_adbc_err E err e (cw_mem w))\<rparr>)"
  by (simp add: c_status_def case_prod_beta)

lemma wp_status [simp]: "wp (c_status E err e) Q w \<longleftrightarrow>
    Q (fst (err_to_adbc_err E err e (cw_mem w))) (w\<lparr>cw_mem := snd (err_to_adbc_err E err e (cw_mem w))\<rparr>)"
  by (simp add: wp_def c_status_eq)

lemma with_mem_ok [simp]: "c_ok R S (with_mem f w) = c_ok R S w"
  by (simp add: with_mem_def)

lemma guarded_ok:
  assumes "wp body (\<lambda>code. c_ok R S) w"
  shows "c_ok R S (snd (guarded E err fname body w))"
  using assms by (auto simp: wp_def guarded_def split: prod.splits outcome.splits)

lemma with_ops_None [simp]:
  "with_ops E None err fname k = c_fail E err (fname @ '': options are not supported'') StatusNotImplemented"
  by (simp add: with_ops_def)

section \<open>Checks\<close>

text \<open>The structures of one kind: the table of their pointers, the type their handles have.\<close>

locale handle_kind =
  fixes what :: string
    and priv :: "'srv c_world \<Rightarrow> nat \<Rightarrow> nat option"
    and get :: "nat \<Rightarrow> ('srv, 'x) c_act"
    and wrap :: "'x \<Rightarrow> c_object"
    and struct :: "nat \<Rightarrow> c_struct"
  assumes priv: "private_of w (struct a) = priv w a"
    and get: "cw_handles w h = Some (wrap x) \<Longrightarrow> get h w = (Done x, w)"
    and kind: "kind_ok (struct a) obj \<Longrightarrow> \<exists>x. obj = wrap x"
begin

lemma check_alloc_done:
  assumes "c_ok R S w"
  shows "(\<exists>m. check_alloc E what priv p err fname w = (Done None, w\<lparr>cw_mem := m\<rparr>) \<and>
       (\<forall>a. p = Some a \<longrightarrow> priv w a = None)) \<or>
    (\<exists>a h x. p = Some a \<and> priv w a = Some h \<and> cw_handles w h = Some (wrap x) \<and>
       check_alloc E what priv p err fname w = (Done (Some h), w) \<and> get h w = (Done x, w))"
proof (cases "\<exists>a h. p = Some a \<and> priv w a = Some h")
  case True
  then obtain a h where p: "p = Some a" "priv w a = Some h" by blast
  then have "private_of w (struct a) = Some h" by (simp add: priv)
  then obtain x where x: "cw_handles w h = Some (wrap x)"
    using assms kind unfolding c_ok_def ptrs_ok_def by metis
  have "check_alloc E what priv p err fname w = (Done (Some h), w)"
    using p assms by (simp add: check_alloc_def c_ok_def)
  with p x get [OF x] show ?thesis by blast
next
  case False
  then show ?thesis
    by (auto simp: check_alloc_def c_fail_in_def with_mem_def split: option.split)
qed

text \<open>After the check that the structure is allocated.\<close>

lemma after_alloc:
  assumes "c_ok R S w"
    and "\<And>m. (\<And>a. p = Some a \<Longrightarrow> priv w a = None) \<Longrightarrow> Q StatusInvalidState (w\<lparr>cw_mem := m\<rparr>)"
    and "\<And>a h x. p = Some a \<Longrightarrow> priv w a = Some h \<Longrightarrow> cw_handles w h = Some (wrap x) \<Longrightarrow> wp (k h x) Q w"
  shows "wp (when_ok (check_alloc E what priv p err fname) (\<lambda>h. c_bind (get h) (k h))) Q w"
  using check_alloc_done [OF assms(1), of E p err fname]
proof
  assume "\<exists>m. check_alloc E what priv p err fname w = (Done None, w\<lparr>cw_mem := m\<rparr>) \<and>
    (\<forall>a. p = Some a \<longrightarrow> priv w a = None)"
  then show ?thesis using assms(2) by (auto simp: when_ok_def wp_def c_bind_def c_ret_def)
next
  assume "\<exists>a h x. p = Some a \<and> priv w a = Some h \<and> cw_handles w h = Some (wrap x) \<and>
       check_alloc E what priv p err fname w = (Done (Some h), w) \<and> get h w = (Done x, w)"
  then obtain a h x where c: "p = Some a" "priv w a = Some h" "cw_handles w h = Some (wrap x)"
      "check_alloc E what priv p err fname w = (Done (Some h), w)" "get h w = (Done x, w)" by blast
  then show ?thesis using assms(3) [OF c(1-3)] by (simp add: when_ok_def wp_Done)
qed

text \<open>After the check that it is initialized as well.\<close>

lemma after_init:
  assumes "c_ok R S w"
    and "\<And>m. (\<And>a h x. p = Some a \<Longrightarrow> priv w a = Some h \<Longrightarrow> cw_handles w h = Some (wrap x) \<Longrightarrow>
      inner x = None) \<Longrightarrow> Q StatusInvalidState (w\<lparr>cw_mem := m\<rparr>)"
    and "\<And>a h x y. p = Some a \<Longrightarrow> priv w a = Some h \<Longrightarrow> cw_handles w h = Some (wrap x) \<Longrightarrow>
      inner x = Some y \<Longrightarrow> wp (k (h, x, y)) Q w"
  shows "wp (when_ok (c_bind (check_alloc E what priv p err fname) (\<lambda>r. case r of
      None \<Rightarrow> c_ret None
    | Some h \<Rightarrow> c_bind (get h) (\<lambda>x. case inner x of
        None \<Rightarrow> c_fail_in E err fname msg None
      | Some y \<Rightarrow> c_ret (Some (h, x, y))))) k) Q w"
  using check_alloc_done [OF assms(1), of E p err fname]
proof
  assume "\<exists>m. check_alloc E what priv p err fname w = (Done None, w\<lparr>cw_mem := m\<rparr>) \<and>
    (\<forall>a. p = Some a \<longrightarrow> priv w a = None)"
  then obtain m where "check_alloc E what priv p err fname w = (Done None, w\<lparr>cw_mem := m\<rparr>)"
    "\<And>a. p = Some a \<Longrightarrow> priv w a = None" by blast
  then show ?thesis using assms(2) by (simp add: when_ok_def wp_Done)
next
  assume "\<exists>a h x. p = Some a \<and> priv w a = Some h \<and> cw_handles w h = Some (wrap x) \<and>
       check_alloc E what priv p err fname w = (Done (Some h), w) \<and> get h w = (Done x, w)"
  then obtain a h x where c: "p = Some a" "priv w a = Some h" "cw_handles w h = Some (wrap x)"
      "check_alloc E what priv p err fname w = (Done (Some h), w)" "get h w = (Done x, w)" by blast
  show ?thesis
  proof (cases "inner x")
    case None
    have "x' = x" if "cw_handles w h' = Some (wrap x')" "p = Some b" "priv w b = Some h'" for x' b h'
      using get [OF that(1)] that c by simp
    then have "Q StatusInvalidState (w\<lparr>cw_mem := m\<rparr>)" for m using None by (intro assms(2)) blast
    with c None show ?thesis by (simp add: when_ok_def wp_Done with_mem_def)
  next
    case (Some y)
    with c assms(3) [OF c(1-3)] show ?thesis by (simp add: when_ok_def wp_Done)
  qed
qed

end

interpretation dbs: handle_kind "''database''" cw_dbs get_database ObjDatabase DbStruct
proof (unfold_locales, goal_cases)
  case (3 a obj) then show ?case by (cases obj) simp_all
qed (simp_all add: get_database_def)

interpretation cnxns: handle_kind "''connection''" cw_cnxns get_conn ObjConn CnxnStruct
proof (unfold_locales, goal_cases)
  case (3 a obj) then show ?case by (cases obj) simp_all
qed (simp_all add: get_conn_def)

interpretation stmts: handle_kind "''statement''" cw_stmts get_stmt ObjStmt StmtStruct
proof (unfold_locales, goal_cases)
  case (3 a obj) then show ?case by (cases obj) simp_all
qed (simp_all add: get_stmt_def)

lemmas after_db_alloc = dbs.after_alloc [folded check_db_alloc_def]
lemmas after_db_init = dbs.after_init [where inner = cdb_db and msg = "''database not initialized''",
    folded check_db_alloc_def, folded check_db_init_def]
lemmas after_conn_alloc = cnxns.after_alloc [folded check_conn_alloc_def]
lemmas after_conn_init = cnxns.after_init [where inner = ccn_cnxn and msg = "''connection not initialized''",
    folded check_conn_alloc_def, folded check_conn_init_def]
lemmas after_stmt_alloc = stmts.after_alloc [folded check_stmt_alloc_def]
lemmas after_stmt_init = stmts.after_init [where inner = cst_stmt and msg = "''statement not allocated''",
    folded check_stmt_alloc_def, folded check_stmt_init_def]

section \<open>Options\<close>

text \<open>None of the driver's objects has options to get, so every option function ends at its type
  assertion.\<close>

lemmas option_defs = get_option_string_def get_option_bytes_def get_option_double_def get_option_int_def
  set_option_bytes_def set_option_double_def set_option_int_def
  database_options_def connection_options_def statement_options_def

lemma database_options_ok:
  assumes "c_ok R S w"
  shows "c_ok R S (snd (spark_database_get_option E db key value len err w))"
    and "c_ok R S (snd (spark_database_get_option_bytes E db key value len err w))"
    and "c_ok R S (snd (spark_database_get_option_double E db key value err w))"
    and "c_ok R S (snd (spark_database_get_option_int E db key value err w))"
    and "c_ok R S (snd (spark_database_set_option_bytes E db key bytes n err w))"
    and "c_ok R S (snd (spark_database_set_option_double E db key num err w))"
    and "c_ok R S (snd (spark_database_set_option_int E db key num err w))"
  unfolding spark_database_get_option_def spark_database_get_option_bytes_def
    spark_database_get_option_double_def spark_database_get_option_int_def
    spark_database_set_option_bytes_def spark_database_set_option_double_def spark_database_set_option_int_def
  by (intro guarded_ok after_db_init [OF assms]; simp add: option_defs assms)+

lemma connection_options_ok:
  assumes "c_ok R S w"
  shows "c_ok R S (snd (spark_connection_get_option E cnxn key value len err w))"
    and "c_ok R S (snd (spark_connection_get_option_bytes E cnxn key value len err w))"
    and "c_ok R S (snd (spark_connection_get_option_double E cnxn key value err w))"
    and "c_ok R S (snd (spark_connection_get_option_int E cnxn key value err w))"
    and "c_ok R S (snd (spark_connection_set_option_bytes E cnxn key bytes n err w))"
    and "c_ok R S (snd (spark_connection_set_option_double E cnxn key num err w))"
    and "c_ok R S (snd (spark_connection_set_option_int E cnxn key num err w))"
  unfolding spark_connection_get_option_def spark_connection_get_option_bytes_def
    spark_connection_get_option_double_def spark_connection_get_option_int_def
    spark_connection_set_option_bytes_def spark_connection_set_option_double_def spark_connection_set_option_int_def
  by (intro guarded_ok after_conn_init [OF assms]; simp add: option_defs assms)+

lemma statement_options_ok:
  assumes "c_ok R S w"
  shows "c_ok R S (snd (spark_statement_get_option E stmt key value len err w))"
    and "c_ok R S (snd (spark_statement_get_option_bytes E stmt key value len err w))"
    and "c_ok R S (snd (spark_statement_get_option_double E stmt key value err w))"
    and "c_ok R S (snd (spark_statement_get_option_int E stmt key value err w))"
    and "c_ok R S (snd (spark_statement_set_option_bytes E stmt key bytes n err w))"
    and "c_ok R S (snd (spark_statement_set_option_double E stmt key num err w))"
    and "c_ok R S (snd (spark_statement_set_option_int E stmt key num err w))"
    and "c_ok R S (snd (spark_statement_set_option E stmt key val err w))"
  unfolding spark_statement_get_option_def spark_statement_get_option_bytes_def
    spark_statement_get_option_double_def spark_statement_get_option_int_def
    spark_statement_set_option_bytes_def spark_statement_set_option_double_def spark_statement_set_option_int_def
    spark_statement_set_option_def
  by (intro guarded_ok after_stmt_init [OF assms]; simp add: option_defs assms)+

section \<open>Databases\<close>

lemma not_poisoned: "c_ok R S w \<Longrightarrow> \<not> cw_poison w"
  by (simp add: c_ok_def)

text \<open>Replacing a database object is always harmless.\<close>

lemma c_ok_database:
  assumes "c_ok R S w" "cw_handles w h = Some (ObjDatabase y)"
  shows "c_ok R S (set_handle h (ObjDatabase x) w)"
proof (rule c_ok_set_handle [OF assms])
  show "kind_ok s (ObjDatabase x)" if "kind_ok s (ObjDatabase y)" for s using that by (cases s) simp_all
qed simp_all

lemma spark_database_set_option_ok:
  assumes "c_ok R S w"
  shows "c_ok R S (snd (spark_database_set_option E db key val err w))"
  unfolding spark_database_set_option_def
  by (intro guarded_ok after_db_alloc [OF assms])
    (auto simp: assms database_post_init_def Let_def wp_Done intro!: c_ok_database split: option.split)

lemma spark_database_new_ok:
  assumes "c_ok R S w" "db \<noteq> None"
  shows "c_ok R S (snd (spark_database_new E db err w))"
  unfolding spark_database_new_def
proof (rule guarded_ok)
  obtain a where a: "db = Some a" using assms(2) by blast
  show "wp (\<lambda>w. if cw_poison w then
      c_fail E err ''AdbcDatabaseNew: Go panicked, driver is in unknown state'' StatusInternal w
    else (case db of
      None \<Rightarrow> (Panicked NilPointer, w)
    | Some a \<Rightarrow>
        if cw_dbs w a \<noteq> None then
          c_fail E err ''AdbcDatabaseNew: database already allocated'' StatusInvalidState w
        else (case create_handle (ObjDatabase \<lparr>cdb_opts = Map.empty, cdb_db = None\<rparr>) w of
          (h, w1) \<Rightarrow> (Done StatusOK, w1\<lparr>cw_dbs := (cw_dbs w1)(a \<mapsto> h)\<rparr>)))) (\<lambda>code. c_ok R S) w"
    using assms(1) a
    by (auto simp: wp_def not_poisoned [OF assms(1)] create_handle_def c_fail_def Let_def
        intro!: c_ok_create [OF assms(1) _, where s = "DbStruct a" and
          x = "ObjDatabase \<lparr>cdb_opts = Map.empty, cdb_db = None\<rparr>"])
qed

lemma make_database_go:
  assumes "make_database E cdb w = (res, w')"
  shows "\<exists>W. w' = put_go W w \<and> wd_conns W = wd_conns (cw_go w) \<and>
    rt_refs (wd_run W) = rt_refs (wd_run (cw_go w)) \<and> rt_streams (wd_run W) = rt_streams (wd_run (cw_go w))"
  using assms by (auto simp: make_database_def put_go_def Let_def split: prod.splits)

lemma spark_database_init_ok:
  assumes "c_ok R S w"
  shows "c_ok R S (snd (spark_database_init E db err w))"
  unfolding spark_database_init_def
proof (intro guarded_ok after_db_alloc [OF assms])
  fix a h x assume h: "cw_handles w h = Some (ObjDatabase x)"
  obtain res w1 where m: "make_database E x w = (res, w1)" by fastforce
  then obtain W where W: "w1 = put_go W w" "wd_conns W = wd_conns (cw_go w)"
    "rt_refs (wd_run W) = rt_refs (wd_run (cw_go w))" "rt_streams (wd_run W) = rt_streams (wd_run (cw_go w))"
    using make_database_go by blast
  then have ok: "c_ok R S w1" using assms by (auto intro!: c_ok_put_go)
  moreover have "cw_handles w1 h = Some (ObjDatabase x)" using W(1) h by (simp add: put_go_def)
  ultimately show "wp (if cdb_db x \<noteq> None then
      c_fail E err ''AdbcDatabaseInit: database already initialized'' StatusInvalidState
    else (\<lambda>w. case make_database E x w of
        (Inl e, w1) \<Rightarrow> c_status E err (Some e) w1
      | (Inr d, w1) \<Rightarrow> (Done StatusOK, put_database h x d w1))) (\<lambda>code. c_ok R S) w"
    using m assms
    by (cases res) (auto simp: wp_def c_fail_def c_status_eq put_database_def intro!: c_ok_database)
qed (simp add: assms)

lemma spark_database_release_ok:
  assumes "c_ok R S w"
  shows "c_ok R S (snd (spark_database_release E db err w))"
  unfolding spark_database_release_def
proof (intro guarded_ok after_db_alloc [OF assms])
  fix a h x assume a: "db = Some a" "cw_dbs w a = Some h" and h: "cw_handles w h = Some (ObjDatabase x)"
  have "c_ok R S (delete_handle h (w\<lparr>cw_dbs := (cw_dbs w)(a := None)\<rparr>))"
    by (rule c_ok_delete [OF assms, where s = "DbStruct a", OF _ h])
      (simp_all add: a delete_handle_def Let_def)
  then show "wp (\<lambda>w. (Done StatusOK, delete_handle h (w\<lparr>cw_dbs := (cw_dbs w)(the db := None)\<rparr>)))
      (\<lambda>code. c_ok R S) w"
    by (simp add: wp_def a)
qed (simp add: assms)

section \<open>The Go driver under the C layer\<close>

lemma c_ok_run_same: "c_ok R S w \<Longrightarrow> run_same (cw_go w) W \<Longrightarrow> c_ok R S (put_go W w)"
  by (rule c_ok_put_go) (simp_all add: run_same_def)

section \<open>Exporting a reader\<close>

lemma export_and_release_eq:
  assumes "\<And>r. rd = ResultReader r \<Longrightarrow> rd_refs r = 1"
  shows "export_and_release rd (Some a) w = (Done StatusOK,
    w\<lparr>cw_handles := (cw_handles w)(cw_next_handle w \<mapsto>
        ObjStream \<lparr>cas_rdr = rd, cas_err = None, cas_status = StatusOK\<rparr>),
      cw_next_handle := cw_next_handle w + 1,
      cw_mem := (cw_mem w)\<lparr>cm_blocks := cm_blocks (cw_mem w) + 1\<rparr>,
      cw_streams := (cw_streams w)(a := \<lparr>cs_release = SparkStreamRelease, cs_private = Some (cw_next_handle w)\<rparr>)\<rparr>)"
proof (cases rd)
  case (ResultReader r)
  then show ?thesis using assms [OF ResultReader]
    by (cases w; cases "cw_go w"; cases r) (simp add: export_and_release_def export_record_reader_def
        rdr_retain_def rdr_release_def reader_retain_def reader_release_def create_handle_def
        set_handle_def put_run_def Let_def)
next
  case (TableReader t pos n)
  then show ?thesis
    by (cases w) (simp add: export_and_release_def export_record_reader_def rdr_retain_def
        rdr_release_def create_handle_def set_handle_def Let_def)
qed

text \<open>A place for a stream: an address whose stream is not one of the driver's that is still to be
  released.\<close>

definition free_stream :: "'srv c_world \<Rightarrow> nat option \<Rightarrow> bool" where
  "free_stream w out \<longleftrightarrow> (\<exists>a. out = Some a \<and> private_of w (StreamStruct a) = None)"

lemma free_stream_frame: "cw_streams w' = cw_streams w \<Longrightarrow> free_stream w out \<Longrightarrow> free_stream w' out"
  by (simp add: free_stream_def)

lemma export_and_release_ok:
  assumes "c_ok R' S' w" "free_stream w out"
    and "\<And>r. rd = ResultReader r \<Longrightarrow> rd_refs r = 1 \<and> rd_cancel r"
    and "\<And>i. R' i = R i + reader_refs rd i" "S' = S + reader_streams rd"
  shows "wp (export_and_release rd out) (\<lambda>code. c_ok R S) w"
proof -
  obtain a where a: "out = Some a" "private_of w (StreamStruct a) = None"
    using assms(2) by (auto simp: free_stream_def)
  have "export_and_release rd out w = (Done StatusOK,
    w\<lparr>cw_handles := (cw_handles w)(cw_next_handle w \<mapsto>
        ObjStream \<lparr>cas_rdr = rd, cas_err = None, cas_status = StatusOK\<rparr>),
      cw_next_handle := cw_next_handle w + 1,
      cw_mem := (cw_mem w)\<lparr>cm_blocks := cm_blocks (cw_mem w) + 1\<rparr>,
      cw_streams := (cw_streams w)(a := \<lparr>cs_release = SparkStreamRelease, cs_private = Some (cw_next_handle w)\<rparr>)\<rparr>)"
    unfolding a(1) using assms(3) by (intro export_and_release_eq) blast
  then show ?thesis
    using assms(3-5) by (simp add: wp_def)
      (rule c_ok_create [OF assms(1) a(2), where
        x = "ObjStream \<lparr>cas_rdr = rd, cas_err = None, cas_status = StatusOK\<rparr>"]; auto)
qed

lemma export_table_ok:
  "c_ok R S w \<Longrightarrow> free_stream w out \<Longrightarrow> wp (export_and_release (TableReader t pos n) out) (\<lambda>code. c_ok R S) w"
  by (rule export_and_release_ok) (simp_all add: reader_refs_def reader_streams_def)

section \<open>Connections\<close>

lemma kind_conn: "kind_ok s (ObjConn c) \<Longrightarrow> kind_ok s (ObjConn c')"
  by (cases s) simp_all

lemma kind_stmt: "kind_ok s (ObjStmt c) \<Longrightarrow> kind_ok s (ObjStmt c')"
  by (cases s) simp_all

lemma kind_stream: "kind_ok s (ObjStream c) \<Longrightarrow> kind_ok s (ObjStream c')"
  by (cases s) simp_all

lemma obj_ok_at: "c_ok R S w \<Longrightarrow> cw_handles w h = Some x \<Longrightarrow> obj_ok (cw_go w) x"
  by (auto simp: c_ok_def objs_ok_def)

lemma conn_new_context_frame [simp]:
  "cw_go (conn_new_context h conn w) = cw_go w" "cw_streams (conn_new_context h conn w) = cw_streams w"
  by (simp_all add: conn_new_context_def new_context_def cancel_context_def set_handle_def Let_def split: option.split)

lemma c_ok_conn_context:
  assumes "c_ok R S w" "cw_handles w h = Some (ObjConn conn)"
  shows "c_ok R S (conn_new_context h conn w)"
    and "c_ok R S (set_handle h (ObjConn (conn\<lparr>ccn_cancel := None\<rparr>)) (cancel_context (ccn_cancel conn) w))"
proof -
  have ok: "obj_ok (cw_go w) (ObjConn conn)" using assms by (rule obj_ok_at)
  show "c_ok R S (conn_new_context h conn w)"
    by (rule c_ok_ctx [OF assms, where x = "ObjConn (conn\<lparr>ccn_cancel := Some (cw_next_ctx w)\<rparr>)"])
      (use ok in \<open>auto simp: conn_new_context_def new_context_def cancel_context_def set_handle_def Let_def
        intro: kind_conn split: option.split\<close>)
  show "c_ok R S (set_handle h (ObjConn (conn\<lparr>ccn_cancel := None\<rparr>)) (cancel_context (ccn_cancel conn) w))"
    by (rule c_ok_ctx [OF assms, where x = "ObjConn (conn\<lparr>ccn_cancel := None\<rparr>)"])
      (use ok in \<open>auto simp: cancel_context_def set_handle_def intro: kind_conn split: option.split\<close>)
qed

lemma spark_connection_set_option_ok:
  assumes "c_ok R S w"
  shows "c_ok R S (snd (spark_connection_set_option E cnxn key val err w))"
  unfolding spark_connection_set_option_def
proof (intro guarded_ok after_conn_alloc [OF assms])
  fix a h x assume h: "cw_handles w h = Some (ObjConn x)"
  have "c_ok R S (set_handle h (ObjConn (x\<lparr>ccn_init := m\<rparr>)) w)" for m
    by (rule c_ok_set_handle [OF assms h]) (use obj_ok_at [OF assms h] in \<open>auto intro: kind_conn\<close>)
  then show "wp (case ccn_cnxn x of
        None \<Rightarrow>
          (let args = (case ccn_init x of None \<Rightarrow> Map.empty | Some m \<Rightarrow> m) in
           (\<lambda>w. (Done StatusOK, set_handle h
              (ObjConn (x\<lparr>ccn_init := Some (args(go_string key \<mapsto> go_string val))\<rparr>)) w)))
      | Some k \<Rightarrow>
          (case connection_post_init of
             None \<Rightarrow> c_fail E err ''AdbcConnectionSetOption: not supported post-init'' StatusNotImplemented
           | Some f \<Rightarrow> (\<lambda>w. case f k (go_string key) (go_string val) (cw_go w) of
               (e, W) \<Rightarrow> c_status E err e (put_go W w)))) (\<lambda>code. c_ok R S) w"
    using assms by (auto simp: connection_post_init_def Let_def wp_Done split: option.split)
qed (simp add: assms)

lemma spark_connection_new_ok:
  assumes "c_ok R S w" "cnxn = Some a"
  shows "c_ok R S (snd (spark_connection_new E cnxn err w))"
  unfolding spark_connection_new_def assms(2)
  by (rule guarded_ok)
    (auto simp: assms wp_def not_poisoned [OF assms(1)] create_handle_def c_fail_def Let_def
        intro!: c_ok_create [OF assms(1) _, where s = "CnxnStruct a" and
          x = "ObjConn \<lparr>ccn_cancel = None, ccn_cnxn = None, ccn_init = None\<rparr>"])

lemma spark_connection_cancel_ok:
  assumes "c_ok R S w"
  shows "c_ok R S (snd (spark_connection_cancel E cnxn err w))"
  unfolding spark_connection_cancel_def
  by (intro guarded_ok after_conn_init [OF assms]) (simp_all add: assms wp_def c_ok_conn_context(2))

lemma spark_connection_init_ok:
  assumes "c_ok R S w"
  shows "c_ok R S (snd (spark_connection_init E cnxn db err w))"
  unfolding spark_connection_init_def
proof (intro guarded_ok after_conn_alloc [OF assms])
  fix a h x assume h: "cw_handles w h = Some (ObjConn x)"
  have opened: "wp (\<lambda>w. case open_connection (cl_libs E) d (cw_go w) of
            (Inl e, W) \<Rightarrow> c_status E err (Some e) (put_go W w)
          | (Inr k, W) \<Rightarrow>
              (let conn1 = x\<lparr>ccn_cnxn := Some k\<rparr> in
               init_options E err h conn1 k (set_handle h (ObjConn conn1) (put_go W w))))
        (\<lambda>code. c_ok R S) w" for d
  proof -
    obtain res W where o: "open_connection (cl_libs E) d (cw_go w) = (res, W)" by fastforce
    note oc = open_connection_cases [OF o]
    show ?thesis
    proof (cases res)
      case (Inl e)
      then have "c_ok R S (put_go W w)" using oc assms by (intro c_ok_put_go) auto
      then show ?thesis using o Inl by (simp add: wp_def c_status_eq)
    next
      case (Inr k)
      then have "c_ok R S (set_handle h (ObjConn (x\<lparr>ccn_cnxn := Some k\<rparr>)) (put_go W w))"
        using oc by (auto intro!: c_ok_open [OF assms h])
      then show ?thesis using o Inr
        by (simp add: wp_def Let_def init_options_def connection_post_init_def c_fail_def split: option.split)
    qed
  qed
  show "wp (if ccn_cnxn x \<noteq> None then
          c_fail E err ''AdbcConnectionInit: connection already initialized'' StatusInvalidState
        else when_ok (check_db_init E db err ''AdbcConnectionInit'') (\<lambda>(hd, cdb, d) w.
          case open_connection (cl_libs E) d (cw_go w) of
            (Inl e, W) \<Rightarrow> c_status E err (Some e) (put_go W w)
          | (Inr k, W) \<Rightarrow>
              (let conn1 = x\<lparr>ccn_cnxn := Some k\<rparr> in
               init_options E err h conn1 k (set_handle h (ObjConn conn1) (put_go W w)))))
        (\<lambda>code. c_ok R S) w"
  proof (cases "ccn_cnxn x = None")
    case True
    then show ?thesis
      by (simp del: wp_simps(2)) (rule after_db_init [OF assms]; simp add: assms opened)
  qed (simp add: assms)
qed (simp add: assms)

lemma spark_connection_release_ok:
  assumes "c_ok R S w"
  shows "c_ok R S (snd (spark_connection_release E cnxn err w))"
  unfolding spark_connection_release_def
proof (intro guarded_ok after_conn_alloc [OF assms])
  fix a h x assume a: "cnxn = Some a" "cw_cnxns w a = Some h" and h: "cw_handles w h = Some (ObjConn x)"
  have closed: "c_ok R S (delete_handle h
      ((cancel_context (ccn_cancel x) (w\<lparr>cw_go := W, cw_mem := m\<rparr>))
        \<lparr>cw_cnxns := (cw_cnxns w)(a := None)\<rparr>))"
    if "rt_refs (wd_run W) = rt_refs (wd_run (cw_go w))" "rt_streams (wd_run W) = rt_streams (wd_run (cw_go w))"
      and keep: "\<And>j z. cw_handles w j = Some z \<Longrightarrow> j \<noteq> h \<Longrightarrow> obj_ok (cw_go w) z \<Longrightarrow> obj_ok W z" for W m
    by (rule c_ok_delete [OF assms, where s = "CnxnStruct a", OF _ h])
      (use that in \<open>auto simp: a delete_handle_def cancel_context_def Let_def split: option.split\<close>)
  show "wp (\<lambda>w. case (case ccn_cnxn x of
            None \<Rightarrow> (Done StatusOK, w)
          | Some k \<Rightarrow> (case connection_close (cl_libs E) k (cw_go w) of
              (e, W) \<Rightarrow> c_status E err e (put_go W w))) of
          (res, w1) \<Rightarrow>
            (let w2 = cancel_context (ccn_cancel x) w1 in
             (res, delete_handle h (w2\<lparr>cw_cnxns := (cw_cnxns w2)(the cnxn := None)\<rparr>))))
        (\<lambda>code. c_ok R S) w"
  proof (cases "ccn_cnxn x")
    case None
    have "c_ok R S (delete_handle h ((cancel_context (ccn_cancel x) w)\<lparr>cw_cnxns := (cw_cnxns w)(a := None)\<rparr>))"
      using closed [of "cw_go w" "cw_mem w"] by simp
    then show ?thesis using None a
      by (simp add: wp_def Let_def cancel_context_def split: option.splits)
  next
    case (Some k)
    obtain e W where c: "connection_close (cl_libs E) k (cw_go w) = (e, W)" by fastforce
    have keep: "obj_ok W z" if z: "cw_handles w j = Some z" "j \<noteq> h" "obj_ok (cw_go w) z" for j z
    proof (cases z)
      case (ObjConn y)
      have "ccn_cnxn y \<noteq> Some k"
        using assms h z ObjConn Some unfolding c_ok_def unshared_def by (metis obj_conn.simps(1))
      then show ?thesis using z(3) ObjConn connection_close_cases [OF c] by auto
    qed (use z(3) connection_close_cases(3) [OF c] in auto)
    have "c_ok R S (delete_handle h
      ((cancel_context (ccn_cancel x) (w\<lparr>cw_go := W, cw_mem := m\<rparr>))
        \<lparr>cw_cnxns := (cw_cnxns w)(a := None)\<rparr>))" for m
      by (rule closed) (use connection_close_cases [OF c] keep in auto)
    from this [of "snd (err_to_adbc_err E err e (cw_mem w))"] show ?thesis using Some a c
      by (cases "ccn_cancel x") (simp_all add: wp_def Let_def c_status_eq put_go_def cancel_context_def)
  qed
qed (simp add: assms)

section \<open>Metadata\<close>

lemma spark_connection_get_info_ok:
  assumes "c_ok R S w" "free_stream w out"
  shows "c_ok R S (snd (spark_connection_get_info E cnxn codes len out err w))"
  unfolding spark_connection_get_info_def
proof (intro guarded_ok after_conn_init [OF assms(1)])
  fix a h x k assume h: "cw_handles w h = Some (ObjConn x)"
  let ?w = "conn_new_context h x w"
  have ok: "c_ok R S ?w" by (rule c_ok_conn_context [OF assms(1) h])
  obtain res W where g: "get_info (cl_libs E) (cl_arrow_version E) (cl_info_order E) k []
      (from_c_arr codes len) (cw_go w) = (res, W)" by fastforce
  then have "c_ok R S (put_go W ?w)" using get_info_same [OF g] by (intro c_ok_run_same [OF ok]) simp
  with export_table_ok [OF this free_stream_frame [OF _ assms(2)]]
  show "wp (case (h, x, k) of (h, conn, k) \<Rightarrow> (\<lambda>w0.
      let w = conn_new_context h conn w0 in
      case get_info (cl_libs E) (cl_arrow_version E) (cl_info_order E) k [] (from_c_arr codes len) (cw_go w) of
        (Inl e, W) \<Rightarrow> c_status E err (Some e) (put_go W w)
      | (Inr rows, W) \<Rightarrow> export_and_release (TableReader (InfoTable rows) 0 1) out (put_go W w)))
      (\<lambda>code. c_ok R S) w"
    using g by (cases res) (simp_all add: wp_def Let_def c_status_eq put_go_def)
qed (simp add: assms)

lemma spark_connection_get_objects_ok:
  assumes "c_ok R S w" "free_stream w out" "lib_fits (cl_libs E)"
  shows "c_ok R S (snd (spark_connection_get_objects E cnxn depth catalog db_schema table_name
    table_type column_name out err w))"
  unfolding spark_connection_get_objects_def
proof (intro guarded_ok after_conn_init [OF assms(1)])
  fix a h x k assume h: "cw_handles w h = Some (ObjConn x)" and k: "ccn_cnxn x = Some k"
  let ?w = "conn_new_context h x w"
  have ok: "c_ok R S ?w" by (rule c_ok_conn_context [OF assms(1) h])
  have "conn_client k (cw_go w) \<noteq> None" using obj_ok_at [OF assms(1) h] k by simp
  then obtain res W where g: "get_objects (cl_libs E) k [] depth (to_str_ptr catalog) (to_str_ptr db_schema)
      (to_str_ptr table_name) (to_str_ptr column_name) (to_str_slice table_type) (cw_go w) = Some (res, W)"
    and W: "same_world (cw_go w) W"
    using get_objects_open [OF assms(3)] by blast
  have "c_ok R S (put_go W ?w)" using same_world_run [OF W] by (intro c_ok_run_same [OF ok]) simp
  with export_table_ok [OF this free_stream_frame [OF _ assms(2)]]
  show "wp (case (h, x, k) of (h, conn, k) \<Rightarrow> (\<lambda>w0.
      let w = conn_new_context h conn w0 in
      case get_objects (cl_libs E) k [] depth (to_str_ptr catalog) (to_str_ptr db_schema)
          (to_str_ptr table_name) (to_str_ptr column_name) (to_str_slice table_type) (cw_go w) of
        None \<Rightarrow> (Panicked DriverPanic, w)
      | Some (Inl e, W) \<Rightarrow> c_status E err (Some e) (put_go W w)
      | Some (Inr rows, W) \<Rightarrow> export_and_release (TableReader (ObjectsTable rows) 0 1) out (put_go W w)))
      (\<lambda>code. c_ok R S) w"
    using g by (cases res) (simp_all add: wp_def Let_def c_status_eq put_go_def)
qed (simp add: assms)

lemma spark_connection_get_statistics_ok:
  assumes "c_ok R S w"
  shows "c_ok R S (snd (spark_connection_get_statistics E cnxn err w))"
    and "c_ok R S (snd (spark_connection_get_statistic_names E cnxn err w))"
  unfolding spark_connection_get_statistics_def spark_connection_get_statistic_names_def
  by (intro guarded_ok after_conn_init [OF assms]; simp add: statistics_refused_def assms)+

lemma spark_connection_get_table_schema_ok:
  assumes "c_ok R S w" "schema \<noteq> None"
  shows "c_ok R S (snd (spark_connection_get_table_schema E cnxn catalog db_schema table_name schema err w))"
  unfolding spark_connection_get_table_schema_def
proof (intro guarded_ok after_conn_init [OF assms(1)])
  fix a h x k assume h: "cw_handles w h = Some (ObjConn x)" and k: "ccn_cnxn x = Some k"
  let ?w = "conn_new_context h x w"
  have ok: "c_ok R S ?w" by (rule c_ok_conn_context [OF assms(1) h])
  have "conn_client k (cw_go w) \<noteq> None" using obj_ok_at [OF assms(1) h] k by simp
  then obtain res W where g: "get_table_schema (cl_libs E) k [] (to_str_ptr catalog) (to_str_ptr db_schema)
      (go_string table_name) (cw_go w) = Some (res, W)"
    and W: "same_world (cw_go w) W"
    using yields_get_table_schema [unfolded yields_def] by blast
  have "c_ok R S (put_go W ?w)" using same_world_run [OF W] by (intro c_ok_run_same [OF ok]) simp
  then show "wp (case (h, x, k) of (h, conn, k) \<Rightarrow> (\<lambda>w0.
      let w = conn_new_context h conn w0 in
      case get_table_schema (cl_libs E) k [] (to_str_ptr catalog) (to_str_ptr db_schema)
          (go_string table_name) (cw_go w) of
        None \<Rightarrow> (Panicked DriverPanic, w)
      | Some (Inl e, W) \<Rightarrow> c_status E err (Some e) (put_go W w)
      | Some (Inr sc, W) \<Rightarrow> export_schema sc schema (put_go W w)))
      (\<lambda>code. c_ok R S) w"
    using g assms(2) by (cases res) (auto simp: wp_def Let_def c_status_eq export_schema_def)
qed (simp add: assms)

lemma spark_connection_get_table_types_ok:
  assumes "c_ok R S w" "free_stream w out"
  shows "c_ok R S (snd (spark_connection_get_table_types E cnxn out err w))"
  unfolding spark_connection_get_table_types_def
proof (intro guarded_ok after_conn_init [OF assms(1)])
  fix a h x k assume h: "cw_handles w h = Some (ObjConn x)"
  have ok: "c_ok R S (conn_new_context h x w)" by (rule c_ok_conn_context [OF assms(1) h])
  with export_table_ok [OF this free_stream_frame [OF _ assms(2)]]
  show "wp (case (h, x, k) of (h, conn, k) \<Rightarrow> (\<lambda>w0.
      let w = conn_new_context h conn w0 in
      case get_table_types k (cw_go w) of
        Inl e \<Rightarrow> c_status E err (Some e) w
      | Inr (sc, b) \<Rightarrow> export_and_release (TableReader (TypesTable sc b) 0 1) out w))
      (\<lambda>code. c_ok R S) w"
    by (simp add: wp_def Let_def c_status_eq put_go_def split: sum.split prod.split)
qed (simp add: assms)

lemma spark_connection_refused_ok:
  assumes "c_ok R S w"
  shows "c_ok R S (snd (spark_connection_read_partition E cnxn serialized len out err w))"
    and "c_ok R S (snd (spark_connection_commit E cnxn err w))"
    and "c_ok R S (snd (spark_connection_rollback E cnxn err w))"
  unfolding spark_connection_read_partition_def spark_connection_commit_def spark_connection_rollback_def
  by (intro guarded_ok after_conn_init [OF assms];
      simp add: assms wp_def Let_def c_status_eq read_partition_def c_ok_conn_context(1))+

text \<open>For the callbacks and the statements.\<close>

lemma put_go_handles [simp]:
  "cw_handles (put_go W w) = cw_handles w" "cw_go (put_go W w) = W" "cw_mem (put_go W w) = cw_mem w"
  by (simp_all add: put_go_def)

lemma put_run_go: "put_run r w = put_go ((cw_go w)\<lparr>wd_run := r\<rparr>) w"
  by (simp add: put_run_def put_go_def)

end
