(* ===== verification/Runs.thy ===== *)
theory Runs
  imports Main
begin

text \<open>
  Runs of a step relation whose steps show a list of events, invariants of runs, and the refinement
  of one relation by another: a contract whose lemmas lift what holds of a step to whole runs.
\<close>

inductive run :: "('s \<Rightarrow> 'e list \<Rightarrow> 's \<Rightarrow> bool) \<Rightarrow> 's \<Rightarrow> 'e list \<Rightarrow> 's \<Rightarrow> bool" for step where
  run_start [intro]: "run step s [] s"
| run_step: "run step s es s' \<Longrightarrow> step s' fs s'' \<Longrightarrow> run step s (es @ fs) s''"

lemma run_one: "step s es s' \<Longrightarrow> run step s es s'"
  using run_step [of step s "[]" s es s'] by auto

lemma run_trans: "run step s' fs s'' \<Longrightarrow> run step s es s' \<Longrightarrow> run step s (es @ fs) s''"
  by (induction rule: run.induct) (auto simp flip: append_assoc intro: run_step)

lemma run_invariant:
  assumes "run step s es s'" "P s" "\<And>s es s'. P s \<Longrightarrow> step s es s' \<Longrightarrow> P s'"
  shows "P s'"
  using assms(1,2) by induction (auto intro: assms(3))

text \<open>Every step of the concrete relation, from a state with the invariant, is a run of the
  abstract one with the same events.\<close>

locale refinement =
  fixes cstep :: "'c \<Rightarrow> 'e list \<Rightarrow> 'c \<Rightarrow> bool"
    and astep :: "'a \<Rightarrow> 'e list \<Rightarrow> 'a \<Rightarrow> bool"
    and abs :: "'c \<Rightarrow> 'a"
    and inv :: "'c \<Rightarrow> bool"
  assumes inv_step: "inv s \<Longrightarrow> cstep s es s' \<Longrightarrow> inv s'"
    and simulation: "inv s \<Longrightarrow> cstep s es s' \<Longrightarrow> run astep (abs s) es (abs s')"
begin

lemma inv_run: "run cstep s es s' \<Longrightarrow> inv s \<Longrightarrow> inv s'"
  by (erule run_invariant) (auto intro: inv_step)

lemma run_refines: "run cstep s es s' \<Longrightarrow> inv s \<Longrightarrow> run astep (abs s) es (abs s')"
proof (induction rule: run.induct)
  case (run_step s es s' fs s'')
  then show ?case using inv_run simulation run_trans by metis
qed (auto intro: run_start)

end

end
