(* ===== verification/C_Stmt_Calls.thy ===== *)
theory C_Stmt_Calls
  imports C_Calls
begin

text \<open>
  The exported functions of statements keep the invariant of \<open>C_Invariant\<close> and do not panic. An
  execution hands its reader to an exported stream; binding takes one reference of the imported
  record, closing gives it back.
\<close>

section \<open>The statement behind a handle\<close>

lemma c_ok_stmt_context:
  assumes "c_ok R S w" "cw_handles w h = Some (ObjStmt cs)"
  shows "c_ok R S (snd (stmt_new_context h cs w))"
    and "c_ok R S (set_handle h (ObjStmt (cs\<lparr>cst_cancel := None\<rparr>)) (cancel_context (cst_cancel cs) w))"
proof -
  have ok: "obj_ok (cw_go w) (ObjStmt cs)" using assms by (rule obj_ok_at)
  show "c_ok R S (snd (stmt_new_context h cs w))"
    by (rule c_ok_ctx [OF assms, where x = "ObjStmt (cs\<lparr>cst_cancel := Some (cw_next_ctx w)\<rparr>)"])
      (use ok in \<open>auto simp: stmt_new_context_def new_context_def cancel_context_def set_handle_def Let_def
        intro: kind_stmt split: option.split\<close>)
  show "c_ok R S (set_handle h (ObjStmt (cs\<lparr>cst_cancel := None\<rparr>)) (cancel_context (cst_cancel cs) w))"
    by (rule c_ok_ctx [OF assms, where x = "ObjStmt (cs\<lparr>cst_cancel := None\<rparr>)"])
      (use ok in \<open>auto simp: cancel_context_def set_handle_def intro: kind_stmt split: option.split\<close>)
qed

lemma stmt_new_context_frame:
  assumes "stmt_new_context h cs w = (cs1, w1)"
  shows "cw_go w1 = cw_go w" "cw_handles w1 h = Some (ObjStmt cs1)" "cst_stmt cs1 = cst_stmt cs"
    "w1 = snd (stmt_new_context h cs w)"
  using assms
  by (auto simp: stmt_new_context_def new_context_def cancel_context_def set_handle_def Let_def split: option.split)

text \<open>Storing a statement moves the references it holds.\<close>

lemma c_ok_put_statement:
  assumes ok: "c_ok R S w" and h: "cw_handles w h = Some (ObjStmt cs)" and st: "cst_stmt cs = Some st"
    and st': "params_ok st'" "st_cnxn st' = st_cnxn st"
    and R: "\<And>i. R' i = R i + stmt_holds st i - stmt_holds st' i"
  shows "c_ok R' S (put_statement h cs st' w)"
  unfolding put_statement_def
  by (rule c_ok_set_handle [OF ok h]) (use obj_ok_at [OF ok h] st st' R in \<open>auto intro: kind_stmt\<close>)

lemma stmt_params_ok:
  "c_ok R S w \<Longrightarrow> cw_handles w h = Some (ObjStmt cs) \<Longrightarrow> cst_stmt cs = Some st \<Longrightarrow> params_ok st"
  using obj_ok_at [of R S w h "ObjStmt cs"] by simp

lemma spark_statement_simple_ok:
  assumes "c_ok R S w"
  shows "c_ok R S (snd (spark_statement_cancel E stmt err w))"
    and "c_ok R S (snd (spark_statement_execute_schema E stmt err w))"
    and "c_ok R S (snd (spark_statement_set_substrait_plan E stmt plan len err w))"
    and "c_ok R S (snd (spark_statement_get_parameter_schema E stmt schema err w))"
    and "c_ok R S (snd (spark_statement_execute_partitions E stmt schema parts affected err w))"
  unfolding spark_statement_cancel_def spark_statement_execute_schema_def
    spark_statement_set_substrait_plan_def spark_statement_get_parameter_schema_def
    spark_statement_execute_partitions_def
  by (intro guarded_ok after_stmt_init [OF assms];
      simp add: assms wp_Done get_parameter_schema_def execute_partitions_def c_ok_stmt_context(2);
      simp add: wp_def c_status_eq case_prod_beta c_ok_stmt_context(1) [OF assms])+

section \<open>New and Release\<close>

lemma spark_statement_new_ok:
  assumes "c_ok R S w" "stmt \<noteq> None"
  shows "c_ok R S (snd (spark_statement_new E cnxn stmt err w))"
  unfolding spark_statement_new_def
proof (rule guarded_ok)
  obtain a where a: "stmt = Some a" using assms(2) by blast
  have made: "wp (when_ok (check_conn_init E cnxn err ''AdbcStatementNew'') (\<lambda>(hc, conn, k) w.
          (case new_statement k (cw_go w) of
             Inl e \<Rightarrow> c_status E err (Some e) w
           | Inr st \<Rightarrow>
               (case create_handle (ObjStmt \<lparr>cst_cancel = None, cst_stmt = Some st\<rparr>) w of
                  (h, w1) \<Rightarrow> (Done StatusOK, w1\<lparr>cw_stmts := (cw_stmts w1)(a \<mapsto> h)\<rparr>)))))
        (\<lambda>code. c_ok R S) w" if free: "cw_stmts w a = None"
  proof (rule after_conn_init [OF assms(1)])
    fix b h x k assume h: "cw_handles w h = Some (ObjConn x)" and k: "ccn_cnxn x = Some k"
    have ok: "k < length (wd_conns (cw_go w))" using obj_ok_at [OF assms(1) h] k by simp
    show "wp (case (h, x, k) of (hc, conn, k) \<Rightarrow> (\<lambda>w.
          (case new_statement k (cw_go w) of
             Inl e \<Rightarrow> c_status E err (Some e) w
           | Inr st \<Rightarrow>
               (case create_handle (ObjStmt \<lparr>cst_cancel = None, cst_stmt = Some st\<rparr>) w of
                  (h, w1) \<Rightarrow> (Done StatusOK, w1\<lparr>cw_stmts := (cw_stmts w1)(a \<mapsto> h)\<rparr>)))))
        (\<lambda>code. c_ok R S) w"
      using assms(1) free ok
      by (auto simp: wp_def new_statement_def c_status_eq create_handle_def Let_def params_ok_def stmt_holds_def
        split: option.split
        intro!: c_ok_create [OF assms(1) _, where s = "StmtStruct a" and
          x = "ObjStmt \<lparr>cst_cancel = None, cst_stmt =
            Some \<lparr>st_cnxn = Some k, st_query = [], st_params = None, st_prepared = False\<rparr>\<rparr>"])
  qed (simp add: assms)
  then show "wp (\<lambda>w. if cw_poison w then
      c_fail E err ''AdbcStatementNew: Go panicked, driver is in unknown state'' StatusInternal w
    else (case stmt of
      None \<Rightarrow> (Panicked NilPointer, w)
    | Some a \<Rightarrow>
        if cw_stmts w a \<noteq> None then
          c_fail E err ''AdbcStatementNew: statement already allocated'' StatusInvalidState w
        else when_ok (check_conn_init E cnxn err ''AdbcStatementNew'') (\<lambda>(hc, conn, k) w.
          (case new_statement k (cw_go w) of
             Inl e \<Rightarrow> c_status E err (Some e) w
           | Inr st \<Rightarrow>
               (case create_handle (ObjStmt \<lparr>cst_cancel = None, cst_stmt = Some st\<rparr>) w of
                  (h, w1) \<Rightarrow> (Done StatusOK, w1\<lparr>cw_stmts := (cw_stmts w1)(a \<mapsto> h)\<rparr>)))) w))
        (\<lambda>code. c_ok R S) w"
    using not_poisoned [OF assms(1)] assms(1) by (simp add: wp_def a c_fail_def)
qed

lemma spark_statement_release_ok:
  assumes "c_ok R S w"
  shows "c_ok R S (snd (spark_statement_release E stmt err w))"
  unfolding spark_statement_release_def
proof (rule guarded_ok)
  have released: "wp (when_ok (check_stmt_alloc E stmt err ''AdbcStatementRelease'') (\<lambda>h.
      c_bind (get_stmt h) (\<lambda>cs w.
        case (case cst_stmt cs of
            None \<Rightarrow> (Done StatusOK, w)
          | Some st \<Rightarrow> (case statement_close st (cw_go w) of
              (st', W) \<Rightarrow> c_status E err None (put_go W w))) of
          (res, w1) \<Rightarrow>
            (let w2 = cancel_context (cst_cancel cs) w1 in
             (res, delete_handle h (w2\<lparr>cw_stmts := (cw_stmts w2)(the stmt := None)\<rparr>))))))
      (\<lambda>code. c_ok R S) w"
  proof (rule after_stmt_alloc [OF assms])
    fix a h x assume a: "stmt = Some a" "cw_stmts w a = Some h" and h: "cw_handles w h = Some (ObjStmt x)"
    have closed: "c_ok R S (delete_handle h
        ((cancel_context (cst_cancel x) (w\<lparr>cw_go := W, cw_mem := m\<rparr>))\<lparr>cw_stmts := (cw_stmts w)(a := None)\<rparr>))"
      if "wd_conns W = wd_conns (cw_go w)" "rt_streams (wd_run W) = rt_streams (wd_run (cw_go w))"
        "\<And>i. rt_refs (wd_run W) i = rt_refs (wd_run (cw_go w)) i - obj_refs (ObjStmt x) i" for W m
      by (rule c_ok_delete [OF assms, where s = "StmtStruct a", OF _ h])
        (use that obj_ok_conns [OF that(1)] in
          \<open>auto simp: a delete_handle_def cancel_context_def Let_def split: option.split\<close>)
    show "wp (\<lambda>w. case (case cst_stmt x of
            None \<Rightarrow> (Done StatusOK, w)
          | Some st \<Rightarrow> (case statement_close st (cw_go w) of
              (st', W) \<Rightarrow> c_status E err None (put_go W w))) of
          (res, w1) \<Rightarrow>
            (let w2 = cancel_context (cst_cancel x) w1 in
             (res, delete_handle h (w2\<lparr>cw_stmts := (cw_stmts w2)(the stmt := None)\<rparr>))))
        (\<lambda>code. c_ok R S) w"
    proof (cases "cst_stmt x")
      case None
      have "c_ok R S (delete_handle h
          ((cancel_context (cst_cancel x) w)\<lparr>cw_stmts := (cw_stmts w)(a := None)\<rparr>))"
        using closed [of "cw_go w" "cw_mem w"] None by simp
      then show ?thesis using None a
        by (simp add: wp_def Let_def cancel_context_def split: option.splits)
    next
      case (Some st)
      obtain st' W where c: "statement_close st (cw_go w) = (st', W)" by fastforce
      have "wd_conns W = wd_conns (cw_go w)" "rt_streams (wd_run W) = rt_streams (wd_run (cw_go w))"
        using c by (auto simp: statement_close_def release_params_def release_rec_def add_ref_def split: option.splits)
      then have "c_ok R S (delete_handle h
        ((cancel_context (cst_cancel x) (w\<lparr>cw_go := W, cw_mem := m\<rparr>))\<lparr>cw_stmts := (cw_stmts w)(a := None)\<rparr>))"
        for m
        using statement_close_refs(1) [OF c] Some by (intro closed) simp_all
      from this [of "cw_mem w"] show ?thesis using Some a c
        by (cases "cst_cancel x")
          (simp_all add: wp_def Let_def c_status_eq err_to_adbc_err_def put_go_def cancel_context_def)
    qed
  qed (simp add: assms)
  then show "wp (\<lambda>w. if cw_poison w then
      c_fail E err ''AdbcStatementRelease: Go panicked, driver is in unknown state'' StatusInternal w
    else when_ok (check_stmt_alloc E stmt err ''AdbcStatementRelease'') (\<lambda>h.
      c_bind (get_stmt h) (\<lambda>cs w.
        case (case cst_stmt cs of
            None \<Rightarrow> (Done StatusOK, w)
          | Some st \<Rightarrow> (case statement_close st (cw_go w) of
              (st', W) \<Rightarrow> c_status E err None (put_go W w))) of
          (res, w1) \<Rightarrow>
            (let w2 = cancel_context (cst_cancel cs) w1 in
             (res, delete_handle h (w2\<lparr>cw_stmts := (cw_stmts w2)(the stmt := None)\<rparr>))))) w)
      (\<lambda>code. c_ok R S) w"
    using not_poisoned [OF assms] by (simp add: wp_def)
qed

section \<open>Execution\<close>

lemma spark_statement_prepare_ok:
  assumes "c_ok R S w"
  shows "c_ok R S (snd (spark_statement_prepare E stmt err w))"
  unfolding spark_statement_prepare_def
proof (intro guarded_ok after_stmt_init [OF assms])
  fix a h x st assume h: "cw_handles w h = Some (ObjStmt x)" and st: "cst_stmt x = Some st"
  obtain cs w1 where c: "stmt_new_context h x w = (cs, w1)" by fastforce
  note fr = stmt_new_context_frame [OF c]
  have ok: "c_ok R S w1" using c_ok_stmt_context(1) [OF assms h] fr(4) by simp
  obtain e st' where p: "prepare st = (e, st')" by fastforce
  have "c_ok R S (put_statement h cs st' w1)"
    by (rule c_ok_put_statement [OF ok fr(2) fr(3) [unfolded st]])
      (use p stmt_params_ok [OF assms h st] in
        \<open>auto simp: prepare_def params_ok_def stmt_holds_def split: if_splits\<close>)
  then show "wp (case (h, x, st) of (h, cs, st) \<Rightarrow> (\<lambda>w.
      case stmt_new_context h cs w of (cs1, w1) \<Rightarrow>
        (case prepare st of (e, st') \<Rightarrow> c_status E err e (put_statement h cs1 st' w1)))) (\<lambda>code. c_ok R S) w"
    using c p by (simp add: wp_def c_status_eq)
qed (simp add: assms)

lemma spark_statement_set_sql_query_ok:
  assumes "c_ok R S w"
  shows "c_ok R S (snd (spark_statement_set_sql_query E stmt query err w))"
  unfolding spark_statement_set_sql_query_def
proof (intro guarded_ok after_stmt_init [OF assms])
  fix a h x st assume h: "cw_handles w h = Some (ObjStmt x)" and st: "cst_stmt x = Some st"
  have "c_ok R S (put_statement h x (st\<lparr>st_query := go_string query\<rparr>) w)"
    by (rule c_ok_put_statement [OF assms h st])
      (use stmt_params_ok [OF assms h st] in \<open>auto simp: params_ok_def stmt_holds_def\<close>)
  then show "wp (case (h, x, st) of (h, cs, st) \<Rightarrow> (\<lambda>w.
      case set_sql_query (go_string query) st of
        (e, st') \<Rightarrow> c_status E err e (put_statement h cs st' w))) (\<lambda>code. c_ok R S) w"
    by (simp add: wp_def c_status_eq set_sql_query_def)
qed (simp add: assms)

lemma put_affected_ok [simp]: "c_ok R S (put_affected affected n w) = c_ok R S w"
  by (simp add: put_affected_def split: option.split)

lemma put_affected_frame [simp]:
  "cw_streams (put_affected affected n w) = cw_streams w"
  by (simp add: put_affected_def split: option.split)

lemma spark_statement_execute_query_ok:
  assumes "c_ok R S w" "out = None \<or> free_stream w out"
  shows "c_ok R S (snd (spark_statement_execute_query E stmt out affected err w))"
  unfolding spark_statement_execute_query_def
proof (intro guarded_ok after_stmt_init [OF assms(1)])
  fix a h x st assume h: "cw_handles w h = Some (ObjStmt x)" and st: "cst_stmt x = Some st"
  obtain cs w1 where c: "stmt_new_context h x w = (cs, w1)" by fastforce
  note fr = stmt_new_context_frame [OF c]
  have streams: "cw_streams w1 = cw_streams w"
    using c by (auto simp: stmt_new_context_def new_context_def cancel_context_def set_handle_def Let_def
        split: option.split)
  have ok: "c_ok R S w1" using c_ok_stmt_context(1) [OF assms(1) h] fr(4) by simp
  have params: "params_ok st" by (rule stmt_params_ok [OF assms(1) h st])
  have "wp (\<lambda>w1. if out = None then
          (case execute_update (cl_libs E) [] st (cw_go w1) of
             None \<Rightarrow> (Panicked DriverPanic, w1)
           | Some (Some e, n, W) \<Rightarrow> c_status E err (Some e) (put_go W w1)
           | Some (None, n, W) \<Rightarrow> (Done StatusOK, put_affected affected n (put_go W w1)))
        else
          (case execute_query (cl_libs E) [] st (cw_go w1) of
             None \<Rightarrow> (Panicked DriverPanic, w1)
           | Some (Inl e, n, W) \<Rightarrow> c_status E err (Some e) (put_go W w1)
           | Some (Inr r, n, W) \<Rightarrow>
               export_and_release (ResultReader r) out (put_affected affected n (put_go W w1))))
        (\<lambda>code. c_ok R S) w1"
  proof (cases "out = None")
    case True
    obtain e n W where u: "execute_update (cl_libs E) [] st (cw_go w1) = Some (e, n, W)" "run_same (cw_go w1) W"
      using execute_update_cases [OF params] by blast
    with True c_ok_run_same [OF ok u(2)] show ?thesis
      by (cases e) (simp_all add: wp_def c_status_eq)
  next
    case False
    then obtain b where b: "out = Some b" by blast
    obtain res n W where q: "execute_query (cl_libs E) [] st (cw_go w1) = Some (res, n, W)"
      using execute_query_total [OF params] by blast
    note left = execute_query_cases [OF q]
    show ?thesis
    proof (cases res)
      case (Inl e)
      then have "c_ok R S (put_go W w1)" using left by (intro c_ok_run_same [OF ok]) simp
      then show ?thesis using b q Inl by (simp add: wp_def c_status_eq)
    next
      case (Inr r)
      have refs: "rt_refs (wd_run W) i = rt_refs (wd_run (cw_go w1)) i + reader_refs (ResultReader r) i" for i
      proof -
        have "others (r, wd_run W) i = rt_refs (wd_run (cw_go w1)) i" using left Inr by simp
        then show ?thesis by (simp add: others_def reader_refs_def)
      qed
      have "c_ok (\<lambda>i. R i + reader_refs (ResultReader r) i) (S + reader_streams (ResultReader r)) (put_go W w1)"
        using left Inr by (intro c_ok_put_go [OF ok]) (simp_all add: refs reader_streams_def)
      then have "wp (export_and_release (ResultReader r) out) (\<lambda>code. c_ok R S)
          (put_affected affected n (put_go W w1))"
        using left Inr False assms(2) streams
        by (intro export_and_release_ok [where R' = "\<lambda>i. R i + reader_refs (ResultReader r) i"
              and S' = "S + reader_streams (ResultReader r)"])
          (auto intro: free_stream_frame simp: put_go_def)
      then show ?thesis using b q Inr by (simp add: wp_def)
    qed
  qed
  then show "wp (case (h, x, st) of (h, cs, st) \<Rightarrow> (\<lambda>w.
      case stmt_new_context h cs w of (cs1, w1) \<Rightarrow>
        if out = None then
          (case execute_update (cl_libs E) [] st (cw_go w1) of
             None \<Rightarrow> (Panicked DriverPanic, w1)
           | Some (Some e, n, W) \<Rightarrow> c_status E err (Some e) (put_go W w1)
           | Some (None, n, W) \<Rightarrow> (Done StatusOK, put_affected affected n (put_go W w1)))
        else
          (case execute_query (cl_libs E) [] st (cw_go w1) of
             None \<Rightarrow> (Panicked DriverPanic, w1)
           | Some (Inl e, n, W) \<Rightarrow> c_status E err (Some e) (put_go W w1)
           | Some (Inr r, n, W) \<Rightarrow>
               export_and_release (ResultReader r) out (put_affected affected n (put_go W w1)))))
      (\<lambda>code. c_ok R S) w"
    using c by (simp add: wp_def)
qed (simp add: assms(1))

section \<open>Binding\<close>

text \<open>What Arrow's import gives is a valid batch, and it does not panic.\<close>

definition imports_ok :: "'srv c_libs \<Rightarrow> bool" where
  "imports_ok E \<longleftrightarrow> (\<forall>a s. case cl_import E a s of
     Imported rec \<Rightarrow> valid_batch rec | ImportError e \<Rightarrow> True | ImportPanic \<Rightarrow> False) \<and>
   (\<forall>s. cl_import_stream E s \<noteq> StreamImportPanic)"

lemma take_array_ok [simp]: "c_ok R S (take_array p w) = c_ok R S w"
  by (simp add: take_array_def split: option.split)

lemma take_array_frame [simp]:
  "cw_handles (take_array p w) = cw_handles w" "cw_go (take_array p w) = cw_go w"
  by (simp_all add: take_array_def split: option.split)

lemma put_statement_frame [simp]: "cw_go (put_statement h cs st w) = cw_go w"
  by (simp add: put_statement_def set_handle_def)

lemma spark_statement_bind_ok:
  assumes "c_ok R S w" "imports_ok E"
  shows "c_ok R S (snd (spark_statement_bind E stmt values schema err w))"
  unfolding spark_statement_bind_def
proof (intro guarded_ok after_stmt_init [OF assms(1)])
  fix a h x st assume h: "cw_handles w h = Some (ObjStmt x)" and st: "cst_stmt x = Some st"
  have imp: "case cl_import E (at_address cw_arrays values w) (at_address cw_schemas schema w) of
     Imported rec \<Rightarrow> valid_batch rec | ImportError e \<Rightarrow> True | ImportPanic \<Rightarrow> False"
    using assms(2) by (simp add: imports_ok_def)
  have bound: "wp (\<lambda>w. case import_record rec (cw_go w) of (b, W) \<Rightarrow>
            (case stmt_new_context h x (take_array values (put_go W w)) of (cs1, w1) \<Rightarrow>
              (case bind_params (Some b) st (cw_go w1) of (e, st', W') \<Rightarrow>
                (case c_status E err e (put_statement h cs1 st' (put_go W' w1)) of (res, w2) \<Rightarrow>
                  (res, put_run (release_rec b (wd_run (cw_go w2))) w2)))))
        (\<lambda>code. c_ok R S) w" if valid: "valid_batch rec" for rec
  proof -
    obtain b W where i: "import_record rec (cw_go w) = (b, W)" by fastforce
    define R1 where "R1 j = R j + (if j = fst b then 1 else 0)" for j
    have b: "snd b = rec" and W: "wd_conns W = wd_conns (cw_go w)" "rt_streams (wd_run W) = rt_streams (wd_run (cw_go w))"
      "rt_refs (wd_run W) j - R1 j = rt_refs (wd_run (cw_go w)) j - R j" for j
      using i by (auto simp: import_record_def retain_rec_def refs_add_ref R1_def Let_def)
    have ok0: "c_ok R1 S (take_array values (put_go W w))"
      using W by (simp add: c_ok_put_go [OF assms(1)])
    obtain cs w1 where c: "stmt_new_context h x (take_array values (put_go W w)) = (cs, w1)" by fastforce
    note fr = stmt_new_context_frame [OF c]
    have ok1: "c_ok R1 S w1" using c_ok_stmt_context(1) [OF ok0, of h x] h fr(4) by simp
    obtain e st' W' where p: "bind_params (Some b) st (cw_go w1) = (e, st', W')" by (metis prod_cases3)
    have W': "wd_conns W' = wd_conns (cw_go w1)" "rt_streams (wd_run W') = rt_streams (wd_run (cw_go w1))"
      "st_cnxn st' = st_cnxn st"
      using p by (auto simp: bind_params_def Let_def release_params_def retain_rec_def release_rec_def
          add_ref_def split: if_splits option.splits)
    define R2 where "R2 j = R1 j + stmt_holds st' j - stmt_holds st j" for j
    have ok2: "c_ok R2 S (put_go W' w1)"
      using W' bind_params_refs [OF p] by (intro c_ok_put_go [OF ok1]) (simp_all add: R2_def algebra_simps)
    have "params_ok st'"
      using bind_params_ok [OF p stmt_params_ok [OF assms(1) h st]] b valid by simp
    then have ok3: "c_ok R1 S (put_statement h cs st' (put_go W' w1))"
      using fr(2,3) st W'(3) by (intro c_ok_put_statement [OF ok2]) (simp_all add: R2_def)
    have "c_ok R S (put_run (release_rec b (wd_run W')) (put_statement h cs st' (put_go W' w1)))"
      using W' unfolding put_run_go
      by (intro c_ok_put_go [OF ok3]) (simp_all add: release_rec_def refs_add_ref add_ref_def R1_def)
    then have "c_ok R S (put_run (release_rec b (wd_run W'))
        ((put_statement h cs st' (put_go W' w1))\<lparr>cw_mem := m\<rparr>))" for m
      by (simp add: put_run_def c_ok_def)
    then show ?thesis using i c p by (simp add: wp_def c_status_eq)
  qed
  show "wp (case (h, x, st) of (h, cs, st) \<Rightarrow> (\<lambda>w.
      case cl_import E (at_address cw_arrays values w) (at_address cw_schemas schema w) of
        ImportPanic \<Rightarrow> (Panicked NilPointer, w)
      | ImportError e \<Rightarrow> c_status E err (Some (Plain (Text e))) (take_array values w)
      | Imported rec \<Rightarrow>
          (case import_record rec (cw_go w) of (b, W) \<Rightarrow>
            (case stmt_new_context h cs (take_array values (put_go W w)) of (cs1, w1) \<Rightarrow>
              (case bind_params (Some b) st (cw_go w1) of (e, st', W') \<Rightarrow>
                (case c_status E err e (put_statement h cs1 st' (put_go W' w1)) of (res, w2) \<Rightarrow>
                  (res, put_run (release_rec b (wd_run (cw_go w2))) w2))))))) (\<lambda>code. c_ok R S) w"
    using imp bound assms(1) by (auto simp: wp_def c_status_eq split: import_result.splits)
qed (simp add: assms(1))

text \<open>The stream to bind is not one of the driver's own.\<close>

lemma spark_statement_bind_stream_ok:
  assumes "c_ok R S w" "imports_ok E" "stream = None \<or> free_stream w stream"
  shows "c_ok R S (snd (spark_statement_bind_stream E stmt stream err w))"
  unfolding spark_statement_bind_stream_def
proof (intro guarded_ok after_stmt_init [OF assms(1)])
  fix a h x st assume h: "cw_handles w h = Some (ObjStmt x)" and st: "cst_stmt x = Some st"
  have ok: "c_ok R S (take_stream stream w)"
    by (rule c_ok_frame [OF assms(1)])
      (use assms(3) in \<open>auto simp: take_stream_def free_stream_def split: option.split\<close>)
  have "cw_handles (take_stream stream w) h = Some (ObjStmt x)"
    using h by (simp add: take_stream_def split: option.split)
  note ctx = c_ok_stmt_context(1) [OF ok this]
  have "cl_import_stream E (at_address cw_streams stream w) \<noteq> StreamImportPanic"
    using assms(2) by (simp add: imports_ok_def)
  then show "wp (case (h, x, st) of (h, cs, st) \<Rightarrow> (\<lambda>w.
      case cl_import_stream E (at_address cw_streams stream w) of
        StreamImportPanic \<Rightarrow> (Panicked NilPointer, w)
      | StreamImportError e \<Rightarrow> c_status E err (Some (Plain (Text e))) (take_stream stream w)
      | StreamImported \<Rightarrow>
          (case stmt_new_context h cs (take_stream stream w) of (cs1, w1) \<Rightarrow>
            c_status E err bind_stream w1))) (\<lambda>code. c_ok R S) w"
    using ok ctx by (auto simp: wp_def c_status_eq split: stream_import.splits prod.split)
qed (simp add: assms(1))

end
