(* ===== verification/C_Stream_Calls.thy ===== *)
theory C_Stream_Calls
  imports C_Calls
begin

text \<open>
  The callbacks of an exported stream, called at any time and any number of times, keep the invariant
  and never panic (there is no \<^verbatim>\<open>recover\<close> around them); the last one gives back what the reader holds.
\<close>

section \<open>The stream behind a structure\<close>

lemma our_stream_cases:
  assumes "c_ok R S w" "our_stream stream w = Some h"
  shows "\<exists>a s. stream = Some a \<and> private_of w (StreamStruct a) = Some h \<and> cw_handles w h = Some (ObjStream s) \<and>
    get_stream h w = (Done s, w)"
proof -
  obtain a where a: "stream = Some a" "private_of w (StreamStruct a) = Some h"
    using assms(2) by (auto simp: our_stream_def split: option.splits if_splits)
  then obtain obj where obj: "cw_handles w h = Some obj" "kind_ok (StreamStruct a) obj"
    using assms(1) unfolding c_ok_def ptrs_ok_def by metis
  then obtain s where "obj = ObjStream s" by (cases obj) simp_all
  with a obj show ?thesis by (simp add: get_stream_def)
qed

text \<open>A body that starts with the test of the callbacks.\<close>

lemma callback_ok:
  fixes w :: "'srv c_world" and Q :: "'a \<Rightarrow> 'srv c_world \<Rightarrow> bool"
  assumes ok: "c_ok R S w" and none: "Q x w"
    and body: "\<And>a h s. stream = Some a \<Longrightarrow> private_of w (StreamStruct a) = Some h \<Longrightarrow>
      cw_handles w h = Some (ObjStream s) \<Longrightarrow> wp (f h s) Q w"
  shows "wp (\<lambda>w. case our_stream stream w of
      None \<Rightarrow> (Done x, w) | Some h \<Rightarrow> c_bind (get_stream h) (f h) w) Q w"
proof (cases "our_stream stream w")
  case (Some h)
  then obtain a s where "stream = Some a" "private_of w (StreamStruct a) = Some h"
    "cw_handles w h = Some (ObjStream s)" "get_stream h w = (Done s, w)"
    using our_stream_cases [OF ok] by blast
  with body [of a h s] Some show ?thesis by (simp add: wp_def c_bind_def)
qed (simp add: wp_def none)

lemma c_ok_set_stream:
  assumes "c_ok R S w" "cw_handles w h = Some (ObjStream s)" "cas_rdr s' = cas_rdr s"
  shows "c_ok R S (set_handle h (ObjStream s') w)"
  by (rule c_ok_set_handle [OF assms(1,2)])
    (use assms(3) obj_ok_at [OF assms(1,2)] in \<open>auto intro: kind_stream\<close>)

lemma stream_maybe_error_ok:
  assumes "c_ok R S w" "cw_handles w h = Some (ObjStream s)"
  shows "wp (stream_maybe_error E h s) (\<lambda>no. c_ok R S) w"
proof -
  obtain no s' m where m: "maybe_error E s (cw_mem w) = (no, s', m)" by (metis prod_cases3)
  then have "cas_rdr s' = cas_rdr s"
    by (auto simp: maybe_error_def Let_def split: option.splits prod.splits)
  then have "c_ok R S (set_handle h (ObjStream s') (w\<lparr>cw_mem := m\<rparr>))"
    using assms by (intro c_ok_set_stream [where s = s]) simp_all
  then show ?thesis using m by (simp add: wp_def stream_maybe_error_def)
qed

section \<open>Reading\<close>

lemma spark_array_stream_get_last_error_ok:
  assumes "c_ok R S w"
  shows "wp (spark_array_stream_get_last_error stream) (\<lambda>msg w'. w' = w) w"
  unfolding spark_array_stream_get_last_error_def by (rule callback_ok [OF assms]) simp_all

lemma spark_error_from_array_stream_ok:
  assumes "c_ok R S w"
  shows "wp (spark_error_from_array_stream stream) (\<lambda>x w'. w' = w) w"
  unfolding spark_error_from_array_stream_def by (rule callback_ok [OF assms]) simp_all

lemma spark_array_stream_get_schema_ok:
  assumes "c_ok R S w" "schema \<noteq> None"
  shows "wp (spark_array_stream_get_schema E stream schema) (\<lambda>no. c_ok R S) w"
  unfolding spark_array_stream_get_schema_def
proof (rule callback_ok [OF assms(1)])
  fix a h s assume "cw_handles w h = Some (ObjStream s)"
  from stream_maybe_error_ok [OF assms(1) this, of E] assms
  show "wp (\<lambda>w. case rdr_schema (cas_rdr s) of
          None \<Rightarrow> stream_maybe_error E h s w
        | Some sc \<Rightarrow> (case schema of
              None \<Rightarrow> (Panicked NilPointer, w)
            | Some a \<Rightarrow> (Done ENone, w\<lparr>cw_schemas := (cw_schemas w)(a \<mapsto> sc)\<rparr>))) (\<lambda>no. c_ok R S) w"
    by (auto simp: wp_def split: option.split)
qed (rule assms)

text \<open>One step of the reader under the stream.\<close>

lemma rdr_next_ok:
  assumes ok: "c_ok R S w" and h: "cw_handles w h = Some (ObjStream s)"
    and n: "rdr_next E (cas_rdr s) w = (ok', rd, w1)"
  shows "c_ok R S (set_handle h (ObjStream (s\<lparr>cas_rdr := rd\<rparr>)) w1)"
    and "ok' \<Longrightarrow> rdr_batch rd w1 \<noteq> None"
proof -
  have obj: "obj_ok (cw_go w) (ObjStream s)" by (rule obj_ok_at [OF ok h])
  have "c_ok R S (set_handle h (ObjStream (s\<lparr>cas_rdr := rd\<rparr>)) w1) \<and> (ok' \<longrightarrow> rdr_batch rd w1 \<noteq> None)"
  proof (cases "cas_rdr s")
    case (ResultReader r)
    obtain r' run where x: "reader_next (cl_libs E) (r, wd_run (cw_go w)) = (ok', r', run)"
        "rd = ResultReader r'" "w1 = put_run run w"
      using n ResultReader by (auto simp: rdr_next_def split: prod.splits)
    have nx: "next_ok (cl_libs E) (r, wd_run (cw_go w)) ok' (r', run)" by (rule reader_next_ok [OF x(1)])
    have oth: "rt_refs run i - reader_refs (ResultReader r') i =
        rt_refs (wd_run (cw_go w)) i - reader_refs (ResultReader r) i" for i
    proof -
      have "others (r', run) i = others (r, wd_run (cw_go w)) i" using nx by (simp add: next_ok_def)
      then show ?thesis by (simp add: others_def reader_refs_def)
    qed
    have streams: "rt_streams run = rt_streams (wd_run (cw_go w))" using nx by (simp add: next_ok_def)
    define R1 where "R1 i = R i + reader_refs rd i - reader_refs (cas_rdr s) i" for i
    have "c_ok R1 S w1"
      unfolding x(3) put_run_go
      by (intro c_ok_put_go [OF ok]) (use oth streams in \<open>simp_all add: R1_def x(2) ResultReader algebra_simps\<close>)
    then have "c_ok R S (set_handle h (ObjStream (s\<lparr>cas_rdr := rd\<rparr>)) w1)"
      by (rule c_ok_set_handle [where y = "ObjStream s"])
        (use h obj nx x ResultReader in \<open>auto simp: put_run_def next_ok_def R1_def reader_streams_def intro: kind_stream\<close>)
    moreover have "ok' \<longrightarrow> rdr_batch rd w1 \<noteq> None"
      using nx x by (auto simp: rdr_batch_def cur_batch_def next_ok_def)
    ultimately show ?thesis by blast
  next
    case (TableReader t pos k)
    then obtain pos' where x: "rd = TableReader t pos' k" "w1 = w"
      using n by (auto simp: rdr_next_def split: prod.splits)
    have "c_ok R S (set_handle h (ObjStream (s\<lparr>cas_rdr := rd\<rparr>)) w)"
      by (rule c_ok_set_handle [OF ok h])
        (use x TableReader in \<open>auto simp: reader_refs_def reader_streams_def intro: kind_stream\<close>)
    with x show ?thesis by (simp add: rdr_batch_def)
  qed
  then show "c_ok R S (set_handle h (ObjStream (s\<lparr>cas_rdr := rd\<rparr>)) w1)"
    and "ok' \<Longrightarrow> rdr_batch rd w1 \<noteq> None" by auto
qed

lemma spark_array_stream_get_next_ok:
  assumes "c_ok R S w" "array \<noteq> None"
  shows "wp (spark_array_stream_get_next E stream array) (\<lambda>no. c_ok R S) w"
  unfolding spark_array_stream_get_next_def
proof (rule callback_ok [OF assms(1)])
  fix b h s assume h: "cw_handles w h = Some (ObjStream s)"
  obtain a where a: "array = Some a" using assms(2) by blast
  obtain ok' rd w1 where n: "rdr_next E (cas_rdr s) w = (ok', rd, w1)" by (metis prod_cases3)
  note ok = rdr_next_ok [OF assms(1) h n]
  let ?s = "s\<lparr>cas_rdr := rd\<rparr>"
  let ?w = "set_handle h (ObjStream ?s) w1"
  have batch: "rdr_batch rd ?w = rdr_batch rd w1"
    by (simp add: rdr_batch_def set_handle_def split: c_reader.split)
  have "wp (stream_maybe_error E h ?s) (\<lambda>no. c_ok R S) (?w\<lparr>cw_arrays := (cw_arrays ?w)(a := None)\<rparr>)"
    using ok(1) by (intro stream_maybe_error_ok) (simp_all add: set_handle_def)
  then show "wp (\<lambda>w. case rdr_next E (cas_rdr s) w of (ok, rd, w1) \<Rightarrow>
         (let s1 = s\<lparr>cas_rdr := rd\<rparr>; w2 = set_handle h (ObjStream s1) w1 in
          case array of
            None \<Rightarrow> (Panicked NilPointer, w2)
          | Some a \<Rightarrow>
              if ok then
                (case rdr_batch rd w2 of
                   None \<Rightarrow> (Panicked NilPointer, w2)
                 | Some x \<Rightarrow> (Done ENone, w2\<lparr>cw_arrays := (cw_arrays w2)(a \<mapsto> x)\<rparr>))
              else stream_maybe_error E h s1 (w2\<lparr>cw_arrays := (cw_arrays w2)(a := None)\<rparr>)))
      (\<lambda>no. c_ok R S) w"
    using n a ok batch by (cases ok') (auto simp: wp_def Let_def)
qed (rule assms)

section \<open>Releasing\<close>

lemma spark_array_stream_release_ok:
  assumes "c_ok R S w"
  shows "wp (spark_array_stream_release E stream) (\<lambda>u. c_ok R S) w"
  unfolding spark_array_stream_release_def
proof (rule callback_ok [OF assms])
  fix a h s assume a: "stream = Some a" "private_of w (StreamStruct a) = Some h"
    and h: "cw_handles w h = Some (ObjStream s)"
  obtain rd w1 where r: "rdr_release (cas_rdr s) w = (rd, w1)" by fastforce
  have "\<exists>W. w1 = put_go W w \<and> wd_conns W = wd_conns (cw_go w) \<and>
      (\<forall>i. rt_refs (wd_run W) i = rt_refs (wd_run (cw_go w)) i - reader_refs (cas_rdr s) i) \<and>
      rt_streams (wd_run W) = rt_streams (wd_run (cw_go w)) - reader_streams (cas_rdr s)"
  proof (cases "cas_rdr s")
    case (ResultReader rr)
    let ?run = "snd (reader_release (rr, wd_run (cw_go w)))"
    have "rd_refs rr = 1" "rd_cancel rr" using ResultReader obj_ok_at [OF assms h] by auto
    then have "rt_refs ?run = others (rr, wd_run (cw_go w))" "rt_streams ?run = rt_streams (wd_run (cw_go w)) - 1"
      using reader_release_last [of "(rr, wd_run (cw_go w))"] by simp_all
    moreover have "w1 = put_run ?run w"
      using r ResultReader by (auto simp: rdr_release_def split: prod.splits)
    ultimately show ?thesis
      using ResultReader \<open>rd_cancel rr\<close>
      by (intro exI [of _ "(cw_go w)\<lparr>wd_run := ?run\<rparr>"])
        (simp add: put_run_go others_def reader_refs_def reader_streams_def)
  next
    case (TableReader t pos n)
    then show ?thesis
      using r by (intro exI [of _ "cw_go w"])
        (simp add: rdr_release_def reader_refs_def reader_streams_def put_go_def)
  qed
  then obtain W where W: "w1 = put_go W w" "wd_conns W = wd_conns (cw_go w)"
      "\<And>i. rt_refs (wd_run W) i = rt_refs (wd_run (cw_go w)) i - reader_refs (cas_rdr s) i"
      "rt_streams (wd_run W) = rt_streams (wd_run (cw_go w)) - reader_streams (cas_rdr s)"
    by blast
  have "c_ok R S (delete_handle h ((with_mem (\<lambda>m. m\<lparr>cm_blocks := cm_blocks m - n\<rparr>) w1)
    \<lparr>cw_streams := (cw_streams w1)(a := (cw_streams w1 a)\<lparr>cs_private := None\<rparr>)\<rparr>))" for n
    by (rule c_ok_delete [OF assms a(2) h])
      (use W(3,4) obj_ok_conns [OF W(2)] in
        \<open>simp_all add: W(1) put_go_def with_mem_def delete_handle_def Let_def\<close>)
  then show "wp (\<lambda>w. case rdr_release (cas_rdr s) w of (rd, w1) \<Rightarrow>
         (let freed = (case cas_err s of None \<Rightarrow> 0 | Some e \<Rightarrow> snd (sparkerr_release E e) + 1);
              w2 = with_mem (\<lambda>m. m\<lparr>cm_blocks := cm_blocks m - freed\<rparr>) w1;
              a = the stream;
              w3 = w2\<lparr>cw_streams := (cw_streams w2)(a := (cw_streams w2 a)\<lparr>cs_private := None\<rparr>)\<rparr>
          in (Done (), delete_handle h w3))) (\<lambda>u. c_ok R S) w"
    using r by (simp add: wp_def Let_def a(1) with_mem_def)
qed (rule assms)

end
