(* ===== verification/C_Helpers.thy ===== *)
theory C_Helpers
  imports C_Stmt_Calls C_Stream_Calls
begin

text \<open>
  The C side of the layer (\<^verbatim>\<open>c/utils.c\<close>): what it does to the caller's structures before it calls the
  exported Go functions. The callbacks of an exported stream are its trampolines. Filling a structure
  with zeros is not a release: what it held is lost to the caller.
\<close>

section \<open>memset\<close>

definition zero_stream :: "nat option \<Rightarrow> 'srv c_world \<Rightarrow> 'srv c_world" where
  "zero_stream p w = (case p of
     None \<Rightarrow> w
   | Some a \<Rightarrow> w\<lparr>cw_streams := (cw_streams w)(a := \<lparr>cs_release = StreamReleased, cs_private = None\<rparr>)\<rparr>)"

definition zero_schema :: "nat option \<Rightarrow> 'srv c_world \<Rightarrow> 'srv c_world" where
  "zero_schema p w = (case p of
     None \<Rightarrow> w
   | Some a \<Rightarrow> w\<lparr>cw_schemas := (cw_schemas w)(a := None)\<rparr>)"

definition zero_partitions :: "nat option \<Rightarrow> 'srv c_world \<Rightarrow> 'srv c_world" where
  "zero_partitions p w = (case p of
     None \<Rightarrow> w
   | Some a \<Rightarrow> w\<lparr>cw_parts := (cw_parts w)(a := \<lparr>cp_data = None, cp_num = 0, cp_parts = []\<rparr>)\<rparr>)"

section \<open>Trampolines\<close>

text \<open>The output is written to without a test: a null pointer ends the process, which is the outcome
  \<open>Panicked\<close> here.\<close>

definition spark_array_stream_get_schema_trampoline ::
  "'srv c_libs \<Rightarrow> nat option \<Rightarrow> nat option \<Rightarrow> ('srv, errno) c_act" where
  "spark_array_stream_get_schema_trampoline E stream out w = (case out of
     None \<Rightarrow> (Panicked NilPointer, w)
   | Some a \<Rightarrow> spark_array_stream_get_schema E stream out (zero_schema out w))"

definition spark_array_stream_get_next_trampoline ::
  "'srv c_libs \<Rightarrow> nat option \<Rightarrow> nat option \<Rightarrow> ('srv, errno) c_act" where
  "spark_array_stream_get_next_trampoline E stream out w = (case out of
     None \<Rightarrow> (Panicked NilPointer, w)
   | Some a \<Rightarrow> spark_array_stream_get_next E stream out (w\<lparr>cw_arrays := (cw_arrays w)(a := None)\<rparr>))"

definition spark_statement_execute_partitions_trampoline ::
  "'srv c_libs \<Rightarrow> nat option \<Rightarrow> nat option \<Rightarrow> nat option \<Rightarrow> nat option \<Rightarrow> nat option \<Rightarrow> 'srv c_world \<Rightarrow>
     status \<times> 'srv c_world" where
  "spark_statement_execute_partitions_trampoline E stmt schema partitions affected err w =
    spark_statement_execute_partitions E stmt schema partitions affected err
      (zero_partitions partitions (zero_schema schema w))"

lemma zero_schema_same [simp]:
  "private_of (zero_schema p w) = private_of w" "cw_handles (zero_schema p w) = cw_handles w"
  "c_ok R S (zero_schema p w) = c_ok R S w"
  by (simp_all add: zero_schema_def split: option.split)

lemma get_schema_trampoline_ok:
  "c_ok R S w \<Longrightarrow> schema \<noteq> None \<Longrightarrow> wp (spark_array_stream_get_schema_trampoline E stream schema) (\<lambda>no. c_ok R S) w"
  using spark_array_stream_get_schema_ok [of R S "zero_schema schema w" schema E stream]
  by (auto simp: wp_def spark_array_stream_get_schema_trampoline_def)

lemma get_next_trampoline_ok:
  "c_ok R S w \<Longrightarrow> array \<noteq> None \<Longrightarrow> wp (spark_array_stream_get_next_trampoline E stream array) (\<lambda>no. c_ok R S) w"
  using spark_array_stream_get_next_ok [of R S "w\<lparr>cw_arrays := (cw_arrays w)(the array := None)\<rparr>" array E stream]
  by (auto simp: wp_def spark_array_stream_get_next_trampoline_def)

end
