(* ===== verification/C_Api.thy ===== *)
theory C_Api
  imports C_Helpers Runs
begin

text \<open>
  The exported functions together: a call is a value, running it is \<open>api_call\<close>, and an application
  is a sequence of calls, of callbacks of the streams it was given and of changes to its own memory.
  In every state such an application reaches, the driver is not poisoned, every pointer leads to an
  object of its type, and what the driver holds is what the handles account for.
\<close>

section \<open>Calls\<close>

text \<open>The option functions that the three kinds of handle share.\<close>

datatype option_op =
    GetString "string option" "nat option" "nat option"
  | GetBytes "string option" "nat option" "nat option"
  | GetDouble "string option" "nat option"
  | GetInt "string option" "nat option"
  | SetBytes "string option" "string option" nat
  | SetDouble "string option" int64
  | SetInt "string option" int64

type_synonym ptr = "nat option"

text \<open>The arguments of a function in its order, but for the error, which every function has.\<close>

datatype c_call =
    DatabaseNew ptr | DatabaseInit ptr | DatabaseRelease ptr
  | DatabaseSetOption ptr "string option" "string option" | DatabaseOption ptr option_op
  | ConnectionNew ptr | ConnectionInit ptr ptr | ConnectionRelease ptr | ConnectionCancel ptr
  | ConnectionSetOption ptr "string option" "string option" | ConnectionOption ptr option_op
  | ConnectionGetInfo ptr "int32 list option" nat ptr
  | ConnectionGetObjects ptr int "string option" "string option" "string option"
      "string list option" "string option" ptr
  | ConnectionGetStatistics ptr | ConnectionGetStatisticNames ptr
  | ConnectionGetTableSchema ptr "string option" "string option" "string option" ptr
  | ConnectionGetTableTypes ptr ptr | ConnectionReadPartition ptr "string option" nat ptr
  | ConnectionCommit ptr | ConnectionRollback ptr
  | StatementNew ptr ptr | StatementRelease ptr | StatementCancel ptr
  | StatementSetOption ptr "string option" "string option" | StatementOption ptr option_op
  | StatementPrepare ptr | StatementExecuteQuery ptr ptr ptr | StatementExecuteSchema ptr ptr
  | StatementSetSqlQuery ptr "string option" | StatementSetSubstraitPlan ptr "string option" nat
  | StatementBind ptr ptr ptr | StatementBindStream ptr ptr | StatementGetParameterSchema ptr ptr
  | StatementExecutePartitions ptr ptr ptr ptr

fun database_option ::
  "'srv c_libs \<Rightarrow> ptr \<Rightarrow> ptr \<Rightarrow> option_op \<Rightarrow> 'srv c_world \<Rightarrow> status \<times> 'srv c_world" where
  "database_option E err db (GetString key v n) = spark_database_get_option E db key v n err"
| "database_option E err db (GetBytes key v n) = spark_database_get_option_bytes E db key v n err"
| "database_option E err db (GetDouble key v) = spark_database_get_option_double E db key v err"
| "database_option E err db (GetInt key v) = spark_database_get_option_int E db key v err"
| "database_option E err db (SetBytes key v n) = spark_database_set_option_bytes E db key v n err"
| "database_option E err db (SetDouble key x) = spark_database_set_option_double E db key x err"
| "database_option E err db (SetInt key x) = spark_database_set_option_int E db key x err"

fun connection_option ::
  "'srv c_libs \<Rightarrow> ptr \<Rightarrow> ptr \<Rightarrow> option_op \<Rightarrow> 'srv c_world \<Rightarrow> status \<times> 'srv c_world" where
  "connection_option E err cn (GetString key v n) = spark_connection_get_option E cn key v n err"
| "connection_option E err cn (GetBytes key v n) = spark_connection_get_option_bytes E cn key v n err"
| "connection_option E err cn (GetDouble key v) = spark_connection_get_option_double E cn key v err"
| "connection_option E err cn (GetInt key v) = spark_connection_get_option_int E cn key v err"
| "connection_option E err cn (SetBytes key v n) = spark_connection_set_option_bytes E cn key v n err"
| "connection_option E err cn (SetDouble key x) = spark_connection_set_option_double E cn key x err"
| "connection_option E err cn (SetInt key x) = spark_connection_set_option_int E cn key x err"

fun statement_option ::
  "'srv c_libs \<Rightarrow> ptr \<Rightarrow> ptr \<Rightarrow> option_op \<Rightarrow> 'srv c_world \<Rightarrow> status \<times> 'srv c_world" where
  "statement_option E err st (GetString key v n) = spark_statement_get_option E st key v n err"
| "statement_option E err st (GetBytes key v n) = spark_statement_get_option_bytes E st key v n err"
| "statement_option E err st (GetDouble key v) = spark_statement_get_option_double E st key v err"
| "statement_option E err st (GetInt key v) = spark_statement_get_option_int E st key v err"
| "statement_option E err st (SetBytes key v n) = spark_statement_set_option_bytes E st key v n err"
| "statement_option E err st (SetDouble key x) = spark_statement_set_option_double E st key x err"
| "statement_option E err st (SetInt key x) = spark_statement_set_option_int E st key x err"

fun api_call :: "'srv c_libs \<Rightarrow> ptr \<Rightarrow> c_call \<Rightarrow> 'srv c_world \<Rightarrow> status \<times> 'srv c_world" where
  "api_call E err (DatabaseNew db) = spark_database_new E db err"
| "api_call E err (DatabaseInit db) = spark_database_init E db err"
| "api_call E err (DatabaseRelease db) = spark_database_release E db err"
| "api_call E err (DatabaseSetOption db key v) = spark_database_set_option E db key v err"
| "api_call E err (DatabaseOption db x) = database_option E err db x"
| "api_call E err (ConnectionNew cn) = spark_connection_new E cn err"
| "api_call E err (ConnectionInit cn db) = spark_connection_init E cn db err"
| "api_call E err (ConnectionRelease cn) = spark_connection_release E cn err"
| "api_call E err (ConnectionCancel cn) = spark_connection_cancel E cn err"
| "api_call E err (ConnectionSetOption cn key v) = spark_connection_set_option E cn key v err"
| "api_call E err (ConnectionOption cn x) = connection_option E err cn x"
| "api_call E err (ConnectionGetInfo cn codes n out) = spark_connection_get_info E cn codes n out err"
| "api_call E err (ConnectionGetObjects cn depth cat sch tbl typ col out) =
     spark_connection_get_objects E cn depth cat sch tbl typ col out err"
| "api_call E err (ConnectionGetStatistics cn) = spark_connection_get_statistics E cn err"
| "api_call E err (ConnectionGetStatisticNames cn) = spark_connection_get_statistic_names E cn err"
| "api_call E err (ConnectionGetTableSchema cn cat sch tbl out) =
     spark_connection_get_table_schema E cn cat sch tbl out err"
| "api_call E err (ConnectionGetTableTypes cn out) = spark_connection_get_table_types E cn out err"
| "api_call E err (ConnectionReadPartition cn p n out) = spark_connection_read_partition E cn p n out err"
| "api_call E err (ConnectionCommit cn) = spark_connection_commit E cn err"
| "api_call E err (ConnectionRollback cn) = spark_connection_rollback E cn err"
| "api_call E err (StatementNew cn st) = spark_statement_new E cn st err"
| "api_call E err (StatementRelease st) = spark_statement_release E st err"
| "api_call E err (StatementCancel st) = spark_statement_cancel E st err"
| "api_call E err (StatementSetOption st key v) = spark_statement_set_option E st key v err"
| "api_call E err (StatementOption st x) = statement_option E err st x"
| "api_call E err (StatementPrepare st) = spark_statement_prepare E st err"
| "api_call E err (StatementExecuteQuery st out n) = spark_statement_execute_query E st out n err"
| "api_call E err (StatementExecuteSchema st sch) = spark_statement_execute_schema E st err"
| "api_call E err (StatementSetSqlQuery st q) = spark_statement_set_sql_query E st q err"
| "api_call E err (StatementSetSubstraitPlan st p n) = spark_statement_set_substrait_plan E st p n err"
| "api_call E err (StatementBind st arr sch) = spark_statement_bind E st arr sch err"
| "api_call E err (StatementBindStream st str) = spark_statement_bind_stream E st str err"
| "api_call E err (StatementGetParameterSchema st sch) = spark_statement_get_parameter_schema E st sch err"
| "api_call E err (StatementExecutePartitions st sch parts n) =
     spark_statement_execute_partitions E st sch parts n err"

section \<open>What the caller and the libraries promise\<close>

text \<open>The structures that New fills exist, a result has a place, and the place of a stream is not
  one of the driver's streams that is still to be released; nor is a stream to bind one.\<close>

fun valid_call :: "'srv c_world \<Rightarrow> c_call \<Rightarrow> bool" where
  "valid_call w (DatabaseNew db) \<longleftrightarrow> db \<noteq> None"
| "valid_call w (ConnectionNew cn) \<longleftrightarrow> cn \<noteq> None"
| "valid_call w (ConnectionGetInfo cn codes n out) \<longleftrightarrow> free_stream w out"
| "valid_call w (ConnectionGetObjects cn depth cat sch tbl typ col out) \<longleftrightarrow> free_stream w out"
| "valid_call w (ConnectionGetTableSchema cn cat sch tbl out) \<longleftrightarrow> out \<noteq> None"
| "valid_call w (ConnectionGetTableTypes cn out) \<longleftrightarrow> free_stream w out"
| "valid_call w (StatementNew cn st) \<longleftrightarrow> st \<noteq> None"
| "valid_call w (StatementExecuteQuery st out n) \<longleftrightarrow> out = None \<or> free_stream w out"
| "valid_call w (StatementBindStream st str) \<longleftrightarrow> str = None \<or> free_stream w str"
| "valid_call w _ \<longleftrightarrow> True"

text \<open>A record has a column per field of its schema, and an import gives a valid record.\<close>

definition libs_ok :: "'srv c_libs \<Rightarrow> bool" where
  "libs_ok E \<longleftrightarrow> lib_fits (cl_libs E) \<and> imports_ok E"

lemma api_call_keeps_c_ok:
  assumes "c_ok R S w" "libs_ok E" "valid_call w c"
  shows "c_ok R S (snd (api_call E err c w))"
proof -
  have db: "c_ok R S (snd (database_option E err p x w))" for p x
    by (cases x) (simp_all add: database_options_ok [OF assms(1)])
  have cn: "c_ok R S (snd (connection_option E err p x w))" for p x
    by (cases x) (simp_all add: connection_options_ok [OF assms(1)])
  have st: "c_ok R S (snd (statement_option E err p x w))" for p x
    by (cases x) (simp_all add: statement_options_ok [OF assms(1)])
  have E: "lib_fits (cl_libs E)" "imports_ok E" using assms(2) by (simp_all add: libs_ok_def)
  show ?thesis
    using assms(3)
    by (cases c) (auto simp: db cn st E statement_options_ok(8) [OF assms(1)]
      spark_database_new_ok [OF assms(1)] spark_database_init_ok [OF assms(1)]
      spark_database_release_ok [OF assms(1)] spark_database_set_option_ok [OF assms(1)]
      spark_connection_new_ok [OF assms(1)] spark_connection_init_ok [OF assms(1)]
      spark_connection_release_ok [OF assms(1)] spark_connection_cancel_ok [OF assms(1)]
      spark_connection_set_option_ok [OF assms(1)] spark_connection_get_info_ok [OF assms(1)]
      spark_connection_get_objects_ok [OF assms(1)] spark_connection_get_statistics_ok [OF assms(1)]
      spark_connection_get_table_schema_ok [OF assms(1)] spark_connection_get_table_types_ok [OF assms(1)]
      spark_connection_refused_ok [OF assms(1)] spark_statement_new_ok [OF assms(1)]
      spark_statement_release_ok [OF assms(1)] spark_statement_simple_ok [OF assms(1)]
      spark_statement_prepare_ok [OF assms(1)] spark_statement_execute_query_ok [OF assms(1)]
      spark_statement_set_sql_query_ok [OF assms(1)] spark_statement_bind_ok [OF assms(1)]
      spark_statement_bind_stream_ok [OF assms(1)])
qed

section \<open>The entry points of utils.c\<close>

text \<open>\<^verbatim>\<open>AdbcXxx\<close> fills the structures of its results with zeros and calls \<^verbatim>\<open>SparkXxx\<close>.\<close>

fun zero_outputs :: "c_call \<Rightarrow> 'srv c_world \<Rightarrow> 'srv c_world" where
  "zero_outputs (ConnectionGetInfo cn codes n out) = zero_stream out"
| "zero_outputs (ConnectionGetObjects cn depth cat sch tbl typ col out) = zero_stream out"
| "zero_outputs (ConnectionGetTableSchema cn cat sch tbl out) = zero_schema out"
| "zero_outputs (ConnectionGetTableTypes cn out) = zero_stream out"
| "zero_outputs (ConnectionReadPartition cn p n out) = zero_stream out"
| "zero_outputs (StatementExecutePartitions st sch parts n) = (\<lambda>w. zero_partitions parts (zero_schema sch w))"
| "zero_outputs (StatementExecuteQuery st out n) = zero_stream out"
| "zero_outputs (StatementExecuteSchema st sch) = zero_schema sch"
| "zero_outputs (StatementGetParameterSchema st sch) = zero_schema sch"
| "zero_outputs _ = (\<lambda>w. w)"

definition adbc_call :: "'srv c_libs \<Rightarrow> ptr \<Rightarrow> c_call \<Rightarrow> 'srv c_world \<Rightarrow> status \<times> 'srv c_world" where
  "adbc_call E err c w = api_call E err c (zero_outputs c w)"

text \<open>A stream that is filled with zeros must not hold a stream that is still to be released.\<close>

fun stream_out :: "c_call \<Rightarrow> ptr" where
  "stream_out (ConnectionGetInfo cn codes n out) = out"
| "stream_out (ConnectionGetObjects cn depth cat sch tbl typ col out) = out"
| "stream_out (ConnectionGetTableTypes cn out) = out"
| "stream_out (ConnectionReadPartition cn p n out) = out"
| "stream_out (StatementExecuteQuery st out n) = out"
| "stream_out _ = None"

definition valid_entry :: "'srv c_world \<Rightarrow> c_call \<Rightarrow> bool" where
  "valid_entry w c \<longleftrightarrow> valid_call w c \<and> (stream_out c = None \<or> free_stream w (stream_out c))"

section \<open>An application\<close>

text \<open>The caller's own memory: errors, arrays, schemas, partitions, buffers and numbers, and every
  stream that is not one of the driver's.\<close>

definition same_driver :: "'srv c_world \<Rightarrow> 'srv c_world \<Rightarrow> bool" where
  "same_driver w w' \<longleftrightarrow> cw_poison w' = cw_poison w \<and> private_of w' = private_of w \<and>
     cw_handles w' = cw_handles w \<and> cw_next_handle w' = cw_next_handle w \<and> cw_go w' = cw_go w \<and>
     cw_live_ctxs w' = cw_live_ctxs w \<and> cw_next_ctx w' = cw_next_ctx w"

lemma valid_call_same: "private_of w' = private_of w \<Longrightarrow> valid_call w' c = valid_call w c"
  by (cases c) (simp_all add: free_stream_def)

lemma zero_stream_driver: "p = None \<or> free_stream w p \<Longrightarrow> same_driver w (zero_stream p w)"
  by (auto simp: same_driver_def zero_stream_def free_stream_def fun_eq_iff split: option.split)

lemma zero_memory_driver:
  "same_driver w w" "same_driver w (zero_schema p w)"
  "same_driver w (zero_partitions q (zero_schema p w))"
  by (simp_all add: same_driver_def zero_schema_def zero_partitions_def split: option.split)

lemma zero_outputs_driver: "valid_entry w c \<Longrightarrow> same_driver w (zero_outputs c w)"
  unfolding valid_entry_def by (cases c) (simp_all add: zero_stream_driver zero_memory_driver)

text \<open>An entry point is a change to the caller's memory and a call.\<close>

lemma adbc_call_split:
  assumes "valid_entry w c"
  shows "same_driver w (zero_outputs c w)" "valid_call (zero_outputs c w) c"
proof -
  show d: "same_driver w (zero_outputs c w)" by (rule zero_outputs_driver [OF assms])
  then have "private_of (zero_outputs c w) = private_of w" by (simp add: same_driver_def)
  from valid_call_same [OF this] assms show "valid_call (zero_outputs c w) c" by (simp add: valid_entry_def)
qed

text \<open>What can be seen of a step: a call with its status, and the release of a stream.\<close>

datatype event = Called c_call status | StreamEnded ptr

inductive app_step :: "'srv c_libs \<Rightarrow> 'srv c_world \<Rightarrow> event list \<Rightarrow> 'srv c_world \<Rightarrow> bool" for E where
  step_call: "valid_call w c \<Longrightarrow> api_call E err c w = (code, w') \<Longrightarrow> app_step E w [Called c code] w'"
| step_entry: "valid_entry w c \<Longrightarrow> adbc_call E err c w = (code, w') \<Longrightarrow> app_step E w [Called c code] w'"
| step_next: "array \<noteq> None \<Longrightarrow> app_step E w [] (snd (spark_array_stream_get_next_trampoline E stream array w))"
| step_schema: "schema \<noteq> None \<Longrightarrow> app_step E w [] (snd (spark_array_stream_get_schema_trampoline E stream schema w))"
| step_release: "app_step E w [StreamEnded stream] (snd (spark_array_stream_release E stream w))"
| step_memory: "same_driver w w' \<Longrightarrow> app_step E w [] w'"

inductive_cases app_call_stepE: "app_step E w [Called c code] w'"

abbreviation app_run :: "'srv c_libs \<Rightarrow> 'srv c_world \<Rightarrow> event list \<Rightarrow> 'srv c_world \<Rightarrow> bool" where
  "app_run E \<equiv> run (app_step E)"

text \<open>The state in which nothing of the driver is in use: after it was loaded, or when everything
  was released.\<close>

definition idle :: "'srv c_world \<Rightarrow> bool" where
  "idle w \<longleftrightarrow> \<not> cw_poison w \<and> (\<forall>x. private_of w x = None) \<and> cw_handles w = Map.empty \<and> cw_live_ctxs w = {}"

lemma idle_c_ok:
  "idle w \<Longrightarrow> c_ok (rt_refs (wd_run (cw_go w))) (rt_streams (wd_run (cw_go w))) w"
  by (simp add: idle_def c_ok_def ptrs_ok_def objs_ok_def unshared_def ctxs_ok_def owned_def
      books_ok_def total_def)

text \<open>When no pointer is left, nothing else is.\<close>

lemma c_ok_nothing_left:
  assumes "c_ok R S w" "\<And>x. private_of w x = None"
  shows "idle w" "rt_refs (wd_run (cw_go w)) = R" "rt_streams (wd_run (cw_go w)) = S"
proof -
  have none: "cw_handles w = Map.empty"
    using assms by (auto simp: c_ok_def ptrs_ok_def)
  with assms show "idle w" "rt_refs (wd_run (cw_go w)) = R" "rt_streams (wd_run (cw_go w)) = S"
    by (auto simp: idle_def c_ok_def ctxs_ok_def owned_def books_ok_def total_def)
qed

lemma same_driver_c_ok: "same_driver w w' \<Longrightarrow> c_ok R S w \<Longrightarrow> c_ok R S w'"
  by (auto simp: same_driver_def intro: c_ok_frame)

lemma wp_snd: "wp m (\<lambda>x. P) w \<Longrightarrow> P (snd (m w))"
  by (auto simp: wp_def split: prod.splits outcome.splits)

lemma app_step_c_ok:
  assumes "app_step E w es w'" "c_ok R S w" "libs_ok E"
  shows "c_ok R S w'"
  using assms(1)
proof (cases rule: app_step.cases)
  case (step_call c err code)
  then show ?thesis using api_call_keeps_c_ok [OF assms(2,3), of c err] by simp
next
  case (step_entry c err code)
  note split = adbc_call_split [OF step_entry(2)]
  have "c_ok R S (zero_outputs c w)" by (rule same_driver_c_ok [OF split(1) assms(2)])
  from api_call_keeps_c_ok [OF this assms(3) split(2), of err] step_entry(3) show ?thesis
    by (simp add: adbc_call_def)
next
  case step_memory
  then show ?thesis using assms(2) same_driver_c_ok by blast
qed (use assms(2,3) in \<open>auto intro: wp_snd get_next_trampoline_ok get_schema_trampoline_ok
    spark_array_stream_release_ok\<close>)

end
