(* ===== verification/C_Lifecycle.thy ===== *)
theory C_Lifecycle
  imports C_Api
begin

text \<open>
  The contract the C layer has with an application, as a state machine that knows nothing but the
  phase of each structure: absent, allocated by New, or ready after Init. It says which calls a
  structure admits, that every other call is refused with \<^verbatim>\<open>ADBC_STATUS_INVALID_STATE\<close>, and how each
  call moves the phases. The exported functions refine it.
\<close>

section \<open>The abstract machine\<close>

datatype phase = Absent | Allocated | Ready

type_synonym phases = "c_struct \<Rightarrow> phase"

text \<open>What a call is for: it makes, opens, releases or uses a structure, or uses one and fills a
  stream.\<close>

datatype role = Makes c_struct phase | Opens c_struct | Releases c_struct | Streams nat | Uses

definition with_ptr :: "ptr \<Rightarrow> (nat \<Rightarrow> role) \<Rightarrow> role" where
  "with_ptr p f = (case p of None \<Rightarrow> Uses | Some a \<Rightarrow> f a)"

fun role_of :: "c_call \<Rightarrow> role" where
  "role_of (DatabaseNew db) = with_ptr db (\<lambda>a. Makes (DbStruct a) Allocated)"
| "role_of (ConnectionNew cn) = with_ptr cn (\<lambda>a. Makes (CnxnStruct a) Allocated)"
| "role_of (StatementNew cn st) = with_ptr st (\<lambda>a. Makes (StmtStruct a) Ready)"
| "role_of (DatabaseInit db) = with_ptr db (\<lambda>a. Opens (DbStruct a))"
| "role_of (ConnectionInit cn db) = with_ptr cn (\<lambda>a. Opens (CnxnStruct a))"
| "role_of (DatabaseRelease db) = with_ptr db (\<lambda>a. Releases (DbStruct a))"
| "role_of (ConnectionRelease cn) = with_ptr cn (\<lambda>a. Releases (CnxnStruct a))"
| "role_of (StatementRelease st) = with_ptr st (\<lambda>a. Releases (StmtStruct a))"
| "role_of (ConnectionGetInfo cn codes n out) = with_ptr out Streams"
| "role_of (ConnectionGetObjects cn depth cat sch tbl typ col out) = with_ptr out Streams"
| "role_of (ConnectionGetTableTypes cn out) = with_ptr out Streams"
| "role_of (StatementExecuteQuery st out n) = with_ptr out Streams"
| "role_of _ = Uses"

definition in_phase :: "phases \<Rightarrow> (nat \<Rightarrow> c_struct) \<Rightarrow> ptr \<Rightarrow> phase list \<Rightarrow> bool" where
  "in_phase P mk p phs = (case p of None \<Rightarrow> False | Some a \<Rightarrow> P (mk a) \<in> set phs)"

fun admits :: "phases \<Rightarrow> c_call \<Rightarrow> bool" where
  "admits P (DatabaseNew db) = in_phase P DbStruct db [Absent]"
| "admits P (DatabaseInit db) = in_phase P DbStruct db [Allocated]"
| "admits P (DatabaseRelease db) = in_phase P DbStruct db [Allocated, Ready]"
| "admits P (DatabaseSetOption db key v) = in_phase P DbStruct db [Allocated, Ready]"
| "admits P (DatabaseOption db x) = in_phase P DbStruct db [Ready]"
| "admits P (ConnectionNew cn) = in_phase P CnxnStruct cn [Absent]"
| "admits P (ConnectionInit cn db) =
     (in_phase P CnxnStruct cn [Allocated] \<and> in_phase P DbStruct db [Ready])"
| "admits P (ConnectionRelease cn) = in_phase P CnxnStruct cn [Allocated, Ready]"
| "admits P (ConnectionSetOption cn key v) = in_phase P CnxnStruct cn [Allocated, Ready]"
| "admits P (ConnectionCancel cn) = in_phase P CnxnStruct cn [Ready]"
| "admits P (ConnectionOption cn x) = in_phase P CnxnStruct cn [Ready]"
| "admits P (ConnectionGetInfo cn codes n out) = in_phase P CnxnStruct cn [Ready]"
| "admits P (ConnectionGetObjects cn depth cat sch tbl typ col out) = in_phase P CnxnStruct cn [Ready]"
| "admits P (ConnectionGetStatistics cn) = in_phase P CnxnStruct cn [Ready]"
| "admits P (ConnectionGetStatisticNames cn) = in_phase P CnxnStruct cn [Ready]"
| "admits P (ConnectionGetTableSchema cn cat sch tbl out) = in_phase P CnxnStruct cn [Ready]"
| "admits P (ConnectionGetTableTypes cn out) = in_phase P CnxnStruct cn [Ready]"
| "admits P (ConnectionReadPartition cn p n out) = in_phase P CnxnStruct cn [Ready]"
| "admits P (ConnectionCommit cn) = in_phase P CnxnStruct cn [Ready]"
| "admits P (ConnectionRollback cn) = in_phase P CnxnStruct cn [Ready]"
| "admits P (StatementNew cn st) =
     (in_phase P StmtStruct st [Absent] \<and> in_phase P CnxnStruct cn [Ready])"
| "admits P (StatementRelease st) = in_phase P StmtStruct st [Allocated, Ready]"
| "admits P (StatementCancel st) = in_phase P StmtStruct st [Ready]"
| "admits P (StatementSetOption st key v) = in_phase P StmtStruct st [Ready]"
| "admits P (StatementOption st x) = in_phase P StmtStruct st [Ready]"
| "admits P (StatementPrepare st) = in_phase P StmtStruct st [Ready]"
| "admits P (StatementExecuteQuery st out n) = in_phase P StmtStruct st [Ready]"
| "admits P (StatementExecuteSchema st sch) = in_phase P StmtStruct st [Ready]"
| "admits P (StatementSetSqlQuery st q) = in_phase P StmtStruct st [Ready]"
| "admits P (StatementSetSubstraitPlan st p n) = in_phase P StmtStruct st [Ready]"
| "admits P (StatementBind st arr sch) = in_phase P StmtStruct st [Ready]"
| "admits P (StatementBindStream st str) = in_phase P StmtStruct st [Ready]"
| "admits P (StatementGetParameterSchema st sch) = in_phase P StmtStruct st [Ready]"
| "admits P (StatementExecutePartitions st sch parts n) = in_phase P StmtStruct st [Ready]"

text \<open>One step. Opening succeeds exactly when the status is OK, with one exception the code has:
  a connection that was given options before it was opened is open although \<^verbatim>\<open>Init\<close> reports that
  options are not implemented. Releasing takes effect whatever the status says.\<close>

inductive lifecycle :: "phases \<Rightarrow> event list \<Rightarrow> phases \<Rightarrow> bool" where
  refused: "\<not> admits P c \<Longrightarrow> lifecycle P [Called c StatusInvalidState] P"
| made: "admits P c \<Longrightarrow> role_of c = Makes x ph \<Longrightarrow> lifecycle P [Called c StatusOK] (P(x := ph))"
| opened: "admits P c \<Longrightarrow> role_of c = Opens x \<Longrightarrow> lifecycle P [Called c StatusOK] (P(x := Ready))"
| not_opened: "admits P c \<Longrightarrow> role_of c = Opens x \<Longrightarrow> code \<noteq> StatusOK \<Longrightarrow> lifecycle P [Called c code] P"
| half_opened: "admits P c \<Longrightarrow> role_of c = Opens (CnxnStruct a) \<Longrightarrow>
    lifecycle P [Called c StatusNotImplemented] (P(CnxnStruct a := Ready))"
| released: "admits P c \<Longrightarrow> role_of c = Releases x \<Longrightarrow> lifecycle P [Called c code] (P(x := Absent))"
| streamed: "admits P c \<Longrightarrow> role_of c = Streams a \<Longrightarrow>
    lifecycle P [Called c StatusOK] (P(StreamStruct a := Ready))"
| not_streamed: "admits P c \<Longrightarrow> role_of c = Streams a \<Longrightarrow> lifecycle P [Called c code] P"
| used: "admits P c \<Longrightarrow> role_of c = Uses \<Longrightarrow> lifecycle P [Called c code] P"
| ended: "lifecycle P [StreamEnded (Some a)] (P(StreamStruct a := Absent))"
| ended_none: "lifecycle P [StreamEnded None] P"

inductive_simps lifecycle_call_iff: "lifecycle P [Called c code] P'"

section \<open>The phases of a state\<close>

fun obj_phase :: "c_object \<Rightarrow> phase" where
  "obj_phase (ObjDatabase d) = (if cdb_db d = None then Allocated else Ready)"
| "obj_phase (ObjConn c) = (if ccn_cnxn c = None then Allocated else Ready)"
| "obj_phase (ObjStmt s) = (if cst_stmt s = None then Allocated else Ready)"
| "obj_phase (ObjStream s) = Ready"

definition phases_of :: "(c_struct \<rightharpoonup> nat) \<Rightarrow> (nat \<rightharpoonup> c_object) \<Rightarrow> phases" where
  "phases_of P H x = (case P x of None \<Rightarrow> Absent
     | Some h \<Rightarrow> (case H h of None \<Rightarrow> Absent | Some obj \<Rightarrow> obj_phase obj))"

abbreviation phases :: "'srv c_world \<Rightarrow> phases" where
  "phases w \<equiv> phases_of (private_of w) (cw_handles w)"

lemma obj_phase_present [simp]: "obj_phase x \<noteq> Absent"
  by (cases x) simp_all

lemma with_mem_same [simp]: "private_of (with_mem f w) = private_of w" "cw_handles (with_mem f w) = cw_handles w"
  by (simp_all add: with_mem_def)

lemma put_go_same [simp]:
  "cw_dbs (put_go W w) = cw_dbs w" "cw_cnxns (put_go W w) = cw_cnxns w"
  "cw_stmts (put_go W w) = cw_stmts w" "cw_streams (put_go W w) = cw_streams w"
  by (simp_all add: put_go_def)

lemma put_run_same [simp]: "private_of (put_run r w) = private_of w" "cw_handles (put_run r w) = cw_handles w"
  by (simp_all add: put_run_go)

lemma put_affected_same [simp]:
  "cw_dbs (put_affected affected n w) = cw_dbs w" "cw_cnxns (put_affected affected n w) = cw_cnxns w"
  "cw_stmts (put_affected affected n w) = cw_stmts w"
  "cw_handles (put_affected affected n w) = cw_handles w"
  by (simp_all add: put_affected_def split: option.split)

lemma take_array_same [simp]:
  "cw_dbs (take_array p w) = cw_dbs w" "cw_cnxns (take_array p w) = cw_cnxns w"
  "cw_stmts (take_array p w) = cw_stmts w" "cw_streams (take_array p w) = cw_streams w"
  by (simp_all add: take_array_def split: option.split)

lemma cancel_same [simp]:
  "private_of (cancel_context c w) = private_of w" "cw_handles (cancel_context c w) = cw_handles w"
  by (simp_all add: cancel_context_def split: option.split)

lemma set_handle_private [simp]: "private_of (set_handle h x w) = private_of w"
  by (simp add: set_handle_def)

lemma private_inj: "c_ok R S w \<Longrightarrow> private_of w x = Some h \<Longrightarrow> private_of w y = Some h \<Longrightarrow> x = y"
  unfolding c_ok_def ptrs_ok_def by blast

lemma private_live: "c_ok R S w \<Longrightarrow> private_of w x = Some h \<Longrightarrow> \<exists>obj. cw_handles w h = Some obj \<and> kind_ok x obj"
  unfolding c_ok_def ptrs_ok_def by blast

text \<open>An object that keeps its phase, and one that changes it.\<close>

lemma phases_keep:
  "cw_handles w h = Some y \<Longrightarrow> obj_phase x = obj_phase y \<Longrightarrow> phases (set_handle h x w) = phases w"
  by (auto simp: phases_of_def set_handle_def fun_eq_iff split: option.split)

lemma phases_set:
  assumes "c_ok R S w" "private_of w s = Some h"
  shows "phases (set_handle h x w) = (phases w)(s := obj_phase x)"
proof
  fix z
  have "z = s \<or> private_of w z \<noteq> Some h" using private_inj [OF assms(1) _ assms(2)] by blast
  then show "phases (set_handle h x w) z = ((phases w)(s := obj_phase x)) z"
    using assms(2) by (auto simp: phases_of_def set_handle_def split: option.split)
qed

lemma phases_new_table:
  assumes "c_ok R S w"
  shows "phases_of ((private_of w)(s \<mapsto> cw_next_handle w)) ((cw_handles w)(cw_next_handle w \<mapsto> x)) =
    (phases w)(s := obj_phase x)"
proof
  fix z
  have "private_of w z \<noteq> Some (cw_next_handle w)"
    using assms unfolding c_ok_def ptrs_ok_def objs_ok_def by (metis less_irrefl)
  then show "phases_of ((private_of w)(s \<mapsto> cw_next_handle w)) ((cw_handles w)(cw_next_handle w \<mapsto> x)) z =
    ((phases w)(s := obj_phase x)) z"
    by (auto simp: phases_of_def split: option.split)
qed

lemma phases_new:
  "c_ok R S w \<Longrightarrow> private_of w' = (private_of w)(s \<mapsto> cw_next_handle w) \<Longrightarrow>
     cw_handles w' = (cw_handles w)(cw_next_handle w \<mapsto> x) \<Longrightarrow> phases w' = (phases w)(s := obj_phase x)"
  by (simp add: phases_new_table)

lemma phases_gone_table:
  assumes "c_ok R S w" "private_of w s = Some h"
  shows "phases_of ((private_of w)(s := None)) ((cw_handles w)(h := None)) = (phases w)(s := Absent)"
proof
  fix z
  have "z = s \<or> private_of w z \<noteq> Some h" using private_inj [OF assms(1) _ assms(2)] by blast
  then show "phases_of ((private_of w)(s := None)) ((cw_handles w)(h := None)) z = ((phases w)(s := Absent)) z"
    by (auto simp: phases_of_def split: option.split)
qed

lemma phases_gone:
  "c_ok R S w \<Longrightarrow> private_of w s = Some h \<Longrightarrow> private_of w' = (private_of w)(s := None) \<Longrightarrow>
     cw_handles w' = (cw_handles w)(h := None) \<Longrightarrow> phases w' = (phases w)(s := Absent)"
  by (simp add: phases_gone_table)

lemma conn_new_context_same [simp]:
  "cw_dbs (conn_new_context h x w) = cw_dbs w" "cw_cnxns (conn_new_context h x w) = cw_cnxns w"
  "cw_stmts (conn_new_context h x w) = cw_stmts w"
  by (simp_all add: conn_new_context_def new_context_def cancel_context_def set_handle_def Let_def split: option.split)

lemma conn_new_context_phases [simp]:
  "cw_handles w h = Some (ObjConn x) \<Longrightarrow>
     phases_of (private_of w) (cw_handles (conn_new_context h x w)) = phases w"
  by (simp add: conn_new_context_def new_context_def Let_def phases_of_def fun_eq_iff set_handle_def cancel_context_def
      split: option.split)

lemma stmt_new_context_phases [simp]:
  "cw_handles w h = Some (ObjStmt x) \<Longrightarrow> phases (snd (stmt_new_context h x w)) = phases w"
  by (simp add: stmt_new_context_def new_context_def Let_def phases_of_def fun_eq_iff set_handle_def cancel_context_def
      split: option.split)

text \<open>What a phase says about the object.\<close>

lemma phase_Absent: "c_ok R S w \<Longrightarrow> phases w s = Absent \<longleftrightarrow> private_of w s = None"
  by (cases "private_of w s") (auto simp: phases_of_def dest: private_live)

lemma phase_at:
  "private_of w s = Some h \<Longrightarrow> cw_handles w h = Some obj \<Longrightarrow> phases w s = obj_phase obj"
  by (simp add: phases_of_def)

lemma phase_Ready:
  assumes "c_ok R S w"
  shows "phases w (DbStruct a) = Ready \<Longrightarrow>
      \<exists>h x. cw_dbs w a = Some h \<and> cw_handles w h = Some (ObjDatabase x) \<and> cdb_db x \<noteq> None"
    and "phases w (CnxnStruct a) = Ready \<Longrightarrow>
      \<exists>h x. cw_cnxns w a = Some h \<and> cw_handles w h = Some (ObjConn x) \<and> ccn_cnxn x \<noteq> None"
    and "phases w (StmtStruct a) = Ready \<Longrightarrow>
      \<exists>h x. cw_stmts w a = Some h \<and> cw_handles w h = Some (ObjStmt x) \<and> cst_stmt x \<noteq> None"
proof -
  have obj: "\<exists>h obj. private_of w s = Some h \<and> cw_handles w h = Some obj \<and> kind_ok s obj \<and> obj_phase obj = Ready"
    if r: "phases w s = Ready" for s
  proof -
    obtain h where h: "private_of w s = Some h" using r by (auto simp: phases_of_def split: option.splits)
    then obtain obj where "cw_handles w h = Some obj" "kind_ok s obj"
      using private_live [OF assms] by blast
    with h r show ?thesis by (auto simp: phases_of_def)
  qed
  show "phases w (DbStruct a) = Ready \<Longrightarrow>
      \<exists>h x. cw_dbs w a = Some h \<and> cw_handles w h = Some (ObjDatabase x) \<and> cdb_db x \<noteq> None"
    using obj [of "DbStruct a"] by (auto elim!: kind_ok.elims split: if_splits)
  show "phases w (CnxnStruct a) = Ready \<Longrightarrow>
      \<exists>h x. cw_cnxns w a = Some h \<and> cw_handles w h = Some (ObjConn x) \<and> ccn_cnxn x \<noteq> None"
    using obj [of "CnxnStruct a"] by (auto elim!: kind_ok.elims split: if_splits)
  show "phases w (StmtStruct a) = Ready \<Longrightarrow>
      \<exists>h x. cw_stmts w a = Some h \<and> cw_handles w h = Some (ObjStmt x) \<and> cst_stmt x \<noteq> None"
    using obj [of "StmtStruct a"] by (auto elim!: kind_ok.elims split: if_splits)
qed

section \<open>Calls on one structure\<close>

definition refines :: "c_call \<Rightarrow> ('srv c_world \<Rightarrow> status \<times> 'srv c_world) \<Rightarrow> 'srv c_world \<Rightarrow> bool" where
  "refines c m w \<longleftrightarrow> lifecycle (phases w) [Called c (fst (m w))] (phases (snd (m w)))"

lemma guarded_refines:
  assumes "wp body (\<lambda>code w'. lifecycle (phases w) [Called c code] (phases w')) w"
  shows "refines c (guarded E err fname body) w"
  using assms by (auto simp: refines_def wp_def guarded_def split: prod.splits outcome.splits)

lemma refused_same:
  "\<not> admits (phases w) c \<Longrightarrow> private_of w' = private_of w \<Longrightarrow> cw_handles w' = cw_handles w \<Longrightarrow>
     lifecycle (phases w) [Called c StatusInvalidState] (phases w')"
  by (simp add: refused)

text \<open>After the check that the structure is ready, a call need only be looked at when it is
  admitted.\<close>

lemma db_ready_refines:
  assumes ok: "c_ok R S w" and adm: "admits (phases w) c \<longleftrightarrow> in_phase (phases w) DbStruct p [Ready]"
    and body: "\<And>a h x d. p = Some a \<Longrightarrow> cw_dbs w a = Some h \<Longrightarrow> cw_handles w h = Some (ObjDatabase x) \<Longrightarrow>
      cdb_db x = Some d \<Longrightarrow> admits (phases w) c \<Longrightarrow>
      wp (f (h, x, d)) (\<lambda>code w'. lifecycle (phases w) [Called c code] (phases w')) w"
  shows "refines c (guarded E err fname (when_ok (check_db_init E p err fname') f)) w"
proof (intro guarded_refines after_db_init [OF ok])
  fix m assume "\<And>a h x. p = Some a \<Longrightarrow> cw_dbs w a = Some h \<Longrightarrow> cw_handles w h = Some (ObjDatabase x) \<Longrightarrow> cdb_db x = None"
  then have "\<not> admits (phases w) c"
    using phase_Ready(1) [OF ok] by (fastforce simp: adm in_phase_def split: option.splits)
  then show "lifecycle (phases w) [Called c StatusInvalidState] (phases (w\<lparr>cw_mem := m\<rparr>))"
    by (simp add: refused)
next
  fix a h x d assume a: "p = Some a" "cw_dbs w a = Some h" "cw_handles w h = Some (ObjDatabase x)" "cdb_db x = Some d"
  then have "admits (phases w) c" by (simp add: adm in_phase_def phases_of_def)
  with body a show "wp (f (h, x, d)) (\<lambda>code w'. lifecycle (phases w) [Called c code] (phases w')) w" by blast
qed

lemma conn_ready_refines:
  assumes ok: "c_ok R S w" and adm: "admits (phases w) c \<longleftrightarrow> in_phase (phases w) CnxnStruct p [Ready]"
    and body: "\<And>a h x k. p = Some a \<Longrightarrow> cw_cnxns w a = Some h \<Longrightarrow> cw_handles w h = Some (ObjConn x) \<Longrightarrow>
      ccn_cnxn x = Some k \<Longrightarrow> admits (phases w) c \<Longrightarrow>
      wp (f (h, x, k)) (\<lambda>code w'. lifecycle (phases w) [Called c code] (phases w')) w"
  shows "refines c (guarded E err fname (when_ok (check_conn_init E p err fname') f)) w"
proof (intro guarded_refines after_conn_init [OF ok])
  fix m assume "\<And>a h x. p = Some a \<Longrightarrow> cw_cnxns w a = Some h \<Longrightarrow> cw_handles w h = Some (ObjConn x) \<Longrightarrow> ccn_cnxn x = None"
  then have "\<not> admits (phases w) c"
    using phase_Ready(2) [OF ok] by (fastforce simp: adm in_phase_def split: option.splits)
  then show "lifecycle (phases w) [Called c StatusInvalidState] (phases (w\<lparr>cw_mem := m\<rparr>))"
    by (simp add: refused)
next
  fix a h x k assume a: "p = Some a" "cw_cnxns w a = Some h" "cw_handles w h = Some (ObjConn x)" "ccn_cnxn x = Some k"
  then have "admits (phases w) c" by (simp add: adm in_phase_def phases_of_def)
  with body a show "wp (f (h, x, k)) (\<lambda>code w'. lifecycle (phases w) [Called c code] (phases w')) w" by blast
qed

lemma stmt_ready_refines:
  assumes ok: "c_ok R S w" and adm: "admits (phases w) c \<longleftrightarrow> in_phase (phases w) StmtStruct p [Ready]"
    and body: "\<And>a h x st. p = Some a \<Longrightarrow> cw_stmts w a = Some h \<Longrightarrow> cw_handles w h = Some (ObjStmt x) \<Longrightarrow>
      cst_stmt x = Some st \<Longrightarrow> admits (phases w) c \<Longrightarrow>
      wp (f (h, x, st)) (\<lambda>code w'. lifecycle (phases w) [Called c code] (phases w')) w"
  shows "refines c (guarded E err fname (when_ok (check_stmt_init E p err fname') f)) w"
proof (intro guarded_refines after_stmt_init [OF ok])
  fix m assume "\<And>a h x. p = Some a \<Longrightarrow> cw_stmts w a = Some h \<Longrightarrow> cw_handles w h = Some (ObjStmt x) \<Longrightarrow> cst_stmt x = None"
  then have "\<not> admits (phases w) c"
    using phase_Ready(3) [OF ok] by (fastforce simp: adm in_phase_def split: option.splits)
  then show "lifecycle (phases w) [Called c StatusInvalidState] (phases (w\<lparr>cw_mem := m\<rparr>))"
    by (simp add: refused)
next
  fix a h x st assume a: "p = Some a" "cw_stmts w a = Some h" "cw_handles w h = Some (ObjStmt x)" "cst_stmt x = Some st"
  then have "admits (phases w) c" by (simp add: adm in_phase_def phases_of_def)
  with body a show "wp (f (h, x, st)) (\<lambda>code w'. lifecycle (phases w) [Called c code] (phases w')) w" by blast
qed

end
