(* ===== verification/C_Refinement.thy ===== *)
theory C_Refinement
  imports C_Lifecycle
begin

text \<open>
  Every exported function and every callback refines the machine of \<open>C_Lifecycle\<close>, one lemma per
  group of functions; the refinement of whole runs follows from the contract \<open>refinement\<close>.
\<close>

section \<open>Uses\<close>

lemma used_same:
  "role_of c = Uses \<Longrightarrow> admits (phases w) c \<Longrightarrow> phases w' = phases w \<Longrightarrow>
     lifecycle (phases w) [Called c code] (phases w')"
  by (simp add: used)

lemmas database_option_defs = spark_database_get_option_def spark_database_get_option_bytes_def
  spark_database_get_option_double_def spark_database_get_option_int_def
  spark_database_set_option_bytes_def spark_database_set_option_double_def spark_database_set_option_int_def

lemmas connection_option_defs = spark_connection_get_option_def spark_connection_get_option_bytes_def
  spark_connection_get_option_double_def spark_connection_get_option_int_def
  spark_connection_set_option_bytes_def spark_connection_set_option_double_def spark_connection_set_option_int_def

lemmas statement_option_defs = spark_statement_get_option_def spark_statement_get_option_bytes_def
  spark_statement_get_option_double_def spark_statement_get_option_int_def
  spark_statement_set_option_bytes_def spark_statement_set_option_double_def spark_statement_set_option_int_def

lemma option_refines:
  assumes "c_ok R S w"
  shows "refines (DatabaseOption db x) (database_option E err db x) w"
    and "refines (ConnectionOption cn x) (connection_option E err cn x) w"
    and "refines (StatementOption st x) (statement_option E err st x) w"
proof -
  show "refines (DatabaseOption db x) (database_option E err db x) w"
    by (cases x; simp add: database_option_defs; rule db_ready_refines [OF assms];
        simp add: option_defs; rule used_same; simp)
  show "refines (ConnectionOption cn x) (connection_option E err cn x) w"
    by (cases x; simp add: connection_option_defs; rule conn_ready_refines [OF assms];
        simp add: option_defs; rule used_same; simp)
  show "refines (StatementOption st x) (statement_option E err st x) w"
    by (cases x; simp add: statement_option_defs; rule stmt_ready_refines [OF assms];
        simp add: option_defs; rule used_same; simp)
qed

text \<open>Functions that end at once.\<close>

lemma refused_functions_refine:
  assumes "c_ok R S w"
  shows "refines (ConnectionGetStatistics cn) (spark_connection_get_statistics E cn err) w"
    and "refines (ConnectionGetStatisticNames cn) (spark_connection_get_statistic_names E cn err) w"
    and "refines (ConnectionCommit cn) (spark_connection_commit E cn err) w"
    and "refines (ConnectionRollback cn) (spark_connection_rollback E cn err) w"
    and "refines (ConnectionReadPartition cn p n out) (spark_connection_read_partition E cn p n out err) w"
    and "refines (StatementExecuteSchema st sch) (spark_statement_execute_schema E st err) w"
    and "refines (StatementSetOption st key v) (spark_statement_set_option E st key v err) w"
    and "refines (StatementSetSubstraitPlan st q n) (spark_statement_set_substrait_plan E st q n err) w"
    and "refines (StatementGetParameterSchema st sch) (spark_statement_get_parameter_schema E st sch err) w"
proof -
  show "refines (ConnectionGetStatistics cn) (spark_connection_get_statistics E cn err) w"
    "refines (ConnectionGetStatisticNames cn) (spark_connection_get_statistic_names E cn err) w"
    "refines (ConnectionCommit cn) (spark_connection_commit E cn err) w"
    "refines (ConnectionRollback cn) (spark_connection_rollback E cn err) w"
    "refines (ConnectionReadPartition cn p n out) (spark_connection_read_partition E cn p n out err) w"
    unfolding spark_connection_get_statistics_def spark_connection_get_statistic_names_def
      spark_connection_commit_def spark_connection_rollback_def spark_connection_read_partition_def
    by (rule conn_ready_refines [OF assms]; simp add: statistics_refused_def wp_def c_fail_def c_status_eq Let_def
        read_partition_def used_same)+
  show "refines (StatementExecuteSchema st sch) (spark_statement_execute_schema E st err) w"
    "refines (StatementSetOption st key v) (spark_statement_set_option E st key v err) w"
    "refines (StatementSetSubstraitPlan st q n) (spark_statement_set_substrait_plan E st q n err) w"
    "refines (StatementGetParameterSchema st sch) (spark_statement_get_parameter_schema E st sch err) w"
    unfolding spark_statement_execute_schema_def spark_statement_set_option_def
      spark_statement_set_substrait_plan_def spark_statement_get_parameter_schema_def
    by (rule stmt_ready_refines [OF assms]; simp add: wp_def c_fail_def c_status_eq get_parameter_schema_def used_same)+
qed

text \<open>Functions that change what is behind the handle, not its phase.\<close>

lemma cancel_refines:
  assumes "c_ok R S w"
  shows "refines (ConnectionCancel cn) (spark_connection_cancel E cn err) w"
    and "refines (StatementCancel st) (spark_statement_cancel E st err) w"
proof -
  show "refines (ConnectionCancel cn) (spark_connection_cancel E cn err) w"
    unfolding spark_connection_cancel_def
  proof (rule conn_ready_refines [OF assms])
    fix a h x k assume h: "cw_handles w h = Some (ObjConn x)" and adm: "admits (phases w) (ConnectionCancel cn)"
    have "phases (set_handle h (ObjConn (x\<lparr>ccn_cancel := None\<rparr>)) (cancel_context (ccn_cancel x) w)) = phases w"
      using h by (subst phases_keep [where y = "ObjConn x"]) simp_all
    with adm show "wp (case (h, x, k) of (h, conn, k) \<Rightarrow> (\<lambda>w. (Done StatusOK,
        set_handle h (ObjConn (conn\<lparr>ccn_cancel := None\<rparr>)) (cancel_context (ccn_cancel conn) w))))
        (\<lambda>code w'. lifecycle (phases w) [Called (ConnectionCancel cn) code] (phases w')) w"
      by (simp add: wp_def used_same)
  qed simp
  show "refines (StatementCancel st) (spark_statement_cancel E st err) w"
    unfolding spark_statement_cancel_def
  proof (rule stmt_ready_refines [OF assms])
    fix a h x k assume h: "cw_handles w h = Some (ObjStmt x)" and adm: "admits (phases w) (StatementCancel st)"
    have "phases (set_handle h (ObjStmt (x\<lparr>cst_cancel := None\<rparr>)) (cancel_context (cst_cancel x) w)) = phases w"
      using h by (subst phases_keep [where y = "ObjStmt x"]) simp_all
    with adm show "wp (case (h, x, k) of (h, cs, k) \<Rightarrow> (\<lambda>w. (Done StatusOK,
        set_handle h (ObjStmt (cs\<lparr>cst_cancel := None\<rparr>)) (cancel_context (cst_cancel cs) w))))
        (\<lambda>code w'. lifecycle (phases w) [Called (StatementCancel st) code] (phases w')) w"
      by (simp add: wp_def used_same)
  qed simp
qed

lemma put_statement_phases [simp]:
  "cw_handles w h = Some (ObjStmt cs) \<Longrightarrow> cst_stmt cs \<noteq> None \<Longrightarrow> phases (put_statement h cs st w) = phases w"
  unfolding put_statement_def by (rule phases_keep) auto

lemma statement_state_refines:
  assumes "c_ok R S w"
  shows "refines (StatementPrepare st) (spark_statement_prepare E st err) w"
    and "refines (StatementSetSqlQuery st q) (spark_statement_set_sql_query E st q err) w"
proof -
  show "refines (StatementSetSqlQuery st q) (spark_statement_set_sql_query E st q err) w"
    unfolding spark_statement_set_sql_query_def
    by (rule stmt_ready_refines [OF assms]; simp add: wp_def c_status_eq set_sql_query_def used_same)
  show "refines (StatementPrepare st) (spark_statement_prepare E st err) w"
    unfolding spark_statement_prepare_def
  proof (rule stmt_ready_refines [OF assms])
    fix a h x s assume h: "cw_handles w h = Some (ObjStmt x)" and s: "cst_stmt x = Some s"
      and adm: "admits (phases w) (StatementPrepare st)"
    obtain cs w1 where c: "stmt_new_context h x w = (cs, w1)" by fastforce
    have "phases (put_statement h cs s' w1) = phases w" for s'
      using stmt_new_context_frame [OF c] s stmt_new_context_phases [OF h] by simp
    then show "wp (case (h, x, s) of (h, cs, s) \<Rightarrow> (\<lambda>w.
      case stmt_new_context h cs w of (cs1, w1) \<Rightarrow>
        (case prepare s of (e, st') \<Rightarrow> c_status E err e (put_statement h cs1 st' w1))))
        (\<lambda>code w'. lifecycle (phases w) [Called (StatementPrepare st) code] (phases w')) w"
      using c adm by (simp add: wp_def c_status_eq used_same split: prod.split)
  qed simp
qed

section \<open>Results\<close>

lemma export_phases:
  assumes "c_ok R S w" "free_stream w out" "out = Some a"
    and "\<And>r. rd = ResultReader r \<Longrightarrow> rd_refs r = 1"
  shows "wp (export_and_release rd out)
    (\<lambda>code w'. code = StatusOK \<and> phases w' = (phases w)(StreamStruct a := Ready)) w"
proof -
  let ?x = "ObjStream \<lparr>cas_rdr = rd, cas_err = None, cas_status = StatusOK\<rparr>"
  let ?w = "w\<lparr>cw_handles := (cw_handles w)(cw_next_handle w \<mapsto> ?x), cw_next_handle := cw_next_handle w + 1,
      cw_mem := (cw_mem w)\<lparr>cm_blocks := cm_blocks (cw_mem w) + 1\<rparr>,
      cw_streams := (cw_streams w)(a := \<lparr>cs_release = SparkStreamRelease, cs_private = Some (cw_next_handle w)\<rparr>)\<rparr>"
  have "export_and_release rd (Some a) w = (Done StatusOK, ?w)"
    using assms(4) by (rule export_and_release_eq)
  moreover have "phases ?w = (phases w)(StreamStruct a := obj_phase ?x)"
    by (rule phases_new [OF assms(1)]) simp_all
  ultimately show ?thesis by (simp add: assms(3) wp_def)
qed

lemma wp_conseq: "wp m Q w \<Longrightarrow> (\<And>x w'. Q x w' \<Longrightarrow> Q' x w') \<Longrightarrow> wp m Q' w"
  by (auto simp: wp_def split: prod.splits outcome.splits)

text \<open>A metadata call: an error, or a table that is exported.\<close>

lemma export_refines:
  assumes "c_ok R S w1" "phases w1 = phases w" "cw_streams w1 = cw_streams w" "free_stream w out"
    and "admits (phases w) c" "role_of c = with_ptr out Streams"
  shows "wp (export_and_release (TableReader t pos n) out)
      (\<lambda>code w'. lifecycle (phases w) [Called c code] (phases w')) w1"
    and "lifecycle (phases w) [Called c code] (phases w)"
proof -
  obtain a where a: "out = Some a" using assms(4) by (auto simp: free_stream_def)
  have role: "role_of c = Streams a" using assms(6) a by (simp add: with_ptr_def)
  show "wp (export_and_release (TableReader t pos n) out)
      (\<lambda>code w'. lifecycle (phases w) [Called c code] (phases w')) w1"
    by (rule wp_conseq, rule export_phases [OF assms(1) free_stream_frame [OF assms(3,4)] a])
      (auto simp: assms(2) intro: streamed [OF assms(5) role])
  show "lifecycle (phases w) [Called c code] (phases w)"
    by (rule not_streamed [OF assms(5) role])
qed

lemma metadata_refines:
  assumes "c_ok R S w"
  shows "free_stream w out \<Longrightarrow> refines (ConnectionGetInfo cn codes n out) (spark_connection_get_info E cn codes n out err) w"
    and "free_stream w out \<Longrightarrow> refines (ConnectionGetTableTypes cn out) (spark_connection_get_table_types E cn out err) w"
    and "free_stream w out \<Longrightarrow> lib_fits (cl_libs E) \<Longrightarrow>
      refines (ConnectionGetObjects cn depth cat sch tbl typ col out)
        (spark_connection_get_objects E cn depth cat sch tbl typ col out err) w"
    and "refines (ConnectionGetTableSchema cn cat sch tab (Some b))
        (spark_connection_get_table_schema E cn cat sch tab (Some b) err) w"
proof -
  note ctx = c_ok_conn_context(1) [OF assms]
  show "refines (ConnectionGetInfo cn codes n out) (spark_connection_get_info E cn codes n out err) w"
    if out: "free_stream w out"
    unfolding spark_connection_get_info_def
  proof (rule conn_ready_refines [OF assms])
    fix a h x k assume h: "cw_handles w h = Some (ObjConn x)"
      and adm: "admits (phases w) (ConnectionGetInfo cn codes n out)"
    let ?w = "conn_new_context h x w"
    obtain res W where g: "get_info (cl_libs E) (cl_arrow_version E) (cl_info_order E) k []
        (from_c_arr codes n) (cw_go w) = (res, W)" by fastforce
    have ok: "c_ok R S (put_go W ?w)" using get_info_same [OF g] by (intro c_ok_run_same [OF ctx [OF h]]) simp
    note ex = export_refines [where c = "ConnectionGetInfo cn codes n out", OF ok _ _ out adm]
    show "wp (case (h, x, k) of (h, conn, k) \<Rightarrow> (\<lambda>w0.
      let w = conn_new_context h conn w0 in
      case get_info (cl_libs E) (cl_arrow_version E) (cl_info_order E) k [] (from_c_arr codes n) (cw_go w) of
        (Inl e, W) \<Rightarrow> c_status E err (Some e) (put_go W w)
      | (Inr rows, W) \<Rightarrow> export_and_release (TableReader (InfoTable rows) 0 1) out (put_go W w)))
        (\<lambda>code w'. lifecycle (phases w) [Called (ConnectionGetInfo cn codes n out) code] (phases w')) w"
      using g ex h by (cases res) (simp_all add: wp_def Let_def c_status_eq put_go_def)
  qed simp
  show "refines (ConnectionGetTableTypes cn out) (spark_connection_get_table_types E cn out err) w"
    if out: "free_stream w out"
    unfolding spark_connection_get_table_types_def
  proof (rule conn_ready_refines [OF assms])
    fix a h x k assume h: "cw_handles w h = Some (ObjConn x)"
      and adm: "admits (phases w) (ConnectionGetTableTypes cn out)"
    note ex = export_refines [where c = "ConnectionGetTableTypes cn out", OF ctx [OF h] _ _ out adm]
    show "wp (case (h, x, k) of (h, conn, k) \<Rightarrow> (\<lambda>w0.
      let w = conn_new_context h conn w0 in
      case get_table_types k (cw_go w) of
        Inl e \<Rightarrow> c_status E err (Some e) w
      | Inr (sc, b) \<Rightarrow> export_and_release (TableReader (TypesTable sc b) 0 1) out w))
        (\<lambda>code w'. lifecycle (phases w) [Called (ConnectionGetTableTypes cn out) code] (phases w')) w"
      using ex h by (simp add: wp_def Let_def c_status_eq split: sum.split prod.split)
  qed simp
  show "refines (ConnectionGetObjects cn depth cat sch tbl typ col out)
        (spark_connection_get_objects E cn depth cat sch tbl typ col out err) w"
    if out: "free_stream w out" and fits: "lib_fits (cl_libs E)"
    unfolding spark_connection_get_objects_def
  proof (rule conn_ready_refines [OF assms])
    fix a h x k assume h: "cw_handles w h = Some (ObjConn x)" and k: "ccn_cnxn x = Some k"
      and adm: "admits (phases w) (ConnectionGetObjects cn depth cat sch tbl typ col out)"
    let ?w = "conn_new_context h x w"
    have "conn_client k (cw_go w) \<noteq> None" using obj_ok_at [OF assms h] k by simp
    then obtain res W where g: "get_objects (cl_libs E) k [] depth (to_str_ptr cat) (to_str_ptr sch)
        (to_str_ptr tbl) (to_str_ptr col) (to_str_slice typ) (cw_go w) = Some (res, W)"
      and W: "same_world (cw_go w) W"
      using get_objects_open [OF fits] by blast
    have ok: "c_ok R S (put_go W ?w)" using same_world_run [OF W] by (intro c_ok_run_same [OF ctx [OF h]]) simp
    note ex = export_refines [where c = "ConnectionGetObjects cn depth cat sch tbl typ col out", OF ok _ _ out adm]
    show "wp (case (h, x, k) of (h, conn, k) \<Rightarrow> (\<lambda>w0.
      let w = conn_new_context h conn w0 in
      case get_objects (cl_libs E) k [] depth (to_str_ptr cat) (to_str_ptr sch)
          (to_str_ptr tbl) (to_str_ptr col) (to_str_slice typ) (cw_go w) of
        None \<Rightarrow> (Panicked DriverPanic, w)
      | Some (Inl e, W) \<Rightarrow> c_status E err (Some e) (put_go W w)
      | Some (Inr rows, W) \<Rightarrow> export_and_release (TableReader (ObjectsTable rows) 0 1) out (put_go W w)))
        (\<lambda>code w'. lifecycle (phases w) [Called (ConnectionGetObjects cn depth cat sch tbl typ col out) code] (phases w')) w"
      using g ex h by (cases res) (simp_all add: wp_def Let_def c_status_eq put_go_def)
  qed simp
  show "refines (ConnectionGetTableSchema cn cat sch tab (Some b))
        (spark_connection_get_table_schema E cn cat sch tab (Some b) err) w"
    unfolding spark_connection_get_table_schema_def
  proof (rule conn_ready_refines [OF assms])
    fix a h x k assume h: "cw_handles w h = Some (ObjConn x)" and k: "ccn_cnxn x = Some k"
      and adm: "admits (phases w) (ConnectionGetTableSchema cn cat sch tab (Some b))"
    have "conn_client k (cw_go w) \<noteq> None" using obj_ok_at [OF assms h] k by simp
    then obtain res W where g: "get_table_schema (cl_libs E) k [] (to_str_ptr cat) (to_str_ptr sch)
        (go_string tab) (cw_go w) = Some (res, W)"
      using yields_get_table_schema [unfolded yields_def] by blast
    then show "wp (case (h, x, k) of (h, conn, k) \<Rightarrow> (\<lambda>w0.
      let w = conn_new_context h conn w0 in
      case get_table_schema (cl_libs E) k [] (to_str_ptr cat) (to_str_ptr sch)
          (go_string tab) (cw_go w) of
        None \<Rightarrow> (Panicked DriverPanic, w)
      | Some (Inl e, W) \<Rightarrow> c_status E err (Some e) (put_go W w)
      | Some (Inr sc, W) \<Rightarrow> export_schema sc (Some b) (put_go W w)))
        (\<lambda>code w'. lifecycle (phases w) [Called (ConnectionGetTableSchema cn cat sch tab (Some b)) code] (phases w')) w"
      using h adm by (cases res) (simp_all add: wp_def Let_def c_status_eq export_schema_def put_go_def used_same)
  qed simp
qed

section \<open>Making\<close>

lemma present_phase:
  "c_ok R S w \<Longrightarrow> private_of w x = Some h \<Longrightarrow> phases w x \<noteq> Absent"
  by (simp add: phase_Absent)

text \<open>The body of a New after the test for poison.\<close>

lemma make_refines:
  assumes ok: "c_ok R S w" and adm: "admits (phases w) c \<longleftrightarrow> phases w s = Absent"
    and role: "role_of c = Makes s (obj_phase x)"
    and taken: "private_of w s \<noteq> None \<Longrightarrow> wp body (\<lambda>code w'. code = StatusInvalidState \<and> phases w' = phases w) w"
    and made: "private_of w s = None \<Longrightarrow> wp body (\<lambda>code w'. code = StatusOK \<and>
      private_of w' = (private_of w)(s \<mapsto> cw_next_handle w) \<and>
      cw_handles w' = (cw_handles w)(cw_next_handle w \<mapsto> x)) w"
  shows "refines c (guarded E err fname body) w"
proof (rule guarded_refines)
  show "wp body (\<lambda>code w'. lifecycle (phases w) [Called c code] (phases w')) w"
  proof (cases "private_of w s")
    case None
    then have a: "admits (phases w) c" using adm phase_Absent [OF ok] by simp
    show ?thesis
      by (rule wp_conseq [OF made [OF None]]) (auto simp: phases_new_table [OF ok] role a intro: lifecycle.made)
  next
    case (Some h)
    then have a: "\<not> admits (phases w) c" using adm present_phase [OF ok] by simp
    show ?thesis by (rule wp_conseq [OF taken]) (use Some a in \<open>auto intro: refused\<close>)
  qed
qed

lemma new_refines:
  assumes "c_ok R S w"
  shows "refines (DatabaseNew (Some a)) (spark_database_new E (Some a) err) w"
    and "refines (ConnectionNew (Some a)) (spark_connection_new E (Some a) err) w"
proof -
  note np = not_poisoned [OF assms]
  show "refines (DatabaseNew (Some a)) (spark_database_new E (Some a) err) w"
    unfolding spark_database_new_def
    by (rule make_refines [where s = "DbStruct a" and x = "ObjDatabase \<lparr>cdb_opts = Map.empty, cdb_db = None\<rparr>", OF assms])
      (auto simp: np in_phase_def with_ptr_def wp_def c_fail_def create_handle_def Let_def)
  show "refines (ConnectionNew (Some a)) (spark_connection_new E (Some a) err) w"
    unfolding spark_connection_new_def
    by (rule make_refines [where s = "CnxnStruct a" and
        x = "ObjConn \<lparr>ccn_cancel = None, ccn_cnxn = None, ccn_init = None\<rparr>", OF assms])
      (auto simp: np in_phase_def with_ptr_def wp_def c_fail_def create_handle_def Let_def)
qed

lemma statement_new_refines:
  assumes "c_ok R S w"
  shows "refines (StatementNew cn (Some a)) (spark_statement_new E cn (Some a) err) w"
  unfolding spark_statement_new_def
proof (rule guarded_refines)
  let ?c = "StatementNew cn (Some a)"
  let ?Q = "\<lambda>code w'. lifecycle (phases w) [Called ?c code] (phases w')"
  have made: "wp (when_ok (check_conn_init E cn err ''AdbcStatementNew'') (\<lambda>(hc, conn, k) w.
          (case new_statement k (cw_go w) of
             Inl e \<Rightarrow> c_status E err (Some e) w
           | Inr st \<Rightarrow>
               (case create_handle (ObjStmt \<lparr>cst_cancel = None, cst_stmt = Some st\<rparr>) w of
                  (h, w1) \<Rightarrow> (Done StatusOK, w1\<lparr>cw_stmts := (cw_stmts w1)(a \<mapsto> h)\<rparr>))))) ?Q w"
    if free: "cw_stmts w a = None"
  proof (rule after_conn_init [OF assms])
    fix m assume "\<And>b h x. cn = Some b \<Longrightarrow> cw_cnxns w b = Some h \<Longrightarrow> cw_handles w h = Some (ObjConn x) \<Longrightarrow>
      ccn_cnxn x = None"
    then have "\<not> admits (phases w) ?c"
      using phase_Ready(2) [OF assms] by (fastforce simp: in_phase_def split: option.splits)
    then show "?Q StatusInvalidState (w\<lparr>cw_mem := m\<rparr>)" by (simp add: refused)
  next
    fix b h x k assume b: "cn = Some b" "cw_cnxns w b = Some h" "cw_handles w h = Some (ObjConn x)" "ccn_cnxn x = Some k"
    then have "phases w (CnxnStruct b) = Ready" by (simp add: phases_of_def)
    moreover have "phases w (StmtStruct a) = Absent" using free phase_Absent [OF assms] by simp
    ultimately have adm: "admits (phases w) ?c" using b by (simp add: in_phase_def)
    have "conn_client k (cw_go w) \<noteq> None" using obj_ok_at [OF assms b(3)] b(4) by simp
    then obtain st where st: "new_statement k (cw_go w) = Inr st" by (auto simp: new_statement_def)
    let ?x = "ObjStmt \<lparr>cst_cancel = None, cst_stmt = Some st\<rparr>"
    obtain h' w1 where cr: "create_handle ?x w = (h', w1)" by fastforce
    have "phases (w1\<lparr>cw_stmts := (cw_stmts w1)(a \<mapsto> h')\<rparr>) = (phases w)(StmtStruct a := obj_phase ?x)"
      by (rule phases_new [OF assms]) (use cr in \<open>auto simp: create_handle_def Let_def\<close>)
    then have "lifecycle (phases w) [Called ?c StatusOK] (phases (w1\<lparr>cw_stmts := (cw_stmts w1)(a \<mapsto> h')\<rparr>))"
      using lifecycle.made [OF adm, of "StmtStruct a" Ready] by (simp add: with_ptr_def)
    with st cr show "wp (case (h, x, k) of (hc, conn, k) \<Rightarrow> (\<lambda>w.
          (case new_statement k (cw_go w) of
             Inl e \<Rightarrow> c_status E err (Some e) w
           | Inr st \<Rightarrow>
               (case create_handle (ObjStmt \<lparr>cst_cancel = None, cst_stmt = Some st\<rparr>) w of
                  (h, w1) \<Rightarrow> (Done StatusOK, w1\<lparr>cw_stmts := (cw_stmts w1)(a \<mapsto> h)\<rparr>))))) ?Q w"
      by (simp add: wp_def)
  qed
  have taken: "?Q StatusInvalidState (with_mem f w)" if s: "cw_stmts w a = Some h" for h f
  proof -
    have "phases w (StmtStruct a) \<noteq> Absent" by (rule present_phase [OF assms]) (simp add: s)
    then show ?thesis by (simp add: refused in_phase_def)
  qed
  show "wp (\<lambda>w. if cw_poison w then
      c_fail E err ''AdbcStatementNew: Go panicked, driver is in unknown state'' StatusInternal w
    else (case Some a of
      None \<Rightarrow> (Panicked NilPointer, w)
    | Some a \<Rightarrow>
        if cw_stmts w a \<noteq> None then
          c_fail E err ''AdbcStatementNew: statement already allocated'' StatusInvalidState w
        else when_ok (check_conn_init E cn err ''AdbcStatementNew'') (\<lambda>(hc, conn, k) w.
          (case new_statement k (cw_go w) of
             Inl e \<Rightarrow> c_status E err (Some e) w
           | Inr st \<Rightarrow>
               (case create_handle (ObjStmt \<lparr>cst_cancel = None, cst_stmt = Some st\<rparr>) w of
                  (h, w1) \<Rightarrow> (Done StatusOK, w1\<lparr>cw_stmts := (cw_stmts w1)(a \<mapsto> h)\<rparr>)))) w)) ?Q w"
    using made taken not_poisoned [OF assms] by (cases "cw_stmts w a") (simp_all add: wp_def c_fail_def)
qed

section \<open>Opening, configuring and releasing\<close>

text \<open>A failure to open is never reported as OK.\<close>

lemma err_to_adbc_err_status [simp]:
  "fst (err_to_adbc_err E p None m) = StatusOK"
  "fst (err_to_adbc_err E p (Some e) m) = error_status e"
  by (cases e; simp add: err_to_adbc_err_def)+

lemma apply_options_error: "apply_options kvs cfg = (cfg', Some e) \<Longrightarrow> error_status e \<noteq> StatusOK"
proof (induction kvs arbitrary: cfg)
  case (Cons kv kvs)
  have "error_status e \<noteq> StatusOK" if "apply_option k v cfg = Inl e" for k v
    using that by (auto simp: apply_option_def adbc_err_def split: if_splits option.splits prod.splits)
  with Cons show ?case by (auto split: sum.splits)
qed simp

lemma make_database_error: "make_database E x w = (Inl e, w') \<Longrightarrow> error_status e \<noteq> StatusOK"
  by (auto simp: make_database_def new_database_def set_options_def target_cfg_def Let_def adbc_err_def
      dest: apply_options_error split: prod.splits option.splits sum.splits if_splits)

lemma open_connection_error: "open_connection L d W = (Inl e, W') \<Longrightarrow> error_status e \<noteq> StatusOK"
  by (auto simp: open_connection_def database_open_def adbc_err_def
      split: prod.splits option.splits sum.splits go_error.splits)

text \<open>After the check that the structure is allocated.\<close>

lemma absent_refused:
  assumes ok: "c_ok R S w" and adm: "admits (phases w) c \<Longrightarrow> \<exists>a. p = Some a \<and> phases w (mk a) \<noteq> Absent"
    and none: "\<And>a. p = Some a \<Longrightarrow> private_of w (mk a) = None"
  shows "lifecycle (phases w) [Called c StatusInvalidState] (phases (w\<lparr>cw_mem := m\<rparr>))"
  using adm none phase_Absent [OF ok] by (auto intro!: refused)

lemma database_changes_refine:
  assumes "c_ok R S w"
  shows "refines (DatabaseSetOption db key v) (spark_database_set_option E db key v err) w"
    and "refines (DatabaseRelease db) (spark_database_release E db err) w"
    and "refines (DatabaseInit db) (spark_database_init E db err) w"
proof -
  show "refines (DatabaseSetOption db key v) (spark_database_set_option E db key v err) w"
    unfolding spark_database_set_option_def
  proof (intro guarded_refines after_db_alloc [OF assms])
    fix a h x assume a: "db = Some a" "cw_dbs w a = Some h" and h: "cw_handles w h = Some (ObjDatabase x)"
    have adm: "admits (phases w) (DatabaseSetOption db key v)" using a h by (simp add: in_phase_def phases_of_def)
    have "phases (set_handle h (ObjDatabase (x\<lparr>cdb_opts := m\<rparr>)) w) = phases w" for m
      by (rule phases_keep [OF h]) simp
    then show "wp (let k = go_string key; v = go_string v in
        case cdb_db x of
          Some d \<Rightarrow>
            (case database_post_init of
               None \<Rightarrow> c_fail E err ''AdbcDatabaseSetOption: options are not supported'' StatusNotImplemented
             | Some f \<Rightarrow> (\<lambda>w. case f d k v of (e, d') \<Rightarrow> c_status E err e (put_database h x d' w)))
        | None \<Rightarrow> (\<lambda>w. (Done StatusOK,
            set_handle h (ObjDatabase (x\<lparr>cdb_opts := (cdb_opts x)(k \<mapsto> v)\<rparr>)) w)))
        (\<lambda>code w'. lifecycle (phases w) [Called (DatabaseSetOption db key v) code] (phases w')) w"
      using adm by (auto simp: Let_def database_post_init_def wp_Done split: option.split intro: used_same)
  qed (rule absent_refused [where mk = DbStruct and p = db, OF assms]; auto simp: in_phase_def split: option.splits)
  show "refines (DatabaseRelease db) (spark_database_release E db err) w"
    unfolding spark_database_release_def
  proof (intro guarded_refines after_db_alloc [OF assms])
    fix a h x assume a: "db = Some a" "cw_dbs w a = Some h" and h: "cw_handles w h = Some (ObjDatabase x)"
    have adm: "admits (phases w) (DatabaseRelease db)" using a h by (simp add: in_phase_def phases_of_def)
    have "phases (delete_handle h (w\<lparr>cw_dbs := (cw_dbs w)(a := None)\<rparr>)) = (phases w)(DbStruct a := Absent)"
      by (rule phases_gone [OF assms]) (simp_all add: a delete_handle_def Let_def)
    then show "wp (\<lambda>w. (Done StatusOK, delete_handle h (w\<lparr>cw_dbs := (cw_dbs w)(the db := None)\<rparr>)))
        (\<lambda>code w'. lifecycle (phases w) [Called (DatabaseRelease db) code] (phases w')) w"
      using released [OF adm, of "DbStruct a" StatusOK] by (simp add: wp_def a with_ptr_def)
  qed (rule absent_refused [where mk = DbStruct and p = db, OF assms]; auto simp: in_phase_def split: option.splits)
  show "refines (DatabaseInit db) (spark_database_init E db err) w"
    unfolding spark_database_init_def
  proof (intro guarded_refines after_db_alloc [OF assms])
    fix a h x assume a: "db = Some a" "cw_dbs w a = Some h" and h: "cw_handles w h = Some (ObjDatabase x)"
    obtain res w1 where m: "make_database E x w = (res, w1)" by fastforce
    then obtain W where W: "w1 = put_go W w" using make_database_go by blast
    let ?Q = "\<lambda>code w'. lifecycle (phases w) [Called (DatabaseInit db) code] (phases w')"
    have init: "wp (\<lambda>w. case make_database E x w of
            (Inl e, w1) \<Rightarrow> c_status E err (Some e) w1
          | (Inr d, w1) \<Rightarrow> (Done StatusOK, put_database h x d w1)) ?Q w" if fresh: "cdb_db x = None"
    proof -
      have adm: "admits (phases w) (DatabaseInit db)" using a h fresh by (simp add: in_phase_def phases_of_def)
      have role: "role_of (DatabaseInit db) = Opens (DbStruct a)" by (simp add: a with_ptr_def)
      show ?thesis
      proof (cases res)
        case (Inl e)
        then show ?thesis using m W not_opened [OF adm role] make_database_error [of E x w e w1]
          by (simp add: wp_def c_status_eq)
      next
        case (Inr d)
        have "phases (put_database h x d w) = (phases w)(DbStruct a := Ready)"
          unfolding put_database_def using a by (subst phases_set [OF assms, where s = "DbStruct a"]) simp_all
        moreover have "phases (put_database h x d w1) = phases (put_database h x d w)"
          by (simp add: W put_database_def set_handle_def)
        ultimately show ?thesis using m Inr opened [OF adm role] by (simp add: wp_def)
      qed
    qed
    show "wp (if cdb_db x \<noteq> None then
          c_fail E err ''AdbcDatabaseInit: database already initialized'' StatusInvalidState
        else (\<lambda>w. case make_database E x w of
            (Inl e, w1) \<Rightarrow> c_status E err (Some e) w1
          | (Inr d, w1) \<Rightarrow> (Done StatusOK, put_database h x d w1))) ?Q w"
    proof (cases "cdb_db x = None")
      case False
      then have "\<not> admits (phases w) (DatabaseInit db)" using a h by (simp add: in_phase_def phases_of_def)
      with False show ?thesis by (auto simp: refused)
    qed (use init in simp)
  qed (rule absent_refused [where mk = DbStruct and p = db, OF assms]; auto simp: in_phase_def split: option.splits)
qed

lemma connection_changes_refine:
  assumes "c_ok R S w"
  shows "refines (ConnectionSetOption cn key v) (spark_connection_set_option E cn key v err) w"
    and "refines (ConnectionRelease cn) (spark_connection_release E cn err) w"
proof -
  show "refines (ConnectionSetOption cn key v) (spark_connection_set_option E cn key v err) w"
    unfolding spark_connection_set_option_def
  proof (intro guarded_refines after_conn_alloc [OF assms])
    fix a h x assume a: "cn = Some a" "cw_cnxns w a = Some h" and h: "cw_handles w h = Some (ObjConn x)"
    have adm: "admits (phases w) (ConnectionSetOption cn key v)" using a h by (simp add: in_phase_def phases_of_def)
    have "phases (set_handle h (ObjConn (x\<lparr>ccn_init := m\<rparr>)) w) = phases w" for m
      by (rule phases_keep [OF h]) simp
    then show "wp (case ccn_cnxn x of
        None \<Rightarrow>
          (let args = (case ccn_init x of None \<Rightarrow> Map.empty | Some m \<Rightarrow> m) in
           (\<lambda>w. (Done StatusOK, set_handle h
              (ObjConn (x\<lparr>ccn_init := Some (args(go_string key \<mapsto> go_string v))\<rparr>)) w)))
      | Some k \<Rightarrow>
          (case connection_post_init of
             None \<Rightarrow> c_fail E err ''AdbcConnectionSetOption: not supported post-init'' StatusNotImplemented
           | Some f \<Rightarrow> (\<lambda>w. case f k (go_string key) (go_string v) (cw_go w) of
               (e, W) \<Rightarrow> c_status E err e (put_go W w))))
        (\<lambda>code w'. lifecycle (phases w) [Called (ConnectionSetOption cn key v) code] (phases w')) w"
      using adm by (auto simp: Let_def connection_post_init_def wp_Done split: option.split intro: used_same)
  qed (rule absent_refused [where mk = CnxnStruct and p = cn, OF assms]; auto simp: in_phase_def split: option.splits)
  show "refines (ConnectionRelease cn) (spark_connection_release E cn err) w"
    unfolding spark_connection_release_def
  proof (intro guarded_refines after_conn_alloc [OF assms])
    fix a h x assume a: "cn = Some a" "cw_cnxns w a = Some h" and h: "cw_handles w h = Some (ObjConn x)"
    have adm: "admits (phases w) (ConnectionRelease cn)" using a h by (simp add: in_phase_def phases_of_def)
    have gone: "lifecycle (phases w) [Called (ConnectionRelease (Some a)) code]
        (phases (delete_handle h (w'\<lparr>cw_cnxns := (cw_cnxns w')(a := None)\<rparr>)))"
      if "private_of w' = private_of w" "cw_handles w' = cw_handles w" for w' code
    proof -
      have "phases (delete_handle h (w'\<lparr>cw_cnxns := (cw_cnxns w')(a := None)\<rparr>)) = (phases w)(CnxnStruct a := Absent)"
        by (rule phases_gone [OF assms]) (use that in \<open>simp_all add: a delete_handle_def Let_def\<close>)
      then show ?thesis using released [OF adm, of "CnxnStruct a" code] by (simp add: a with_ptr_def)
    qed
    show "wp (\<lambda>w. case (case ccn_cnxn x of
            None \<Rightarrow> (Done StatusOK, w)
          | Some k \<Rightarrow> (case connection_close (cl_libs E) k (cw_go w) of
              (e, W) \<Rightarrow> c_status E err e (put_go W w))) of
          (res, w1) \<Rightarrow>
            (let w2 = cancel_context (ccn_cancel x) w1 in
             (res, delete_handle h (w2\<lparr>cw_cnxns := (cw_cnxns w2)(the cn := None)\<rparr>))))
        (\<lambda>code w'. lifecycle (phases w) [Called (ConnectionRelease cn) code] (phases w')) w"
      by (cases "ccn_cnxn x"; simp add: wp_def Let_def a c_status_eq split: prod.split; (intro allI impI)?;
          rule gone; simp)
  qed (rule absent_refused [where mk = CnxnStruct and p = cn, OF assms]; auto simp: in_phase_def split: option.splits)
qed

lemma connection_init_refines:
  assumes "c_ok R S w"
  shows "refines (ConnectionInit cn db) (spark_connection_init E cn db err) w"
  unfolding spark_connection_init_def
proof (intro guarded_refines after_conn_alloc [OF assms])
  let ?c = "ConnectionInit cn db"
  let ?Q = "\<lambda>code w'. lifecycle (phases w) [Called ?c code] (phases w')"
  fix a h x assume a: "cn = Some a" "cw_cnxns w a = Some h" and h: "cw_handles w h = Some (ObjConn x)"
  have role: "role_of ?c = Opens (CnxnStruct a)" by (simp add: a with_ptr_def)
  have started: "wp (\<lambda>w. case open_connection (cl_libs E) d (cw_go w) of
            (Inl e, W) \<Rightarrow> c_status E err (Some e) (put_go W w)
          | (Inr k, W) \<Rightarrow>
              (let conn1 = x\<lparr>ccn_cnxn := Some k\<rparr> in
               init_options E err h conn1 k (set_handle h (ObjConn conn1) (put_go W w)))) ?Q w"
    if adm: "admits (phases w) ?c" for d
  proof -
    obtain res W where o: "open_connection (cl_libs E) d (cw_go w) = (res, W)" by fastforce
    show ?thesis
    proof (cases res)
      case (Inl e)
      then show ?thesis using o not_opened [OF adm role] open_connection_error [of "cl_libs E" d "cw_go w" e W]
        by (simp add: wp_def c_status_eq)
    next
      case (Inr k)
      have "phases (set_handle h (ObjConn (x\<lparr>ccn_cnxn := Some k\<rparr>)) w) = (phases w)(CnxnStruct a := Ready)"
        using a by (subst phases_set [OF assms, where s = "CnxnStruct a"]) simp_all
      moreover have "phases (set_handle h (ObjConn (x\<lparr>ccn_cnxn := Some k\<rparr>)) (put_go W w)) =
          phases (set_handle h (ObjConn (x\<lparr>ccn_cnxn := Some k\<rparr>)) w)"
        by (simp add: set_handle_def)
      ultimately show ?thesis using o Inr opened [OF adm role] half_opened [OF adm role]
        by (simp add: wp_def Let_def init_options_def connection_post_init_def c_fail_def)
    qed
  qed
  show "wp (if ccn_cnxn x \<noteq> None then
          c_fail E err ''AdbcConnectionInit: connection already initialized'' StatusInvalidState
        else when_ok (check_db_init E db err ''AdbcConnectionInit'') (\<lambda>(hd, cdb, d) w.
          case open_connection (cl_libs E) d (cw_go w) of
            (Inl e, W) \<Rightarrow> c_status E err (Some e) (put_go W w)
          | (Inr k, W) \<Rightarrow>
              (let conn1 = x\<lparr>ccn_cnxn := Some k\<rparr> in
               init_options E err h conn1 k (set_handle h (ObjConn conn1) (put_go W w))))) ?Q w"
  proof (cases "ccn_cnxn x = None")
    case False
    then have "\<not> admits (phases w) ?c" using a h by (auto simp: in_phase_def phases_of_def)
    with False show ?thesis by (auto simp: refused)
  next
    case True
    have "wp (when_ok (check_db_init E db err ''AdbcConnectionInit'') (\<lambda>(hd, cdb, d) w.
          case open_connection (cl_libs E) d (cw_go w) of
            (Inl e, W) \<Rightarrow> c_status E err (Some e) (put_go W w)
          | (Inr k, W) \<Rightarrow>
              (let conn1 = x\<lparr>ccn_cnxn := Some k\<rparr> in
               init_options E err h conn1 k (set_handle h (ObjConn conn1) (put_go W w))))) ?Q w"
    proof (rule after_db_init [OF assms])
      fix m assume "\<And>b j y. db = Some b \<Longrightarrow> cw_dbs w b = Some j \<Longrightarrow> cw_handles w j = Some (ObjDatabase y) \<Longrightarrow>
        cdb_db y = None"
      then have "\<not> admits (phases w) ?c"
        using phase_Ready(1) [OF assms] by (fastforce simp: in_phase_def split: option.splits)
      then show "?Q StatusInvalidState (w\<lparr>cw_mem := m\<rparr>)" by (simp add: refused)
    next
      fix b j y d assume b: "db = Some b" "cw_dbs w b = Some j" "cw_handles w j = Some (ObjDatabase y)" "cdb_db y = Some d"
      then have "admits (phases w) ?c" using a h True by (simp add: in_phase_def phases_of_def)
      from started [OF this, of d]
      show "wp (case (j, y, d) of (hdb, cdb, d) \<Rightarrow> (\<lambda>w.
          case open_connection (cl_libs E) d (cw_go w) of
            (Inl e, W) \<Rightarrow> c_status E err (Some e) (put_go W w)
          | (Inr k, W) \<Rightarrow>
              (let conn1 = x\<lparr>ccn_cnxn := Some k\<rparr> in
               init_options E err h conn1 k (set_handle h (ObjConn conn1) (put_go W w))))) ?Q w" by simp
    qed
    with True show ?thesis by simp
  qed
qed (rule absent_refused [where mk = CnxnStruct and p = cn, OF assms]; auto simp: in_phase_def split: option.splits)

section \<open>Statements\<close>

lemma statement_release_refines:
  assumes "c_ok R S w"
  shows "refines (StatementRelease st) (spark_statement_release E st err) w"
  unfolding spark_statement_release_def
proof (rule guarded_refines)
  let ?Q = "\<lambda>code w'. lifecycle (phases w) [Called (StatementRelease st) code] (phases w')"
  have closed: "wp (when_ok (check_stmt_alloc E st err ''AdbcStatementRelease'') (\<lambda>h.
      c_bind (get_stmt h) (\<lambda>cs w.
        case (case cst_stmt cs of
            None \<Rightarrow> (Done StatusOK, w)
          | Some st \<Rightarrow> (case statement_close st (cw_go w) of
              (st', W) \<Rightarrow> c_status E err None (put_go W w))) of
          (res, w1) \<Rightarrow>
            (let w2 = cancel_context (cst_cancel cs) w1 in
             (res, delete_handle h (w2\<lparr>cw_stmts := (cw_stmts w2)(the st := None)\<rparr>)))))) ?Q w"
  proof (rule after_stmt_alloc [OF assms])
    fix a h x assume a: "st = Some a" "cw_stmts w a = Some h" and h: "cw_handles w h = Some (ObjStmt x)"
    have adm: "admits (phases w) (StatementRelease st)" using a h by (simp add: in_phase_def phases_of_def)
    have gone: "lifecycle (phases w) [Called (StatementRelease (Some a)) code]
        (phases (delete_handle h (w'\<lparr>cw_stmts := (cw_stmts w')(a := None)\<rparr>)))"
      if "private_of w' = private_of w" "cw_handles w' = cw_handles w" for w' code
    proof -
      have "phases (delete_handle h (w'\<lparr>cw_stmts := (cw_stmts w')(a := None)\<rparr>)) = (phases w)(StmtStruct a := Absent)"
        by (rule phases_gone [OF assms]) (use that in \<open>simp_all add: a delete_handle_def Let_def\<close>)
      then show ?thesis using released [OF adm, of "StmtStruct a" code] by (simp add: a with_ptr_def)
    qed
    show "wp (\<lambda>w. case (case cst_stmt x of
            None \<Rightarrow> (Done StatusOK, w)
          | Some st \<Rightarrow> (case statement_close st (cw_go w) of
              (st', W) \<Rightarrow> c_status E err None (put_go W w))) of
          (res, w1) \<Rightarrow>
            (let w2 = cancel_context (cst_cancel x) w1 in
             (res, delete_handle h (w2\<lparr>cw_stmts := (cw_stmts w2)(the st := None)\<rparr>)))) ?Q w"
      by (cases "cst_stmt x"; simp add: wp_def Let_def a c_status_eq split: prod.split; (intro allI impI)?;
          rule gone; simp)
  qed (rule absent_refused [where mk = StmtStruct and p = st, OF assms]; auto simp: in_phase_def split: option.splits)
  then show "wp (\<lambda>w. if cw_poison w then
      c_fail E err ''AdbcStatementRelease: Go panicked, driver is in unknown state'' StatusInternal w
    else when_ok (check_stmt_alloc E st err ''AdbcStatementRelease'') (\<lambda>h.
      c_bind (get_stmt h) (\<lambda>cs w.
        case (case cst_stmt cs of
            None \<Rightarrow> (Done StatusOK, w)
          | Some st \<Rightarrow> (case statement_close st (cw_go w) of
              (st', W) \<Rightarrow> c_status E err None (put_go W w))) of
          (res, w1) \<Rightarrow>
            (let w2 = cancel_context (cst_cancel cs) w1 in
             (res, delete_handle h (w2\<lparr>cw_stmts := (cw_stmts w2)(the st := None)\<rparr>))))) w) ?Q w"
    using not_poisoned [OF assms] by (simp add: wp_def)
qed

lemma stmt_context_streams:
  "stmt_new_context h x w = (cs, w1) \<Longrightarrow> private_of w1 = private_of w \<and> cw_streams w1 = cw_streams w"
  by (auto simp: stmt_new_context_def new_context_def cancel_context_def set_handle_def Let_def split: option.split)

lemma execute_query_refines:
  assumes "c_ok R S w" "out = None \<or> free_stream w out"
  shows "refines (StatementExecuteQuery st out n) (spark_statement_execute_query E st out n err) w"
  unfolding spark_statement_execute_query_def
proof (rule stmt_ready_refines [OF assms(1)])
  let ?c = "StatementExecuteQuery st out n"
  let ?Q = "\<lambda>code w'. lifecycle (phases w) [Called ?c code] (phases w')"
  fix a h x s assume h: "cw_handles w h = Some (ObjStmt x)" and s: "cst_stmt x = Some s"
    and adm: "admits (phases w) ?c"
  obtain cs w1 where c: "stmt_new_context h x w = (cs, w1)" by fastforce
  have same: "phases w1 = phases w" using stmt_new_context_phases [OF h] c by simp
  have params: "params_ok s" by (rule stmt_params_ok [OF assms(1) h s])
  show "wp (case (h, x, s) of (h, cs, st) \<Rightarrow> (\<lambda>w.
      case stmt_new_context h cs w of (cs1, w1) \<Rightarrow>
        if out = None then
          (case execute_update (cl_libs E) [] st (cw_go w1) of
             None \<Rightarrow> (Panicked DriverPanic, w1)
           | Some (Some e, n, W) \<Rightarrow> c_status E err (Some e) (put_go W w1)
           | Some (None, k, W) \<Rightarrow> (Done StatusOK, put_affected n k (put_go W w1)))
        else
          (case execute_query (cl_libs E) [] st (cw_go w1) of
             None \<Rightarrow> (Panicked DriverPanic, w1)
           | Some (Inl e, n, W) \<Rightarrow> c_status E err (Some e) (put_go W w1)
           | Some (Inr r, k, W) \<Rightarrow>
               export_and_release (ResultReader r) out (put_affected n k (put_go W w1))))) ?Q w"
  proof (cases out)
    case None
    obtain e k W where u: "execute_update (cl_libs E) [] s (cw_go w1) = Some (e, k, W)"
      using execute_update_cases [OF params] by blast
    have "lifecycle (phases w) [Called ?c code] (phases w)" for code
      using adm None by (intro used) (simp_all add: with_ptr_def)
    with None c u same show ?thesis by (cases e) (simp_all add: wp_def c_status_eq)
  next
    case (Some b)
    have role: "role_of ?c = Streams b" by (simp add: Some with_ptr_def)
    obtain res k W where q: "execute_query (cl_libs E) [] s (cw_go w1) = Some (res, k, W)"
      using execute_query_total [OF params] by blast
    show ?thesis
    proof (cases res)
      case (Inl e)
      then show ?thesis using Some c q same not_streamed [OF adm role] by (simp add: wp_def c_status_eq)
    next
      case (Inr r)
      let ?w = "put_affected n k (put_go W w1)"
      have ok: "c_ok (\<lambda>i. R i + rt_refs (wd_run W) i - rt_refs (wd_run (cw_go w1)) i)
          (S + rt_streams (wd_run W) - rt_streams (wd_run (cw_go w1))) ?w"
        unfolding put_affected_ok
        by (rule c_ok_put_go [where R = R and S = S])
          (use c_ok_stmt_context(1) [OF assms(1) h] c execute_query_cases [OF q] in simp_all)
      have free: "free_stream ?w out"
        using assms(2) Some stmt_context_streams [OF c] by (simp add: free_stream_def)
      have "wp (export_and_release (ResultReader r) out)
          (\<lambda>code w'. code = StatusOK \<and> phases w' = (phases ?w)(StreamStruct b := Ready)) ?w"
        using execute_query_cases [OF q] Inr by (intro export_phases [OF ok free Some]) simp
      then have "wp (export_and_release (ResultReader r) out) ?Q ?w"
        by (rule wp_conseq) (auto simp: same intro: streamed [OF adm role])
      then show ?thesis using Some c q Inr by (simp add: wp_def)
    qed
  qed
qed simp

lemma bind_refines:
  assumes "c_ok R S w" "imports_ok E"
  shows "refines (StatementBind st arr sch) (spark_statement_bind E st arr sch err) w"
    and "str = None \<or> free_stream w str \<Longrightarrow>
      refines (StatementBindStream st str) (spark_statement_bind_stream E st str err) w"
    and "refines (StatementExecutePartitions st sch parts n)
      (spark_statement_execute_partitions E st sch parts n err) w"
proof -
  show "refines (StatementBind st arr sch) (spark_statement_bind E st arr sch err) w"
    unfolding spark_statement_bind_def
  proof (rule stmt_ready_refines [OF assms(1)])
    let ?c = "StatementBind st arr sch"
    fix a h x s assume h: "cw_handles w h = Some (ObjStmt x)" and s: "cst_stmt x = Some s"
      and adm: "admits (phases w) ?c"
    have imp: "cl_import E (at_address cw_arrays arr w) (at_address cw_schemas sch w) \<noteq> ImportPanic"
    proof -
      have "case cl_import E (at_address cw_arrays arr w) (at_address cw_schemas sch w) of
        Imported rec \<Rightarrow> valid_batch rec | ImportError e \<Rightarrow> True | ImportPanic \<Rightarrow> False"
        using assms(2) by (simp add: imports_ok_def)
      then show ?thesis by (auto split: import_result.splits)
    qed
    have used: "phases w' = phases w \<Longrightarrow> lifecycle (phases w) [Called ?c code] (phases w')" for w' code
      using adm by (intro used_same) simp_all
    show "wp (case (h, x, s) of (h, cs, st) \<Rightarrow> (\<lambda>w.
      case cl_import E (at_address cw_arrays arr w) (at_address cw_schemas sch w) of
        ImportPanic \<Rightarrow> (Panicked NilPointer, w)
      | ImportError e \<Rightarrow> c_status E err (Some (Plain (Text e))) (take_array arr w)
      | Imported rec \<Rightarrow>
          (case import_record rec (cw_go w) of (b, W) \<Rightarrow>
            (case stmt_new_context h cs (take_array arr (put_go W w)) of (cs1, w1) \<Rightarrow>
              (case bind_params (Some b) st (cw_go w1) of (e, st', W') \<Rightarrow>
                (case c_status E err e (put_statement h cs1 st' (put_go W' w1)) of (res, w2) \<Rightarrow>
                  (res, put_run (release_rec b (wd_run (cw_go w2))) w2)))))))
        (\<lambda>code w'. lifecycle (phases w) [Called ?c code] (phases w')) w"
    proof (cases "cl_import E (at_address cw_arrays arr w) (at_address cw_schemas sch w)")
      case (Imported rec)
      obtain b W where i: "import_record rec (cw_go w) = (b, W)" by fastforce
      obtain cs w1 where c: "stmt_new_context h x (take_array arr (put_go W w)) = (cs, w1)" by fastforce
      obtain e st' W' where p: "bind_params (Some b) s (cw_go w1) = (e, st', W')" by (metis prod_cases3)
      have "phases w1 = phases w"
        using stmt_new_context_phases [of "take_array arr (put_go W w)" h x] h c by simp
      moreover have "cw_handles w1 h = Some (ObjStmt cs)" "cst_stmt cs = Some s"
        using stmt_new_context_frame [OF c] s by simp_all
      ultimately show ?thesis
        using Imported i c p by (simp add: wp_def c_status_eq) (rule used, simp)
    qed (use imp in \<open>simp_all add: wp_def c_status_eq used\<close>)
  qed simp
  show "refines (StatementBindStream st str) (spark_statement_bind_stream E st str err) w"
    if str: "str = None \<or> free_stream w str"
    unfolding spark_statement_bind_stream_def
  proof (rule stmt_ready_refines [OF assms(1)])
    let ?c = "StatementBindStream st str"
    fix a h x s assume h: "cw_handles w h = Some (ObjStmt x)" and adm: "admits (phases w) ?c"
    have imp: "cl_import_stream E (at_address cw_streams str w) \<noteq> StreamImportPanic"
      using assms(2) by (simp add: imports_ok_def)
    have taken: "private_of (take_stream str w) = private_of w" "cw_handles (take_stream str w) = cw_handles w"
      using str by (auto simp: take_stream_def free_stream_def split: option.split)
    have used: "phases w' = phases w \<Longrightarrow> lifecycle (phases w) [Called ?c code] (phases w')" for w' code
      using adm by (intro used_same) simp_all
    have "phases (snd (stmt_new_context h x (take_stream str w))) = phases w"
      using stmt_new_context_phases [of "take_stream str w" h x] h taken by simp
    then show "wp (case (h, x, s) of (h, cs, st) \<Rightarrow> (\<lambda>w.
      case cl_import_stream E (at_address cw_streams str w) of
        StreamImportPanic \<Rightarrow> (Panicked NilPointer, w)
      | StreamImportError e \<Rightarrow> c_status E err (Some (Plain (Text e))) (take_stream str w)
      | StreamImported \<Rightarrow>
          (case stmt_new_context h cs (take_stream str w) of (cs1, w1) \<Rightarrow>
            c_status E err bind_stream w1)))
        (\<lambda>code w'. lifecycle (phases w) [Called ?c code] (phases w')) w"
      using imp taken
      by (cases "cl_import_stream E (at_address cw_streams str w)")
        (auto simp: wp_def c_status_eq case_prod_beta intro!: used)
  qed simp
  show "refines (StatementExecutePartitions st sch parts n)
      (spark_statement_execute_partitions E st sch parts n err) w"
    unfolding spark_statement_execute_partitions_def
    by (rule stmt_ready_refines [OF assms(1)])
      (simp_all add: wp_def c_status_eq case_prod_beta execute_partitions_def used_same)
qed

section \<open>Callbacks\<close>

lemma set_stream_phases:
  "cw_handles w h = Some (ObjStream s) \<Longrightarrow> phases (set_handle h (ObjStream s') w) = phases w"
  by (rule phases_keep [where y = "ObjStream s"]) simp_all

lemma stream_maybe_error_phases:
  assumes "cw_handles w h = Some (ObjStream s)"
  shows "wp (stream_maybe_error E h s) (\<lambda>no w'. phases w' = phases w) w"
proof -
  obtain no s' m where "maybe_error E s (cw_mem w) = (no, s', m)" by (metis prod_cases3)
  then show ?thesis using set_stream_phases [of "w\<lparr>cw_mem := m\<rparr>" h s s'] assms
    by (simp add: wp_def stream_maybe_error_def)
qed

lemma rdr_next_phases:
  assumes "cw_handles w h = Some (ObjStream s)" "rdr_next E rd w = (ok, rd', w1)"
  shows "phases (set_handle h (ObjStream s') w1) = phases w"
proof -
  have "private_of w1 = private_of w" "cw_handles w1 = cw_handles w"
    using assms(2) by (auto simp: rdr_next_def split: c_reader.splits prod.splits)
  then show ?thesis using set_stream_phases [of w1 h s s'] assms(1) by simp
qed

lemma reading_phases:
  assumes "c_ok R S w"
  shows "array \<noteq> None \<Longrightarrow> wp (spark_array_stream_get_next E stream array) (\<lambda>no w'. phases w' = phases w) w"
    and "schema \<noteq> None \<Longrightarrow> wp (spark_array_stream_get_schema E stream schema) (\<lambda>no w'. phases w' = phases w) w"
proof -
  show "wp (spark_array_stream_get_next E stream array) (\<lambda>no w'. phases w' = phases w) w" if a: "array \<noteq> None"
    unfolding spark_array_stream_get_next_def
  proof (rule callback_ok [OF assms])
    fix b h s assume h: "cw_handles w h = Some (ObjStream s)"
    obtain p where p: "array = Some p" using a by blast
    obtain ok rd w1 where n: "rdr_next E (cas_rdr s) w = (ok, rd, w1)" by (metis prod_cases3)
    let ?s = "s\<lparr>cas_rdr := rd\<rparr>"
    let ?w = "set_handle h (ObjStream ?s) w1"
    have "ok \<Longrightarrow> rdr_batch rd w1 \<noteq> None" by (rule rdr_next_ok(2) [OF assms h n])
    moreover have "rdr_batch rd ?w = rdr_batch rd w1"
      by (simp add: rdr_batch_def set_handle_def split: c_reader.split)
    moreover have ph: "phases ?w = phases w" by (rule rdr_next_phases [OF h n])
    moreover have "wp (stream_maybe_error E h ?s) (\<lambda>no w'. phases w' = phases ?w)
        (?w\<lparr>cw_arrays := (cw_arrays ?w)(p := None)\<rparr>)"
      by (rule wp_conseq, rule stream_maybe_error_phases) (simp_all add: set_handle_def)
    ultimately show "wp (\<lambda>w. case rdr_next E (cas_rdr s) w of (ok, rd, w1) \<Rightarrow>
         (let s1 = s\<lparr>cas_rdr := rd\<rparr>; w2 = set_handle h (ObjStream s1) w1 in
          case array of
            None \<Rightarrow> (Panicked NilPointer, w2)
          | Some a \<Rightarrow>
              if ok then
                (case rdr_batch rd w2 of
                   None \<Rightarrow> (Panicked NilPointer, w2)
                 | Some x \<Rightarrow> (Done ENone, w2\<lparr>cw_arrays := (cw_arrays w2)(a \<mapsto> x)\<rparr>))
              else stream_maybe_error E h s1 (w2\<lparr>cw_arrays := (cw_arrays w2)(a := None)\<rparr>)))
        (\<lambda>no w'. phases w' = phases w) w"
      using n p by (cases ok) (auto simp: wp_def Let_def)
  qed simp
  show "wp (spark_array_stream_get_schema E stream schema) (\<lambda>no w'. phases w' = phases w) w" if a: "schema \<noteq> None"
    unfolding spark_array_stream_get_schema_def
  proof (rule callback_ok [OF assms])
    fix b h s assume "cw_handles w h = Some (ObjStream s)"
    from stream_maybe_error_phases [OF this, of E] a
    show "wp (\<lambda>w. case rdr_schema (cas_rdr s) of
          None \<Rightarrow> stream_maybe_error E h s w
        | Some sc \<Rightarrow> (case schema of
              None \<Rightarrow> (Panicked NilPointer, w)
            | Some a \<Rightarrow> (Done ENone, w\<lparr>cw_schemas := (cw_schemas w)(a \<mapsto> sc)\<rparr>))) (\<lambda>no w'. phases w' = phases w) w"
      by (auto simp: wp_def split: option.split)
  qed simp
qed

lemma trampoline_phases:
  assumes "c_ok R S w"
  shows "array \<noteq> None \<Longrightarrow> wp (spark_array_stream_get_next_trampoline E stream array) (\<lambda>no w'. phases w' = phases w) w"
    and "schema \<noteq> None \<Longrightarrow> wp (spark_array_stream_get_schema_trampoline E stream schema) (\<lambda>no w'. phases w' = phases w) w"
  using reading_phases(1) [of R S "w\<lparr>cw_arrays := (cw_arrays w)(the array := None)\<rparr>" array E stream]
    reading_phases(2) [of R S "zero_schema schema w" schema E stream] assms
  by (auto simp: wp_def spark_array_stream_get_next_trampoline_def spark_array_stream_get_schema_trampoline_def)

text \<open>After its release a structure holds no stream, whatever it held.\<close>

lemma stream_release_private:
  fixes w :: "'srv c_world"
  assumes "c_ok R S w"
  shows "wp (spark_array_stream_release E (Some a))
    (\<lambda>u w'. private_of w' = (private_of w)(StreamStruct a := None) \<and>
       phases w' = (phases w)(StreamStruct a := Absent)) w"
proof (cases "our_stream (Some a) w")
  case None
  then have "private_of w (StreamStruct a) = None" by (simp add: our_stream_def split: if_splits)
  moreover from this have "phases w (StreamStruct a) = Absent" by (simp add: phases_of_def)
  ultimately show ?thesis using None by (simp add: wp_def spark_array_stream_release_def fun_upd_idem)
next
  case (Some h)
  then obtain s where h: "private_of w (StreamStruct a) = Some h" "cw_handles w h = Some (ObjStream s)"
      "get_stream h w = (Done s, w)"
    using our_stream_cases [OF assms Some] by auto
  obtain rd w1 where r: "rdr_release (cas_rdr s) w = (rd, w1)" by fastforce
  have w1: "cw_dbs w1 = cw_dbs w" "cw_cnxns w1 = cw_cnxns w" "cw_stmts w1 = cw_stmts w"
    "cw_streams w1 = cw_streams w" "cw_handles w1 = cw_handles w"
    using r by (auto simp: rdr_release_def put_run_go split: c_reader.splits prod.splits)
  show ?thesis
    using Some h(3) r w1 phases_gone_table [OF assms h(1)]
    by (simp add: wp_def spark_array_stream_release_def c_bind_def Let_def with_mem_def delete_handle_def)
qed

section \<open>The refinement\<close>

lemma api_call_refines:
  assumes "c_ok R S w" "libs_ok E" "valid_call w c"
  shows "refines c (api_call E err c) w"
proof -
  have E: "lib_fits (cl_libs E)" "imports_ok E" using assms(2) by (simp_all add: libs_ok_def)
  show ?thesis
    using assms(3)
    by (cases c) (auto simp: E option_refines [OF assms(1)] refused_functions_refine [OF assms(1)]
      cancel_refines [OF assms(1)] statement_state_refines [OF assms(1)] metadata_refines [OF assms(1)]
      new_refines [OF assms(1)] statement_new_refines [OF assms(1)] database_changes_refine [OF assms(1)]
      connection_changes_refine [OF assms(1)] connection_init_refines [OF assms(1)]
      statement_release_refines [OF assms(1)] execute_query_refines [OF assms(1)] bind_refines [OF assms(1)])
qed

lemma app_step_refines:
  assumes "app_step E w es w'" "c_ok R S w" "libs_ok E"
  shows "run lifecycle (phases w) es (phases w')"
  using assms(1)
proof (cases rule: app_step.cases)
  case (step_call c err code)
  then show ?thesis using api_call_refines [OF assms(2,3), of c err] by (auto simp: refines_def intro: run_one)
next
  case (step_entry c err code)
  note split = adbc_call_split [OF step_entry(2)]
  have "phases (zero_outputs c w) = phases w" using split(1) by (simp add: same_driver_def)
  moreover have "refines c (api_call E err c) (zero_outputs c w)"
    by (rule api_call_refines [OF same_driver_c_ok [OF split(1) assms(2)] assms(3) split(2)])
  ultimately show ?thesis using step_entry by (auto simp: refines_def adbc_call_def intro: run_one)
next
  case (step_next arr stream)
  then show ?thesis using wp_snd [OF trampoline_phases(1) [OF assms(2), of arr E stream]] by auto
next
  case (step_schema sch stream)
  then show ?thesis using wp_snd [OF trampoline_phases(2) [OF assms(2), of sch E stream]] by auto
next
  case (step_release stream)
  then show ?thesis
  proof (cases stream)
    case None
    then show ?thesis using step_release
      by (auto simp: spark_array_stream_release_def our_stream_def intro: run_one ended_none)
  next
    case (Some a)
    have "wp (spark_array_stream_release E (Some a)) (\<lambda>u w'. phases w' = (phases w)(StreamStruct a := Absent)) w"
      by (rule wp_conseq [OF stream_release_private [OF assms(2)]]) blast
    from wp_snd [OF this] show ?thesis using step_release Some by (auto intro: run_one ended)
  qed
next
  case step_memory
  then show ?thesis by (auto simp: same_driver_def)
qed

interpretation app: refinement "app_step E" lifecycle phases "\<lambda>w. libs_ok E \<and> c_ok R S w"
  for E :: "'srv c_libs" and R S
  by unfold_locales (auto intro: app_step_c_ok app_step_refines)

end
