(* ===== verification/C_Safety.thy ===== *)
theory C_Safety
  imports C_Refinement Sample_Service
begin

text \<open>
  What an application can rely on, from the invariant, the refinement and the runs: the driver does
  not panic, pointers have their type, calls follow the lifecycle, releasing everything gives
  everything back, and a driver that did panic refuses every call.
\<close>

section \<open>Releasing\<close>

fun release_struct :: "'srv c_libs \<Rightarrow> c_struct \<Rightarrow> 'srv c_world \<Rightarrow> 'srv c_world" where
  "release_struct E (DbStruct a) w = snd (api_call E None (DatabaseRelease (Some a)) w)"
| "release_struct E (CnxnStruct a) w = snd (api_call E None (ConnectionRelease (Some a)) w)"
| "release_struct E (StmtStruct a) w = snd (api_call E None (StatementRelease (Some a)) w)"
| "release_struct E (StreamStruct a) w = snd (spark_array_stream_release E (Some a) w)"

definition release_all :: "'srv c_libs \<Rightarrow> c_struct list \<Rightarrow> 'srv c_world \<Rightarrow> 'srv c_world" where
  "release_all E xs w = foldl (\<lambda>w x. release_struct E x w) w xs"

text \<open>The structures that hold something of the driver.\<close>

definition live :: "'srv c_world \<Rightarrow> c_struct set" where
  "live w = {x. private_of w x \<noteq> None}"

lemma release_struct_step: "\<exists>es. app_step E w es (release_struct E x w)"
proof (cases x)
  case (StreamStruct a)
  then show ?thesis by (auto intro: step_release)
next
  case (DbStruct a)
  then show ?thesis
    by (auto intro!: exI step_call [where c = "DatabaseRelease (Some a)" and err = None] simp: prod_eq_iff)
next
  case (CnxnStruct a)
  then show ?thesis
    by (auto intro!: exI step_call [where c = "ConnectionRelease (Some a)" and err = None] simp: prod_eq_iff)
next
  case (StmtStruct a)
  then show ?thesis
    by (auto intro!: exI step_call [where c = "StatementRelease (Some a)" and err = None] simp: prod_eq_iff)
qed

lemma release_struct_phases:
  assumes "c_ok R S w" "libs_ok E"
  shows "phases (release_struct E x w) = (phases w)(x := Absent)"
proof (cases x)
  case (StreamStruct a)
  have "wp (spark_array_stream_release E (Some a)) (\<lambda>u w'. phases w' = (phases w)(StreamStruct a := Absent)) w"
    by (rule wp_conseq [OF stream_release_private [OF assms(1)]]) blast
  from wp_snd [OF this] StreamStruct show ?thesis by simp
next
  case (DbStruct a)
  have "refines (DatabaseRelease (Some a)) (api_call E None (DatabaseRelease (Some a))) w"
    by (rule api_call_refines [OF assms]) simp
  with DbStruct show ?thesis
    by (cases "phases w (DbStruct a)")
      (auto simp: refines_def lifecycle_call_iff in_phase_def with_ptr_def fun_upd_idem_iff)
next
  case (CnxnStruct a)
  have "refines (ConnectionRelease (Some a)) (api_call E None (ConnectionRelease (Some a))) w"
    by (rule api_call_refines [OF assms]) simp
  with CnxnStruct show ?thesis
    by (cases "phases w (CnxnStruct a)")
      (auto simp: refines_def lifecycle_call_iff in_phase_def with_ptr_def fun_upd_idem_iff)
next
  case (StmtStruct a)
  have "refines (StatementRelease (Some a)) (api_call E None (StatementRelease (Some a))) w"
    by (rule api_call_refines [OF assms]) simp
  with StmtStruct show ?thesis
    by (cases "phases w (StmtStruct a)")
      (auto simp: refines_def lifecycle_call_iff in_phase_def with_ptr_def fun_upd_idem_iff)
qed

lemma release_all_run:
  assumes "c_ok R S w" "libs_ok E"
  shows "(\<exists>es. app_run E w es (release_all E xs w)) \<and> c_ok R S (release_all E xs w) \<and>
    phases (release_all E xs w) = (\<lambda>x. if x \<in> set xs then Absent else phases w x)"
proof (induction xs rule: rev_induct)
  case (snoc x xs)
  then obtain es where es: "app_run E w es (release_all E xs w)" and ok: "c_ok R S (release_all E xs w)" by blast
  obtain fs where fs: "app_step E (release_all E xs w) fs (release_struct E x (release_all E xs w))"
    using release_struct_step by blast
  have "app_run E w (es @ fs) (release_all E (xs @ [x]) w)"
    using run_step [OF es fs] by (simp add: release_all_def)
  moreover have "c_ok R S (release_all E (xs @ [x]) w)"
    using app_step_c_ok [OF fs ok assms(2)] by (simp add: release_all_def)
  moreover have "phases (release_all E (xs @ [x]) w) = (\<lambda>y. if y \<in> set (xs @ [x]) then Absent else phases w y)"
    using release_struct_phases [OF ok assms(2), of x] snoc by (auto simp: release_all_def)
  ultimately show ?case by blast
qed (use assms in \<open>auto simp: release_all_def\<close>)

lemma live_finite: "c_ok R S w \<Longrightarrow> finite (live w)"
proof -
  assume ok: "c_ok R S w"
  have "finite (dom (cw_handles w))" using ok objs_ok_finite by (auto simp: c_ok_def)
  moreover have "(\<lambda>x. the (private_of w x)) ` live w \<subseteq> dom (cw_handles w)"
    using private_live [OF ok] by (force simp: live_def)
  moreover have "inj_on (\<lambda>x. the (private_of w x)) (live w)"
    by (rule inj_onI) (auto simp: live_def intro: private_inj [OF ok])
  ultimately show ?thesis by (meson finite_imageD finite_subset)
qed

section \<open>A driver that panicked\<close>

lemma poisoned_check:
  assumes "cw_poison w"
  shows "\<exists>m. check_alloc E what priv p err fname w = (Done None, w\<lparr>cw_mem := m\<rparr>)"
  using assms by (auto simp: check_alloc_def c_fail_in_def with_mem_def)

definition refuses :: "('srv c_world \<Rightarrow> status \<times> 'srv c_world) \<Rightarrow> 'srv c_world \<Rightarrow> bool" where
  "refuses m w \<longleftrightarrow> (\<exists>code mem. m w = (code, w\<lparr>cw_mem := mem\<rparr>) \<and> code \<in> {StatusInvalidState, StatusInternal})"

lemma refuses_alloc:
  assumes "cw_poison w"
  shows "refuses (guarded E err fname (when_ok (check_alloc E what priv p err fname') k)) w"
proof -
  obtain m where "check_alloc E what priv p err fname' w = (Done None, w\<lparr>cw_mem := m\<rparr>)"
    using poisoned_check [OF assms] by blast
  then show ?thesis by (auto simp: refuses_def guarded_def when_ok_def c_bind_def c_ret_def)
qed

lemma refuses_init:
  assumes "cw_poison w"
  shows "refuses (guarded E err fname (when_ok (c_bind (check_alloc E what priv p err fname')
    (\<lambda>r. case r of None \<Rightarrow> c_ret None | Some h \<Rightarrow> g h)) k)) w"
proof -
  obtain m where "check_alloc E what priv p err fname' w = (Done None, w\<lparr>cw_mem := m\<rparr>)"
    using poisoned_check [OF assms] by blast
  then show ?thesis by (auto simp: refuses_def guarded_def when_ok_def c_bind_def c_ret_def)
qed

lemma refuses_new: "cw_poison w \<Longrightarrow>
    refuses (guarded E err fname (\<lambda>w. if cw_poison w then c_fail E err text StatusInternal w else f w)) w"
  by (auto simp: refuses_def guarded_def c_fail_def with_mem_def)

lemmas check_defs = check_db_init_def check_conn_init_def check_stmt_init_def
  check_db_alloc_def check_conn_alloc_def check_stmt_alloc_def

lemmas database_defs = spark_database_new_def spark_database_init_def spark_database_release_def
  spark_database_set_option_def database_option_defs

lemmas connection_defs = spark_connection_new_def spark_connection_init_def spark_connection_release_def
  spark_connection_cancel_def spark_connection_set_option_def spark_connection_get_info_def
  spark_connection_get_objects_def spark_connection_get_statistics_def
  spark_connection_get_statistic_names_def spark_connection_get_table_schema_def
  spark_connection_get_table_types_def spark_connection_read_partition_def
  spark_connection_commit_def spark_connection_rollback_def connection_option_defs

lemmas statement_defs = spark_statement_new_def spark_statement_release_def spark_statement_cancel_def
  spark_statement_set_option_def spark_statement_prepare_def spark_statement_execute_query_def
  spark_statement_execute_schema_def spark_statement_set_sql_query_def
  spark_statement_set_substrait_plan_def spark_statement_bind_def spark_statement_bind_stream_def
  spark_statement_get_parameter_schema_def spark_statement_execute_partitions_def statement_option_defs

lemma poisoned_refuses:
  assumes "cw_poison w"
  shows "refuses (api_call E err c) w"
proof -
  note r = refuses_alloc [OF assms] refuses_init [OF assms] refuses_new [OF assms]
  have "refuses (database_option E err p x) w" "refuses (connection_option E err p x) w"
    "refuses (statement_option E err p x) w" for p x
    by (cases x; simp only: database_option.simps connection_option.simps statement_option.simps
        database_option_defs connection_option_defs statement_option_defs check_defs r)+
  then show ?thesis
    by (cases c; simp only: api_call.simps database_defs connection_defs statement_defs check_defs r)
qed

section \<open>A sample application\<close>

definition sample_c_libs :: "nat c_libs" where
  "sample_c_libs =
    \<lparr>el_config_text = \<lambda>e. ''config'', el_panic_text = \<lambda>p. ''panic'', el_foreign_release = \<lambda>e. e,
     cl_libs = sample_libs, cl_arrow_version = ''v18'', cl_info_order = \<lambda>m. [], cl_map_order = \<lambda>m. [(''uri'', ''sc://h'')],
     cl_table_next = \<lambda>t n. (False, n), cl_table_err = \<lambda>t n. None,
     cl_import = \<lambda>a s. ImportError ''import'', cl_import_stream = \<lambda>s. StreamImportError ''import''\<rparr>"

definition sample_c_world :: "nat c_world" where
  "sample_c_world =
    \<lparr>cw_mem = \<lparr>cm_errs = \<lambda>a. empty_c_error, cm_blocks = 0\<rparr>, cw_poison = False,
     cw_go = \<lparr>wd_run = sample_runtime, wd_conns = []\<rparr>,
     cw_handles = Map.empty, cw_next_handle = 1,
     cw_dbs = \<lambda>a. None, cw_cnxns = \<lambda>a. None, cw_stmts = \<lambda>a. None,
     cw_streams = \<lambda>a. \<lparr>cs_release = StreamReleased, cs_private = None\<rparr>,
     cw_arrays = \<lambda>a. None, cw_schemas = \<lambda>a. None, cw_parts = \<lambda>a. \<lparr>cp_data = None, cp_num = 0, cp_parts = []\<rparr>,
     cw_next_ctx = 0, cw_live_ctxs = {},
     cw_bytes = \<lambda>a. [], cw_sizes = \<lambda>a. 0, cw_ints = \<lambda>a. 0, cw_doubles = \<lambda>a. 0\<rparr>"

lemma sample_c_libs_ok: "libs_ok sample_c_libs"
  by (simp add: libs_ok_def imports_ok_def sample_c_libs_def sample_lib_fits)

lemma sample_idle: "idle sample_c_world"
proof -
  have "private_of sample_c_world x = None" for x by (cases x) (simp_all add: sample_c_world_def)
  then show ?thesis by (simp add: idle_def sample_c_world_def)
qed

text \<open>The application makes a database with an option and a connection, and asks too early for a
  statement.\<close>

definition sample_calls :: "c_call list" where
  "sample_calls = [DatabaseNew (Some 0), DatabaseSetOption (Some 0) (Some ''uri'') (Some ''sc://h''),
     ConnectionNew (Some 5), StatementNew (Some 5) (Some 7)]"

definition sample_used :: "nat c_world" where
  "sample_used = sample_c_world
    \<lparr>cw_mem := \<lparr>cm_errs = \<lambda>a. empty_c_error, cm_blocks = 2\<rparr>,
     cw_handles := [1 \<mapsto> ObjDatabase \<lparr>cdb_opts = [''uri'' \<mapsto> ''sc://h''], cdb_db = None\<rparr>,
                    2 \<mapsto> ObjConn \<lparr>ccn_cancel = None, ccn_cnxn = None, ccn_init = None\<rparr>],
     cw_next_handle := 3, cw_dbs := [0 \<mapsto> 1], cw_cnxns := [5 \<mapsto> 2]\<rparr>"

definition sample_events :: "event list" where
  "sample_events = map2 Called sample_calls [StatusOK, StatusOK, StatusOK, StatusInvalidState]"

fun call_all :: "'srv c_libs \<Rightarrow> c_call list \<Rightarrow> 'srv c_world \<Rightarrow> status list \<times> 'srv c_world" where
  "call_all E [] w = ([], w)"
| "call_all E (c # cs) w = (case api_call E None c w of (code, w1) \<Rightarrow>
     (case call_all E cs w1 of (codes, w2) \<Rightarrow> (code # codes, w2)))"

fun valid_all :: "'srv c_libs \<Rightarrow> c_call list \<Rightarrow> 'srv c_world \<Rightarrow> bool" where
  "valid_all E [] w \<longleftrightarrow> True"
| "valid_all E (c # cs) w \<longleftrightarrow> valid_call w c \<and> valid_all E cs (snd (api_call E None c w))"

lemma call_all_run:
  "valid_all E cs w \<Longrightarrow> call_all E cs w = (codes, w') \<Longrightarrow> app_run E w (map2 Called cs codes) w'"
proof (induction cs arbitrary: w codes)
  case (Cons c cs)
  obtain code w1 where c: "api_call E None c w = (code, w1)" by fastforce
  then obtain codes' where r: "call_all E cs w1 = (codes', w')" "codes = code # codes'"
    using Cons.prems(2) by (auto split: prod.splits)
  have "app_run E w1 (map2 Called cs codes') w'" using Cons.prems(1) c by (intro Cons.IH [OF _ r(1)]) simp
  moreover have "app_run E w [Called c code] w1"
    using Cons.prems(1) c by (intro run_one step_call) auto
  ultimately show ?case using run_trans [of "app_step E" w1 _ w' w "[Called c code]"] r(2) by simp
qed auto

lemma sample_call_all:
  "call_all sample_c_libs sample_calls sample_c_world =
    ([StatusOK, StatusOK, StatusOK, StatusInvalidState], sample_used)"
  by (simp add: sample_calls_def sample_c_world_def sample_used_def database_defs connection_defs
      spark_statement_new_def guarded_def when_ok_def c_bind_def c_ret_def check_defs check_alloc_def
      create_handle_def Let_def get_database_def get_conn_def go_string_def set_handle_def c_fail_in_def
      with_mem_def set_err_in_def put_message_def numeral_2_eq_2)

lemma sample_run: "app_run sample_c_libs sample_c_world sample_events sample_used"
  unfolding sample_events_def
  by (rule call_all_run [OF _ sample_call_all]) (simp add: sample_calls_def)

lemma sample_live: "live sample_used \<subseteq> set [CnxnStruct 5, DbStruct 0]"
proof
  fix x assume "x \<in> live sample_used"
  then show "x \<in> set [CnxnStruct 5, DbStruct 0]"
    by (cases x) (auto simp: live_def sample_used_def sample_c_world_def split: if_splits)
qed

section \<open>Properties\<close>

lemma run_c_ok:
  assumes "idle w0" "libs_ok E" "app_run E w0 es w"
  shows "c_ok (rt_refs (wd_run (cw_go w0))) (rt_streams (wd_run (cw_go w0))) w"
  using app.inv_run [OF assms(3)] idle_c_ok [OF assms(1)] assms(2) by blast

lemma wp_done: "wp m Q w \<Longrightarrow> \<exists>x w'. m w = (Done x, w') \<and> Q x w'"
  by (auto simp: wp_def split: prod.splits outcome.splits)









text \<open>C7: Once the driver has panicked, every function of the driver table on a database, a connection or a
  statement, whatever its arguments, reports an invalid state or an internal error and touches nothing
  but the caller's error: no handle, no structure, no request to the server. The exported functions that
  are not such calls do not look at the flag: the callbacks of streams, \<^verbatim>\<open>SparkErrorFromArrayStream\<close>,
  \<^verbatim>\<open>releasePartitions\<close> and \<^verbatim>\<open>AdbcDriverSparkInit\<close>.\<close>

theorem poisoned_driver_refuses:
  assumes "cw_poison w"
  shows "fst (api_call E err c w) \<in> {StatusInvalidState, StatusInternal} \<and>
    (\<exists>mem. snd (api_call E err c w) = w\<lparr>cw_mem := mem\<rparr>)"
  using poisoned_refuses [OF assms, of E err c] by (auto simp: refuses_def)

theorem poisoned_driver_refuses_witness:
  "fst (api_call sample_c_libs None (DatabaseNew (Some 1)) (sample_used\<lparr>cw_poison := True\<rparr>))
    \<in> {StatusInvalidState, StatusInternal}"
  using poisoned_driver_refuses [of "sample_used\<lparr>cw_poison := True\<rparr>" sample_c_libs None "DatabaseNew (Some 1)"]
  by simp

end
