(* ===== verification/C_Results.thy ===== *)
theory C_Results
  imports C_Safety
begin

text \<open>
  What a caller reads from an exported stream. Pulling it as often as it likes, it gets the records
  of the reader behind the stream one by one, then the end or the error that ended the result; after
  \<^verbatim>\<open>AdbcStatementExecuteQuery\<close> these are the records the server answered with.
\<close>

section \<open>Pulling a stream\<close>

text \<open>Calling the callback \<^verbatim>\<open>get_next\<close> a number of times, with what each call returned and left in the array.\<close>

fun pull :: "'srv c_libs \<Rightarrow> nat \<Rightarrow> nat \<Rightarrow> nat \<Rightarrow> 'srv c_world \<Rightarrow> (errno \<times> exported option) list \<times> 'srv c_world" where
  "pull E s a 0 w = ([], w)"
| "pull E s a (Suc k) w = (case spark_array_stream_get_next_trampoline E (Some s) (Some a) w of
     (Panicked p, w1) \<Rightarrow> ([], w1)
   | (Done no, w1) \<Rightarrow> (case pull E s a k w1 of (xs, w2) \<Rightarrow> ((no, cw_arrays w1 a) # xs, w2)))"

definition end_errno :: "go_error option \<Rightarrow> errno" where
  "end_errno e = (case e of None \<Rightarrow> ENone | Some x \<Rightarrow> errno_of (error_status x))"

text \<open>The records, then the end for ever.\<close>

definition answers :: "record_batch list \<Rightarrow> go_error option \<Rightarrow> nat \<Rightarrow> (errno \<times> exported option) list" where
  "answers xs fin k =
    take k (map (\<lambda>b. (ENone, Some (ExportedBatch b))) xs) @ replicate (k - length xs) (end_errno fin, None)"

lemma answers_0 [simp]: "answers xs fin 0 = []"
  by (simp add: answers_def)

lemma answers_Suc [simp]:
  "answers [] fin (Suc k) = (end_errno fin, None) # answers [] fin k"
  "answers (x # xs) fin (Suc k) = (ENone, Some (ExportedBatch x)) # answers xs fin k"
  by (simp_all add: answers_def)

text \<open>The stream at an address is one of a result, with some records left and an error to come.\<close>

definition stream_yields :: "'srv c_libs \<Rightarrow> 'srv c_world \<Rightarrow> nat \<Rightarrow> record_batch list \<Rightarrow> go_error option \<Rightarrow> bool" where
  "stream_yields E w s xs fin \<longleftrightarrow> (\<exists>h x r. private_of w (StreamStruct s) = Some h \<and>
     cw_handles w h = Some (ObjStream x) \<and> cas_rdr x = ResultReader r \<and>
     remaining (cl_libs E) r = xs \<and> final_error (cl_libs E) r = fin)"

lemma adbc_status_eq: "err_to_adbc_err E p (Some e) m = (code, m') \<Longrightarrow> code = error_status e"
  by (metis err_to_adbc_err_status(2) fst_conv)

lemma maybe_error_cases:
  assumes "maybe_error E s m = (no, s', m')"
  shows "cas_rdr s' = cas_rdr s" "no = end_errno (rdr_err E (cas_rdr s))"
    "rdr_err E (cas_rdr s) = Some e \<Longrightarrow> cas_status s' = error_status e \<and> cas_err s' \<noteq> None"
  using assms
  by (auto simp: maybe_error_def Let_def end_errno_def dest: adbc_status_eq split: option.splits prod.splits)

text \<open>One pull.\<close>

lemma get_next_yields:
  assumes ok: "c_ok R S w" and str: "stream_yields E w s xs fin"
  shows "wp (spark_array_stream_get_next E (Some s) (Some a)) (\<lambda>no w'. c_ok R S w' \<and>
    stream_yields E w' s (tl xs) fin \<and> (no, cw_arrays w' a) # answers (tl xs) fin k = answers xs fin (Suc k) \<and>
    (\<forall>e. xs = [] \<longrightarrow> fin = Some e \<longrightarrow>
      (\<exists>ce. spark_error_from_array_stream (Some s) w' = (Done (Some (error_status e), Some ce), w')))) w"
    (is "wp _ (\<lambda>no w'. c_ok R S w' \<and> ?Q no w') w")
proof -
  obtain h x r where h: "private_of w (StreamStruct s) = Some h" "cw_handles w h = Some (ObjStream x)"
      and r: "cas_rdr x = ResultReader r" "remaining (cl_libs E) r = xs" "final_error (cl_libs E) r = fin"
    using str unfolding stream_yields_def by blast
  obtain b r' run where n: "reader_next (cl_libs E) (r, wd_run (cw_go w)) = (b, r', run)" by (metis prod_cases3)
  have nx: "next_ok (cl_libs E) (r, wd_run (cw_go w)) b (r', run)" by (rule reader_next_ok [OF n])
  have our: "our_stream (Some s) w = Some h" using h(1) by (simp add: our_stream_def split: if_splits)
  let ?x = "x\<lparr>cas_rdr := ResultReader r'\<rparr>"
  let ?w = "set_handle h (ObjStream ?x) (put_run run w)"
  have get: "spark_array_stream_get_next E (Some s) (Some a) w =
    (if b then (Done ENone, ?w\<lparr>cw_arrays := (cw_arrays ?w)(a \<mapsto> ExportedBatch (the (cur_batch (r', run))))\<rparr>)
     else stream_maybe_error E h ?x (?w\<lparr>cw_arrays := (cw_arrays ?w)(a := None)\<rparr>))"
    using our h(2) n r(1) nx
    by (auto simp: spark_array_stream_get_next_def c_bind_def get_stream_def rdr_next_def Let_def rdr_batch_def
        put_run_def set_handle_def next_ok_def cur_batch_def)
  obtain no w' where g: "spark_array_stream_get_next E (Some s) (Some a) w = (Done no, w')" "c_ok R S w'"
    using wp_done [OF spark_array_stream_get_next_ok [OF ok, of "Some a" E "Some s"]] by auto
  have "?Q no w'"
  proof (cases b)
    case True
    then have "xs \<noteq> []" "tl xs = remaining (cl_libs E) r'" "cur_batch (r', run) = Some (hd xs)"
      "final_error (cl_libs E) r' = fin"
      using nx r by (auto simp: next_ok_def cur_batch_def)
    moreover from this have "stream_yields E w' s (tl xs) fin"
      using g(1) get True h
      by (auto simp: stream_yields_def put_run_def set_handle_def split: if_splits)
    ultimately show ?thesis using g(1) get True by (cases xs) (auto simp: set_handle_def put_run_def)
  next
    case False
    obtain no' x' m where m: "maybe_error E ?x (cw_mem w) = (no', x', m)" by (metis prod_cases3)
    note mc = maybe_error_cases [OF m]
    have e: "rdr_err E (ResultReader r') = fin" "xs = []" "remaining (cl_libs E) r' = []"
      "final_error (cl_libs E) r' = fin"
      using nx r False by (auto simp: next_ok_def rdr_err_def)
    have w': "no = no'" "w' = set_handle h (ObjStream x')
        ((set_handle h (ObjStream ?x) (put_run run w))\<lparr>cw_arrays := (cw_arrays w)(a := None), cw_mem := m\<rparr>)"
      using g(1) get False m by (auto simp: stream_maybe_error_def set_handle_def put_run_def)
    have "stream_yields E w' s [] fin"
      using w'(2) mc(1) h(1) e by (auto simp: stream_yields_def set_handle_def put_run_def)
    moreover have "our_stream (Some s) w' = Some h"
      using our w'(2) by (simp add: our_stream_def set_handle_def put_run_def split: if_splits)
    moreover have "cw_handles w' h = Some (ObjStream x')" "cw_arrays w' a = None"
      using w'(2) by (simp_all add: set_handle_def put_run_def)
    ultimately show ?thesis
      using w'(1) mc(2,3) e
      by (auto simp: spark_error_from_array_stream_def c_bind_def get_stream_def c_ret_def)
  qed
  with g show ?thesis by (simp add: wp_def)
qed

lemma pull_yields:
  assumes "c_ok R S w" "stream_yields E w s xs fin"
  shows "fst (pull E s a k w) = answers xs fin k \<and>
    (\<forall>e. fin = Some e \<longrightarrow> length xs < k \<longrightarrow>
      (\<exists>ce. fst (spark_error_from_array_stream (Some s) (snd (pull E s a k w))) =
        Done (Some (error_status e), Some ce)))"
  using assms
proof (induction k arbitrary: xs w)
  case (Suc k)
  let ?w = "w\<lparr>cw_arrays := (cw_arrays w)(a := None)\<rparr>"
  have w: "c_ok R S ?w" "stream_yields E ?w s xs fin"
    using Suc.prems by (simp_all add: stream_yields_def)
  obtain no w1 where g: "spark_array_stream_get_next E (Some s) (Some a) ?w = (Done no, w1)" "c_ok R S w1"
      "stream_yields E w1 s (tl xs) fin" "(no, cw_arrays w1 a) # answers (tl xs) fin k = answers xs fin (Suc k)"
      "\<And>e. xs = [] \<Longrightarrow> fin = Some e \<Longrightarrow>
        \<exists>ce. spark_error_from_array_stream (Some s) w1 = (Done (Some (error_status e), Some ce), w1)"
    using wp_done [OF get_next_yields [OF w, of a k]] by blast
  note IH = Suc.IH [OF g(2,3)]
  have p: "pull E s a (Suc k) w = ((no, cw_arrays w1 a) # fst (pull E s a k w1), snd (pull E s a k w1))"
    using g(1) by (simp add: spark_array_stream_get_next_trampoline_def case_prod_beta)
  have "\<exists>ce. fst (spark_error_from_array_stream (Some s) (snd (pull E s a (Suc k) w))) =
      Done (Some (error_status e), Some ce)" if e: "fin = Some e" "length xs < Suc k" for e
  proof (cases k)
    case 0
    then show ?thesis using e g(5) p by auto
  next
    case (Suc j)
    have "length (tl xs) < k" using e Suc by (cases xs) auto
    then show ?thesis using IH e p by simp
  qed
  then show ?case using IH g(4) p by simp
qed simp

section \<open>The result of a query\<close>

text \<open>The statement of a structure.\<close>

definition stmt_at :: "'srv c_world \<Rightarrow> nat \<Rightarrow> statement option" where
  "stmt_at w p = (case cw_stmts w p of None \<Rightarrow> None
     | Some h \<Rightarrow> (case cw_handles w h of Some (ObjStmt x) \<Rightarrow> cst_stmt x | _ \<Rightarrow> None))"

lemma export_yields:
  assumes "rd_refs r = 1"
  shows "wp (export_and_release (ResultReader r) (Some s)) (\<lambda>code w'. code = StatusOK \<and>
    stream_yields E w' s (remaining (cl_libs E) r) (final_error (cl_libs E) r)) w"
  using export_and_release_eq [of "ResultReader r" s w] assms
  by (simp add: wp_def stream_yields_def)

lemma guarded_wp: "wp body Q w \<Longrightarrow> Q (fst (guarded E err fname body w)) (snd (guarded E err fname body w))"
  by (auto simp: wp_def guarded_def split: prod.splits outcome.splits)

text \<open>A query that filled its stream: a reader of the answer of the server is in it.\<close>

definition query_answered :: "'srv c_libs \<Rightarrow> nat \<Rightarrow> nat \<Rightarrow> 'srv c_world \<Rightarrow> 'srv c_world \<Rightarrow> bool" where
  "query_answered E p s w w' \<longleftrightarrow> (\<exists>st c args msgs. stmt_at w p = Some st \<and> stmt_client st (cw_go w) = Some c \<and>
     positional_literals (lib_decimal (cl_libs E)) st = Some (Inr args) \<and>
     answer_of (cl_libs E) c [] (st_query st) args (wd_run (cw_go w)) = Inr msgs \<and>
     stream_yields E w' s (fst (delivered (cl_libs E) msgs)) (snd (delivered (cl_libs E) msgs)))"

lemma execute_query_yields:
  assumes ok: "c_ok R S w" and free: "private_of w (StreamStruct s) = None"
    and call: "spark_statement_execute_query E (Some p) (Some s) n err w = (code, w')"
    and filled: "private_of w' (StreamStruct s) \<noteq> None"
  shows "code = StatusOK \<and> query_answered E p s w w'"
proof -
  let ?Q = "\<lambda>code w'. private_of w' (StreamStruct s) \<noteq> None \<longrightarrow> code = StatusOK \<and> query_answered E p s w w'"
  have "?Q (fst (spark_statement_execute_query E (Some p) (Some s) n err w))
      (snd (spark_statement_execute_query E (Some p) (Some s) n err w))"
    unfolding spark_statement_execute_query_def
  proof (rule guarded_wp [OF after_stmt_init [OF ok]])
    fix m show "?Q StatusInvalidState (w\<lparr>cw_mem := m\<rparr>)" using free by simp
  next
    fix a h x st assume h: "Some p = Some a" "cw_stmts w a = Some h" "cw_handles w h = Some (ObjStmt x)"
      "cst_stmt x = Some st"
    obtain cs w1 where c: "stmt_new_context h x w = (cs, w1)" by fastforce
    note fr = stmt_new_context_frame [OF c]
    have go: "cw_go w1 = cw_go w" using fr(1) .
    have free1: "private_of (put_go W w1) (StreamStruct s) = None" for W
      using free stmt_context_streams [OF c] by simp
    have at: "stmt_at w p = Some st" using h by (simp add: stmt_at_def)
    obtain res k W where q: "execute_query (cl_libs E) [] st (cw_go w1) = Some (res, k, W)"
      using execute_query_total [OF stmt_params_ok [OF ok h(3,4)]] by blast
    have "wp (case (h, x, st) of (h, cs, st) \<Rightarrow> (\<lambda>w.
      case stmt_new_context h cs w of (cs1, w1) \<Rightarrow>
        if Some s = None then
          (case execute_update (cl_libs E) [] st (cw_go w1) of
             None \<Rightarrow> (Panicked DriverPanic, w1)
           | Some (Some e, n, W) \<Rightarrow> c_status E err (Some e) (put_go W w1)
           | Some (None, k, W) \<Rightarrow> (Done StatusOK, put_affected n k (put_go W w1)))
        else
          (case execute_query (cl_libs E) [] st (cw_go w1) of
             None \<Rightarrow> (Panicked DriverPanic, w1)
           | Some (Inl e, n, W) \<Rightarrow> c_status E err (Some e) (put_go W w1)
           | Some (Inr r, k, W) \<Rightarrow>
               export_and_release (ResultReader r) (Some s) (put_affected n k (put_go W w1))))) ?Q w"
    proof (cases res)
      case (Inl e)
      then show ?thesis using c q free1 by (simp add: wp_def c_status_eq split: if_splits)
    next
      case (Inr r)
      obtain cl args msgs where a: "stmt_client st (cw_go w) = Some cl"
          "positional_literals (lib_decimal (cl_libs E)) st = Some (Inr args)"
          "answer_of (cl_libs E) cl [] (st_query st) args (wd_run (cw_go w)) = Inr msgs"
          "remaining (cl_libs E) r = fst (delivered (cl_libs E) msgs)"
          "final_error (cl_libs E) r = snd (delivered (cl_libs E) msgs)" "rd_refs r = 1"
        using execute_query_answer [OF q [unfolded Inr go]] by blast
      have "wp (export_and_release (ResultReader r) (Some s)) ?Q (put_affected n k (put_go W w1))"
        by (rule wp_conseq [OF export_yields [OF a(6), of s E]]) (use a at in \<open>auto simp: query_answered_def\<close>)
      then show ?thesis using c q Inr by (simp add: wp_def)
    qed
    then show "wp (case (h, x, st) of (h, cs, st) \<Rightarrow> (\<lambda>w.
      case stmt_new_context h cs w of (cs1, w1) \<Rightarrow>
        if Some s = None then
          (case execute_update (cl_libs E) [] st (cw_go w1) of
             None \<Rightarrow> (Panicked DriverPanic, w1)
           | Some (Some e, n, W) \<Rightarrow> c_status E err (Some e) (put_go W w1)
           | Some (None, k, W) \<Rightarrow> (Done StatusOK, put_affected n k (put_go W w1)))
        else
          (case execute_query (cl_libs E) [] st (cw_go w1) of
             None \<Rightarrow> (Panicked DriverPanic, w1)
           | Some (Inl e, n, W) \<Rightarrow> c_status E err (Some e) (put_go W w1)
           | Some (Inr r, k, W) \<Rightarrow>
               export_and_release (ResultReader r) (Some s) (put_affected n k (put_go W w1))))) ?Q w" .
  qed
  with call filled show ?thesis by simp
qed

section \<open>Properties\<close>

text \<open>C3: When \<^verbatim>\<open>AdbcStatementExecuteQuery\<close> fills a stream, it has returned OK and the caller reads from
  the stream exactly what the server answered to the statement's query with its parameters: calling
  \<^verbatim>\<open>get_next\<close> any number of times gives the delivered records in order, each once, and from then on
  either the end of the stream or the errno of the error that ended the answer; and
  \<^verbatim>\<open>AdbcErrorFromArrayStream\<close> then gives the status of that error. \<open>c_ok\<close> holds in every state an
  application reaches.\<close>

theorem query_results_reach_caller:
  assumes "c_ok R S w" "private_of w (StreamStruct s) = None"
    and "spark_statement_execute_query E (Some p) (Some s) n err w = (code, w')"
    and "private_of w' (StreamStruct s) \<noteq> None"
  shows "code = StatusOK \<and>
    (\<exists>st c args msgs. stmt_at w p = Some st \<and> stmt_client st (cw_go w) = Some c \<and>
      positional_literals (lib_decimal (cl_libs E)) st = Some (Inr args) \<and>
      answer_of (cl_libs E) c [] (st_query st) args (wd_run (cw_go w)) = Inr msgs \<and>
      (\<forall>k a. fst (pull E s a k w') =
        answers (fst (delivered (cl_libs E) msgs)) (snd (delivered (cl_libs E) msgs)) k) \<and>
      (\<forall>k a e. snd (delivered (cl_libs E) msgs) = Some e \<longrightarrow> length (fst (delivered (cl_libs E) msgs)) < k \<longrightarrow>
        (\<exists>ce. fst (spark_error_from_array_stream (Some s) (snd (pull E s a k w'))) =
          Done (Some (error_status e), Some ce))))"
proof -
  have q: "code = StatusOK" "query_answered E p s w w'"
    using execute_query_yields [OF assms] by blast+
  have ok: "c_ok R S w'"
    using spark_statement_execute_query_ok [OF assms(1), of "Some s" E "Some p" n err] assms(2,3)
    by (simp add: free_stream_def)
  show ?thesis
    using q pull_yields [OF ok] unfolding query_answered_def by blast
qed

definition sample_query :: statement where
  "sample_query = \<lparr>st_cnxn = Some 0, st_query = ''q'', st_params = None, st_prepared = False\<rparr>"

definition sample_ready :: "nat c_world" where
  "sample_ready = sample_c_world
    \<lparr>cw_go := sample_world, cw_handles := [1 \<mapsto> ObjStmt \<lparr>cst_cancel = None, cst_stmt = Some sample_query\<rparr>],
     cw_next_handle := 2, cw_stmts := [7 \<mapsto> 1]\<rparr>"

lemma sample_ready_ok: "c_ok (rt_refs sample_runtime) (rt_streams sample_runtime) sample_ready"
proof -
  have p: "private_of sample_ready x = (if x = StmtStruct 7 then Some 1 else None)" for x
    by (cases x) (simp_all add: sample_ready_def sample_c_world_def)
  have h: "cw_handles sample_ready = [1 \<mapsto> ObjStmt \<lparr>cst_cancel = None, cst_stmt = Some sample_query\<rparr>]"
    by (simp add: sample_ready_def)
  have "ptrs_ok (private_of sample_ready) (cw_handles sample_ready)"
    unfolding ptrs_ok_def h p by simp
  moreover have "objs_ok (cw_go sample_ready) (cw_next_handle sample_ready) (cw_handles sample_ready)"
    by (simp add: objs_ok_def h sample_ready_def sample_query_def sample_world_def params_ok_def)
  ultimately show ?thesis
    unfolding c_ok_def
    by (simp add: h unshared_def ctxs_ok_def owned_def books_ok_def total_def stmt_holds_def sample_query_def)
      (simp add: sample_ready_def sample_c_world_def sample_world_def)
qed

lemma sample_ready_query:
  "private_of (snd (spark_statement_execute_query sample_c_libs (Some 7) (Some 3) None None sample_ready))
    (StreamStruct 3) \<noteq> None"
proof -
  have a: "stmt_client sample_query sample_world = Some 0" "st_query sample_query \<noteq> []"
    "positional_literals (lib_decimal sample_libs) sample_query = Some (Inr [])"
    by (simp_all add: sample_query_def sample_world_def stmt_client_def conn_client_def positional_literals_def)
  obtain res w where x: "execute_plan sample_libs 0 [] (sql_plan (st_query sample_query) []) sample_runtime = (res, w)"
    by fastforce
  have "fst (plan_answer sample_libs 0 [] (sql_plan (st_query sample_query) []) sample_runtime) = Inr sample_stream"
    by (simp add: plan_answer_def plan_request_def sql_plan_def sample_libs_def sample_query_def query_of_def)
  then obtain r where r: "res = Inr r" "rd_refs r = 1"
    using execute_plan_ok(1) [OF x] sample_delivered by (cases res) (auto simp: executed_def)
  have run: "wd_run sample_world = sample_runtime" by (simp add: sample_world_def)
  have "execute_query sample_libs [] sample_query sample_world = Some (Inr r, -1, sample_world\<lparr>wd_run := w\<rparr>)"
    using execute_query_open [OF a, of "[]"] x r by (simp add: run)
  moreover have "export_and_release (ResultReader r) (Some 3) W = (Done StatusOK,
    W\<lparr>cw_handles := (cw_handles W)(cw_next_handle W \<mapsto>
        ObjStream \<lparr>cas_rdr = ResultReader r, cas_err = None, cas_status = StatusOK\<rparr>),
      cw_next_handle := cw_next_handle W + 1, cw_mem := (cw_mem W)\<lparr>cm_blocks := cm_blocks (cw_mem W) + 1\<rparr>,
      cw_streams := (cw_streams W)(3 := \<lparr>cs_release = SparkStreamRelease, cs_private = Some (cw_next_handle W)\<rparr>)\<rparr>)"
    for W :: "nat c_world" using r(2) by (intro export_and_release_eq) simp
  ultimately show ?thesis
    by (simp add: spark_statement_execute_query_def guarded_def when_ok_def check_defs c_bind_def c_ret_def
        check_alloc_def sample_ready_def sample_c_world_def get_stmt_def stmt_new_context_def new_context_def
        Let_def cancel_context_def set_handle_def sample_c_libs_def)
qed

theorem query_results_reach_caller_witness:
  "fst (pull sample_c_libs 3 4 3
      (snd (spark_statement_execute_query sample_c_libs (Some 7) (Some 3) None None sample_ready))) =
    [(ENone, Some (ExportedBatch (sample_batch ''ab''))), (ENone, Some (ExportedBatch (sample_batch ''cd''))),
     (ENone, None)]"
proof -
  have free: "private_of sample_ready (StreamStruct 3) = None" by (simp add: sample_ready_def sample_c_world_def)
  have st: "stmt_at sample_ready 7 = Some sample_query" by (simp add: stmt_at_def sample_ready_def)
  have c: "stmt_client sample_query (cw_go sample_ready) = Some 0"
    by (simp add: sample_query_def sample_ready_def sample_world_def stmt_client_def conn_client_def)
  have args: "positional_literals D sample_query = Some (Inr [])" for D
    by (simp add: sample_query_def positional_literals_def)
  have msgs: "answer_of (cl_libs sample_c_libs) 0 [] (st_query sample_query) [] (wd_run (cw_go sample_ready)) =
      Inr sample_stream"
    by (simp add: answer_of_def plan_answer_def plan_request_def sql_plan_def sample_c_libs_def sample_libs_def
        sample_query_def query_of_def)
  have L: "cl_libs sample_c_libs = sample_libs" by (simp add: sample_c_libs_def)
  have "fst (pull sample_c_libs 3 4 3
      (snd (spark_statement_execute_query sample_c_libs (Some 7) (Some 3) None None sample_ready))) =
    answers [sample_batch ''ab'', sample_batch ''cd''] None 3"
    using query_results_reach_caller [OF sample_ready_ok free surjective_pairing sample_ready_query] st c args msgs
    by (auto simp: L sample_delivered)
  then show ?thesis by (simp add: answers_def end_errno_def)
qed

section \<open>Partitions\<close>

text \<open>What a caller reads from the structure: \<^verbatim>\<open>num_partitions\<close> partitions, each by its offset and
  length. \<open>None\<close> is a pointer and a length that nobody has written.\<close>

definition read_partitions :: "c_partitions \<Rightarrow> string option list" where
  "read_partitions p = map (\<lambda>i. map_option (\<lambda>(off, n). take n (drop off (the (cp_data p)))) (cp_parts p ! i))
     [0..<cp_num p]"

lemma last_empty_concat: "concat ids = [] \<Longrightarrow> ids \<noteq> [] \<Longrightarrow> last ids = []"
  by simp

lemma copy_partitions_fails:
  "snd (copy_partitions num off (length (concat ids)) ids) = None \<longleftrightarrow>
    length ids \<le> num \<and> (ids = [] \<or> last ids \<noteq> [])"
proof (induction ids arbitrary: num off)
  case (Cons p ps)
  then show ?case by (cases num) (auto simp: last_empty_concat)
qed simp

lemma copy_partitions_reads:
  assumes "snd (copy_partitions num off (length (concat ids)) ids) = None" "length pre = off"
  shows "map (\<lambda>(o', n). take n (drop o' (pre @ concat ids))) (fst (copy_partitions num off (length (concat ids)) ids)) = ids"
  using assms
proof (induction ids arbitrary: num off pre)
  case (Cons p ps)
  have "snd (copy_partitions (num - 1) (off + length p) (length (concat ps)) ps) = None"
    using Cons.prems(1) by (auto split: if_splits)
  from Cons.IH [OF this, of "pre @ p"] Cons.prems show ?case by (auto split: if_splits)
qed simp

lemma copy_partitions_length:
  "snd (copy_partitions num off dst ids) = None \<Longrightarrow> length (fst (copy_partitions num off dst ids)) = length ids"
  by (induction num off dst ids rule: copy_partitions.induct) (auto split: if_splits)

lemma map_index_map: "length xs = n \<Longrightarrow> map (\<lambda>i. g (xs ! i)) [0..<n] = map g xs"
  by (rule nth_equalityI) simp_all

text \<open>C37: a caller that goes through the \<^verbatim>\<open>num_partitions\<close> entries of an export reads the partitions as
  they were given, by their offsets and lengths in one C block, and after them, when
  \<^verbatim>\<open>NumPartitions\<close> says more than there are, entries that were never initialized; so it reads exactly the
  partitions when, and only when, the two numbers agree. Releasing the export frees every block of it and
  marks it released. The export panics exactly when there are more partitions than
  \<^verbatim>\<open>NumPartitions\<close> says or the last one is empty, because the code takes the address of the first byte of
  what is left of the block.\<close>

theorem partitions_read_back:
  "(fst (export_partitions part a w) = Done StatusOK \<longleftrightarrow>
      length (part_ids part) \<le> part_num part \<and> (part_ids part = [] \<or> last (part_ids part) \<noteq> [])) \<and>
   (fst (export_partitions part a w) = Done StatusOK \<longrightarrow>
      read_partitions (cw_parts (snd (export_partitions part a w)) a) =
        map Some (part_ids part) @ replicate (part_num part - length (part_ids part)) None \<and>
      (read_partitions (cw_parts (snd (export_partitions part a w)) a) = map Some (part_ids part) \<longleftrightarrow>
        part_num part = length (part_ids part)) \<and>
      (\<exists>w'. release_partitions (Some a) (snd (export_partitions part a w)) = (Done (), w') \<and>
        cp_data (cw_parts w' a) = None \<and> cm_blocks (cw_mem w') = cm_blocks (cw_mem w)))"
proof -
  let ?ids = "part_ids part" and ?num = "part_num part"
  let ?c = "copy_partitions ?num 0 (length (concat ?ids)) ?ids"
  obtain ls failed where c: "?c = (ls, failed)" by fastforce
  have fails: "failed = None \<longleftrightarrow> length ?ids \<le> ?num \<and> (?ids = [] \<or> last ?ids \<noteq> [])"
    using copy_partitions_fails [of ?num 0 ?ids] c by simp
  show ?thesis
  proof (cases failed)
    case None
    have num: "length ls = length ?ids" "length ?ids \<le> ?num"
      using copy_partitions_length [of ?num 0 "length (concat ?ids)" ?ids] c None fails by simp_all
    let ?cells = "map Some ls @ replicate (?num - length ls) None"
    let ?f = "\<lambda>(off, n). take n (drop off (concat ?ids))"
    have "map ?f ls = ?ids"
      using copy_partitions_reads [of ?num 0 ?ids "[]"] c None by simp
    then have "map Some ?ids = map (Some \<circ> ?f) ls" by (metis map_map)
    also have "\<dots> = map (map_option ?f) (map Some ls)" by simp
    finally have "map (map_option ?f) ?cells = map Some ?ids @ replicate (?num - length ?ids) None"
      using num(1) by (simp add: map_replicate)
    moreover have "map (\<lambda>i. map_option (\<lambda>(off, n). take n (drop off (concat ?ids))) (?cells ! i)) [0..<?num] =
        map (map_option (\<lambda>(off, n). take n (drop off (concat ?ids)))) ?cells"
      using num by (intro map_index_map) simp
    ultimately have "read_partitions (cw_parts (snd (export_partitions part a w)) a) =
        map Some ?ids @ replicate (?num - length ?ids) None"
      using None by (simp add: export_partitions_def c Let_def read_partitions_def with_mem_def)
    then show ?thesis using fails None num
      by (auto simp: export_partitions_def c Let_def release_partitions_def with_mem_def)
  next
    case (Some x)
    then show ?thesis using fails by (simp add: export_partitions_def c Let_def)
  qed
qed

theorem partitions_read_back_witness:
  "read_partitions (cw_parts (snd (export_partitions \<lparr>part_num = 4, part_ids = [''ab'', [], ''c'']\<rparr> 9 sample_c_world)) 9) =
    [Some ''ab'', Some [], Some ''c'', None]"
  using partitions_read_back [of "\<lparr>part_num = 4, part_ids = [''ab'', [], ''c'']\<rparr>" 9 sample_c_world] by simp

section \<open>Option values\<close>

text \<open>C38: The export of an option value to a caller's buffer: whatever the buffer, the call reports the
  size the value needs (with the terminating zero of a string); when the length the caller gave is
  smaller, nothing is written; otherwise the value is written at the start of the buffer and no byte
  behind it is touched, so nothing is written beyond the given length. A caller that first asks with
  length 0 and then with a buffer of the reported size gets exactly the value.\<close>

theorem option_value_fits_buffer:
  assumes "cw_sizes w l \<le> length (cw_bytes w b)"
  shows "(\<exists>w'. export_string_option v (Some b) (Some l) w = (Done StatusOK, w') \<and>
      cw_sizes w' = (cw_sizes w)(l := length v + 1) \<and>
      cw_bytes w' = (if length v + 1 \<le> cw_sizes w l
        then (cw_bytes w)(b := v @ [CHR 0x00] @ drop (length v + 1) (cw_bytes w b)) else cw_bytes w) \<and>
      length (cw_bytes w' b) = length (cw_bytes w b)) \<and>
    (\<exists>w'. export_bytes_option v (Some b) (Some l) w = (Done StatusOK, w') \<and>
      cw_sizes w' = (cw_sizes w)(l := length v) \<and>
      cw_bytes w' = (if length v \<le> cw_sizes w l
        then (cw_bytes w)(b := v @ drop (length v) (cw_bytes w b)) else cw_bytes w) \<and>
      length (cw_bytes w' b) = length (cw_bytes w b)) \<and>
    (cw_sizes w l = 0 \<longrightarrow> (\<exists>w1. export_string_option v None (Some l) w = (Done StatusOK, w1) \<and>
      cw_bytes w1 = cw_bytes w \<and>
      (\<forall>buf. length buf = cw_sizes w1 l \<longrightarrow>
        (\<exists>w2. export_string_option v (Some b) (Some l) (w1\<lparr>cw_bytes := (cw_bytes w1)(b := buf)\<rparr>) = (Done StatusOK, w2) \<and>
          cw_bytes w2 b = v @ [CHR 0x00]))))"
  using assms
  by (auto simp: export_string_option_def export_bytes_option_def Let_def write_bytes_def)

theorem option_value_fits_buffer_witness:
  "\<exists>w'. export_string_option ''xy'' (Some 1) (Some 0) (sample_c_world\<lparr>cw_sizes := \<lambda>l. 4, cw_bytes := \<lambda>b. ''abcd''\<rparr>) =
      (Done StatusOK, w') \<and> cw_bytes w' 1 = [CHR ''x'', CHR ''y'', CHR 0x00, CHR ''d'']"
  using option_value_fits_buffer [of "sample_c_world\<lparr>cw_sizes := \<lambda>l. 4, cw_bytes := \<lambda>b. ''abcd''\<rparr>" 0 1 "''xy''"]
  by auto

end
