(* ===== verification/Examples.thy ===== *)
theory Examples
  imports Driver_Calls Sample_Service
begin

text \<open>
  The example programs (\<^verbatim>\<open>examples/go\<close>): applications written against the driver. Each opens a database
  and a connection, does its work and prints; every object is closed by a deferred call, which runs on
  every way out, a panic of the program included. They are the composition of the driver's parts as
  its documentation shows it. The text of a schema and of a type, the value Arrow stores under a null
  cell and its readers of in-memory tables are arguments.
\<close>

section \<open>How a program ends and what it prints\<close>

text \<open>\<^verbatim>\<open>run\<close> returns nil, or an error, wrapped with a text or as it is, or it panics.\<close>

datatype run_exit = RunOk | RunFailed "string option" go_error | RunCrashed

text \<open>The driver and the lines printed so far. A program is a function of the state that gives its end,
  or \<open>None\<close> for a panic inside the driver or a loop that does not end.\<close>

type_synonym 'srv shell = "'srv world \<times> string list"
type_synonym 'srv prog = "'srv shell \<Rightarrow> (run_exit \<times> 'srv shell) option"

record arrow_texts =
  at_schema :: "schema \<Rightarrow> string"
  at_type :: "arrow_type \<Rightarrow> string"
  at_null_int :: "int64 option list \<Rightarrow> nat \<Rightarrow> int64"
  at_null_string :: "string option list \<Rightarrow> nat \<Rightarrow> string"
  at_types_reader :: "schema \<times> record_batch \<Rightarrow> record_batch list \<times> go_error option"
  at_objects_reader :: "catalog_row list \<Rightarrow> record_batch list \<times> go_error option"

definition newline :: string where
  "newline = [CHR 0x0A]"

definition result_exit :: "go_error option \<Rightarrow> run_exit" where
  "result_exit e = (case e of None \<Rightarrow> RunOk | Some x \<Rightarrow> RunFailed None x)"

text \<open>\<^verbatim>\<open>log.Fatal\<close> exits with 1, a panic with 2.\<close>

definition exit_code :: "run_exit \<Rightarrow> nat" where
  "exit_code x = (case x of RunOk \<Rightarrow> 0 | RunFailed pre e \<Rightarrow> 1 | RunCrashed \<Rightarrow> 2)"

fun first_env :: "(string \<Rightarrow> string) \<Rightarrow> string list \<Rightarrow> string" where
  "first_env getenv [] = ''sc://localhost:15002''"
| "first_env getenv (key # keys) = (if getenv key \<noteq> [] then getenv key else first_env getenv keys)"

definition env_endpoint :: "(string \<Rightarrow> string) \<Rightarrow> string" where
  "env_endpoint getenv = first_env getenv [''SPARK_REMOTE'', ''SPARK_CONNECT_URI'']"

definition example_main ::
  "(string \<Rightarrow> string) \<Rightarrow> (string \<Rightarrow> 'srv prog) \<Rightarrow> 'srv shell \<Rightarrow> (nat \<times> 'srv shell) option" where
  "example_main getenv prog s = map_option (apfst exit_code) (prog (env_endpoint getenv) s)"

section \<open>Deferred calls\<close>

text \<open>A database and a connection around a body; \<^verbatim>\<open>Close\<close> of the database does nothing.\<close>

definition with_connection :: "'srv libs \<Rightarrow> string \<Rightarrow> (nat \<Rightarrow> 'srv prog) \<Rightarrow> 'srv prog" where
  "with_connection L uri body s = (case s of (W, out) \<Rightarrow>
    (case new_database (lib_unicode L) [(key_uri, uri)] (rt_heap (wd_run W)) of
       (res, hp) \<Rightarrow>
         (let W1 = W\<lparr>wd_run := (wd_run W)\<lparr>rt_heap := hp\<rparr>\<rparr> in
          case res of
            Inl e \<Rightarrow> Some (RunFailed (Some ''open database: '') e, W1, out)
          | Inr d \<Rightarrow>
              (case open_connection L d W1 of
                 (Inl e, W2) \<Rightarrow> Some (RunFailed (Some ''open connection: '') e, W2, out)
               | (Inr k, W2) \<Rightarrow>
                   map_option (\<lambda>(x, W3, out'). (x, snd (connection_close L k W3), out'))
                     (body k (W2, out))))))"

text \<open>A statement around a body that changes it.\<close>

definition with_statement ::
  "nat \<Rightarrow> string option \<Rightarrow>
     (statement \<Rightarrow> 'srv shell \<Rightarrow> (run_exit \<times> statement \<times> 'srv shell) option) \<Rightarrow> 'srv prog" where
  "with_statement k pre body s = (case s of (W, out) \<Rightarrow>
    (case new_statement k W of
       Inl e \<Rightarrow> Some (RunFailed pre e, W, out)
     | Inr st \<Rightarrow>
         map_option (\<lambda>(x, st', W', out'). (x, snd (statement_close st' W'), out')) (body st (W, out))))"

text \<open>\<^verbatim>\<open>ExecuteQuery\<close>, a header line, the loop over the reader and its deferred \<^verbatim>\<open>Release\<close>. A row body
  that panics leaves what it has printed on the left.\<close>

definition print_result ::
  "'srv libs \<Rightarrow> (schema \<Rightarrow> string) \<Rightarrow> (record_batch \<Rightarrow> string list \<Rightarrow> string list + string list) \<Rightarrow>
     statement \<Rightarrow> 'srv prog" where
  "print_result L header rows st s = (case s of (W, out) \<Rightarrow>
    (case execute_query L [] st W of
       None \<Rightarrow> None
     | Some (Inl e, n, W1) \<Rightarrow> Some (RunFailed (Some ''execute: '') e, W1, out)
     | Some (Inr r, n, W1) \<Rightarrow>
         (case for_next (reader_next L)
            (\<lambda>s out. case cur_batch s of None \<Rightarrow> Inl out | Some b \<Rightarrow> rows b out)
            (r, wd_run W1) (out @ [header (reader_schema r)]) of
            None \<Rightarrow> None
          | Some (res, s') \<Rightarrow>
              (let W2 = W1\<lparr>wd_run := snd (reader_release s')\<rparr> in
               Some (case res of
                  Inl out' \<Rightarrow> (RunCrashed, W2, out')
                | Inr out' \<Rightarrow> (result_exit (reader_err s'), W2, out'))))))"

section \<open>Printing\<close>

text \<open>One line per index; \<open>None\<close> is an index out of range.\<close>

fun print_lines :: "(nat \<Rightarrow> string option) \<Rightarrow> nat list \<Rightarrow> string list \<Rightarrow> string list + string list" where
  "print_lines line [] out = Inr out"
| "print_lines line (i # is) out = (case line i of
     None \<Rightarrow> Inl out
   | Some l \<Rightarrow> print_lines line is (out @ [l]))"

text \<open>\<^verbatim>\<open>Value(i)\<close> does not look at the validity of the cell.\<close>

definition value_at :: "('a option list \<Rightarrow> nat \<Rightarrow> 'a) \<Rightarrow> 'a option list \<Rightarrow> nat \<Rightarrow> 'a option" where
  "value_at null xs i = (if i < length xs
     then Some (case xs ! i of Some v \<Rightarrow> v | None \<Rightarrow> null xs i) else None)"

section \<open>quickstart\<close>

definition quickstart_sql :: string where
  "quickstart_sql = ''SELECT id, id * id AS square FROM range(5)''"

definition quickstart_header :: "arrow_texts \<Rightarrow> schema \<Rightarrow> string" where
  "quickstart_header X sc = ''schema: '' @ at_schema X sc @ newline"

definition quickstart_line :: "arrow_texts \<Rightarrow> int64 option list \<Rightarrow> int64 option list \<Rightarrow> nat \<Rightarrow> string option" where
  "quickstart_line X ids squares i =
    (case (value_at (at_null_int X) ids i, value_at (at_null_int X) squares i) of
       (Some v, Some q) \<Rightarrow> Some (''  id='' @ itoa (sint v) @ '' square='' @ itoa (sint q) @ newline)
     | _ \<Rightarrow> None)"

text \<open>A missing column and a column of another type are panics.\<close>

definition quickstart_rows :: "arrow_texts \<Rightarrow> record_batch \<Rightarrow> string list \<Rightarrow> string list + string list" where
  "quickstart_rows X b out = (case rb_columns b of
     AInt64 ids # AInt64 squares # cols \<Rightarrow> print_lines (quickstart_line X ids squares) [0..<rb_rows b] out
   | _ \<Rightarrow> Inl out)"

definition quickstart_body ::
  "'srv libs \<Rightarrow> arrow_texts \<Rightarrow> statement \<Rightarrow> 'srv shell \<Rightarrow> (run_exit \<times> statement \<times> 'srv shell) option" where
  "quickstart_body L X st s = (case set_sql_query quickstart_sql st of
     (Some e, st1) \<Rightarrow> Some (RunFailed (Some ''set query: '') e, st1, s)
   | (None, st1) \<Rightarrow>
       map_option (\<lambda>(x, s'). (x, st1, s')) (print_result L (quickstart_header X) (quickstart_rows X) st1 s))"

definition quickstart_run :: "'srv libs \<Rightarrow> arrow_texts \<Rightarrow> string \<Rightarrow> 'srv prog" where
  "quickstart_run L X uri = with_connection L uri (\<lambda>k.
     with_statement k (Some ''new statement: '') (quickstart_body L X))"

section \<open>parameters\<close>

definition parameters_sql :: string where
  "parameters_sql = ''SELECT id, ? AS tag FROM range(10) WHERE id > ?''"

definition bind_row :: "'srv runtime \<Rightarrow> batch_ref \<times> 'srv runtime" where
  "bind_row w =
    (let b = (rt_next w, \<lparr>rb_columns = [AString [Some ''matched''], AInt64 [Some 6]], rb_rows = 1\<rparr>)
     in (b, retain_rec b (w\<lparr>rt_next := rt_next w + 1\<rparr>)))"

definition parameters_line :: "arrow_texts \<Rightarrow> int64 option list \<Rightarrow> string option list \<Rightarrow> nat \<Rightarrow> string option" where
  "parameters_line X ids tags i =
    (case (value_at (at_null_int X) ids i, value_at (at_null_string X) tags i) of
       (Some v, Some t) \<Rightarrow> Some (''  id='' @ itoa (sint v) @ '' tag='' @ t @ newline)
     | _ \<Rightarrow> None)"

definition parameters_rows :: "arrow_texts \<Rightarrow> record_batch \<Rightarrow> string list \<Rightarrow> string list + string list" where
  "parameters_rows X b out = (case rb_columns b of
     AInt64 ids # AString tags # cols \<Rightarrow> print_lines (parameters_line X ids tags) [0..<rb_rows b] out
   | _ \<Rightarrow> Inl out)"

definition parameters_header :: "schema \<Rightarrow> string" where
  "parameters_header sc = ''rows where id > 6:'' @ newline"

definition with_params ::
  "(batch_ref \<Rightarrow> 'srv shell \<Rightarrow> (run_exit \<times> statement \<times> 'srv shell) option) \<Rightarrow> 'srv shell \<Rightarrow>
     (run_exit \<times> statement \<times> 'srv shell) option" where
  "with_params body s = (case s of (W, out) \<Rightarrow>
    (case bind_row (wd_run W) of (b, w) \<Rightarrow>
       map_option (\<lambda>(x, st, W', out'). (x, st, W'\<lparr>wd_run := release_rec b (wd_run W')\<rparr>, out'))
         (body b (W\<lparr>wd_run := w\<rparr>, out))))"

definition parameters_body ::
  "'srv libs \<Rightarrow> arrow_texts \<Rightarrow> statement \<Rightarrow> 'srv shell \<Rightarrow> (run_exit \<times> statement \<times> 'srv shell) option" where
  "parameters_body L X st s = (case set_sql_query parameters_sql st of
     (Some e, st1) \<Rightarrow> Some (RunFailed (Some ''set query: '') e, st1, s)
   | (None, st1) \<Rightarrow>
       (case prepare st1 of
          (Some e, st2) \<Rightarrow> Some (RunFailed (Some ''prepare: '') e, st2, s)
        | (None, st2) \<Rightarrow> with_params (\<lambda>b (W, out).
            case bind_params (Some b) st2 W of
              (Some e, st3, W') \<Rightarrow> Some (RunFailed (Some ''bind: '') e, st3, W', out)
            | (None, st3, W') \<Rightarrow>
                map_option (\<lambda>(x, s'). (x, st3, s'))
                  (print_result L parameters_header (parameters_rows X) st3 (W', out))) s))"

definition parameters_run :: "'srv libs \<Rightarrow> arrow_texts \<Rightarrow> string \<Rightarrow> 'srv prog" where
  "parameters_run L X uri = with_connection L uri (\<lambda>k.
     with_statement k (Some ''new statement: '') (parameters_body L X))"

section \<open>metadata\<close>

definition view_sql :: string where
  "view_sql = ''CREATE OR REPLACE TEMPORARY VIEW example_metadata_view AS SELECT id, CAST(id AS STRING) AS label FROM range(3)''"

definition create_view :: "'srv libs \<Rightarrow> nat \<Rightarrow> 'srv prog" where
  "create_view L k = with_statement k None (\<lambda>st (W, out).
     case set_sql_query view_sql st of
       (Some e, st1) \<Rightarrow> Some (RunFailed None e, st1, W, out)
     | (None, st1) \<Rightarrow> (case execute_update L [] st1 W of
         None \<Rightarrow> None
       | Some (e, n, W') \<Rightarrow> Some (result_exit e, st1, W', out)))"

text \<open>The strings of the first column of every record of a reader.\<close>

fun print_names :: "arrow_texts \<Rightarrow> record_batch list \<Rightarrow> string list \<Rightarrow> string list + string list" where
  "print_names X [] out = Inr out"
| "print_names X (b # bs) out = (case rb_columns b of
     AString names # cols \<Rightarrow>
       (case print_lines (\<lambda>i. map_option (\<lambda>v. ''  '' @ v @ newline) (value_at (at_null_string X) names i))
          [0..<length names] out of
          Inl out' \<Rightarrow> Inl out'
        | Inr out' \<Rightarrow> print_names X bs out')
   | _ \<Rightarrow> Inl out)"

definition print_table ::
  "arrow_texts \<Rightarrow> string \<Rightarrow> record_batch list \<times> go_error option \<Rightarrow> 'srv shell \<Rightarrow> run_exit \<times> 'srv shell" where
  "print_table X header rdr s = (case s of (W, out) \<Rightarrow>
    (case print_names X (fst rdr) (out @ [header]) of
       Inl out' \<Rightarrow> (RunCrashed, W, out')
     | Inr out' \<Rightarrow> (result_exit (snd rdr), W, out')))"

definition show_table_types :: "arrow_texts \<Rightarrow> nat \<Rightarrow> 'srv prog" where
  "show_table_types X k s = (case get_table_types k (fst s) of
     Inl e \<Rightarrow> Some (RunFailed (Some ''get table types: '') e, s)
   | Inr t \<Rightarrow> Some (print_table X (''table types:'' @ newline) (at_types_reader X t) s))"

definition show_table_schema :: "'srv libs \<Rightarrow> arrow_texts \<Rightarrow> nat \<Rightarrow> string \<Rightarrow> 'srv prog" where
  "show_table_schema L X k table s = (case s of (W, out) \<Rightarrow>
    (case get_table_schema L k [] None None table W of
       None \<Rightarrow> None
     | Some (Inl e, W') \<Rightarrow> Some (RunFailed (Some ''get table schema: '') e, W', out)
     | Some (Inr sc, W') \<Rightarrow> Some (RunOk, W',
         out @ (newline @ ''schema of '' @ table @ '':'' @ newline) #
           map (\<lambda>f. ''  '' @ fld_name f @ '': '' @ at_type X (fld_type f) @ newline) sc)))"

definition show_objects :: "'srv libs \<Rightarrow> arrow_texts \<Rightarrow> nat \<Rightarrow> 'srv prog" where
  "show_objects L X k s = (case s of (W, out) \<Rightarrow>
    (case get_objects L k [] depth_catalogs None None None None [] W of
       None \<Rightarrow> None
     | Some (Inl e, W') \<Rightarrow> Some (RunFailed (Some ''get objects: '') e, W', out)
     | Some (Inr rows, W') \<Rightarrow>
         Some (print_table X (newline @ ''catalogs:'' @ newline) (at_objects_reader X rows) (W', out))))"

text \<open>\<^verbatim>\<open>if err := ...; err != nil { return err }\<close>\<close>

definition and_then :: "'srv prog \<Rightarrow> 'srv prog \<Rightarrow> 'srv prog" where
  "and_then p q s = (case p s of
     None \<Rightarrow> None
   | Some (x, s') \<Rightarrow> if x = RunOk then q s' else Some (x, s'))"

definition metadata_run :: "'srv libs \<Rightarrow> arrow_texts \<Rightarrow> string \<Rightarrow> 'srv prog" where
  "metadata_run L X uri = with_connection L uri (\<lambda>k.
     and_then (create_view L k) (and_then (show_table_types X k)
       (and_then (show_table_schema L X k ''example_metadata_view'') (show_objects L X k))))"

section \<open>Nothing is held afterwards\<close>

lemma run_same_refl [simp]: "run_same W W"
  by (simp add: run_same_def)

lemma run_same_trans: "run_same U V \<Longrightarrow> run_same V W \<Longrightarrow> run_same U W"
  by (simp add: run_same_def)

lemma run_same_client: "run_same W W' \<Longrightarrow> conn_client k W' = conn_client k W"
  by (simp add: run_same_def conn_client_def)

text \<open>On an open connection the program returns and holds nothing that was not held before.\<close>

definition holds_nothing :: "nat \<Rightarrow> 'srv prog \<Rightarrow> bool" where
  "holds_nothing k p \<longleftrightarrow> (\<forall>W out. conn_client k W \<noteq> None \<longrightarrow>
     (\<exists>x W' out'. p (W, out) = Some (x, W', out') \<and> run_same W W'))"

lemma holds_and_then:
  fixes p q :: "'srv prog"
  assumes "holds_nothing k p" "holds_nothing k q"
  shows "holds_nothing k (and_then p q)"
  unfolding holds_nothing_def
proof (intro allI impI)
  fix W :: "'srv world" and out assume c: "conn_client k W \<noteq> None"
  obtain x W1 out1 where p: "p (W, out) = Some (x, W1, out1)" "run_same W W1"
    using assms(1) c unfolding holds_nothing_def by blast
  obtain y W2 out2 where q: "q (W1, out1) = Some (y, W2, out2)" "run_same W1 W2"
    using assms(2) c run_same_client [OF p(2), of k] unfolding holds_nothing_def by metis
  show "\<exists>x W' out'. and_then p q (W, out) = Some (x, W', out') \<and> run_same W W'"
    using p q run_same_trans by (cases "x = RunOk") (auto simp: and_then_def)
qed

text \<open>The references a statement holds are given back by its deferred \<^verbatim>\<open>Close\<close>.\<close>

lemma holds_with_statement:
  fixes body :: "statement \<Rightarrow> 'srv shell \<Rightarrow> (run_exit \<times> statement \<times> 'srv shell) option"
  assumes "\<And>W out. conn_client k W \<noteq> None \<Longrightarrow> \<exists>x st' W' out'.
    body \<lparr>st_cnxn = Some k, st_query = [], st_params = None, st_prepared = False\<rparr> (W, out) =
      Some (x, st', W', out') \<and> wd_conns W' = wd_conns W \<and>
    rt_streams (wd_run W') = rt_streams (wd_run W) \<and>
    (\<forall>i. rt_refs (wd_run W') i = rt_refs (wd_run W) i + stmt_holds st' i)"
  shows "holds_nothing k (with_statement k pre body)"
  unfolding holds_nothing_def
proof (intro allI impI)
  fix W :: "'srv world" and out assume c: "conn_client k W \<noteq> None"
  obtain x st' W' out' where b: "body \<lparr>st_cnxn = Some k, st_query = [], st_params = None, st_prepared = False\<rparr> (W, out) =
      Some (x, st', W', out')" "wd_conns W' = wd_conns W" "rt_streams (wd_run W') = rt_streams (wd_run W)"
      "\<And>i. rt_refs (wd_run W') i = rt_refs (wd_run W) i + stmt_holds st' i"
    using assms [OF c] by blast
  have "run_same W (snd (statement_close st' W'))"
    using b(2-4) refs_release_params [of st' W']
    by (auto simp: run_same_def statement_close_def release_params_def release_rec_def add_ref_def fun_eq_iff
        split: option.split)
  with b(1) c show "\<exists>x W' out'. with_statement k pre body (W, out) = Some (x, W', out') \<and> run_same W W'"
    by (auto simp: with_statement_def new_statement_def split: option.split)
qed

text \<open>What a program prints of a result, and how it ends.\<close>

lemma print_result_reads:
  assumes q: "execute_query L [] st W = Some (Inr r, n, W1)"
  shows "\<exists>W'. run_same W W' \<and> print_result L header rows st (W, out) =
    Some (case fold_res rows (remaining L r) (out @ [header (reader_schema r)]) of
        Inl out' \<Rightarrow> (RunCrashed, W', out')
      | Inr out' \<Rightarrow> (result_exit (final_error L r), W', out'))"
proof -
  let ?body = "\<lambda>s out. case cur_batch s of None \<Rightarrow> Inl out | Some b \<Rightarrow> rows b out"
  let ?out = "out @ [header (reader_schema r)]"
  obtain s' where l: "for_next (reader_next L) ?body (r, wd_run W1) ?out =
      Some (fold_res rows (remaining L r) ?out, s')"
    using rr.loop_fold [of ?body rows L "(r, wd_run W1)" ?out] by (force simp: left_def)
  have "same_hold (r, wd_run W1) s'" by (rule loop_same_hold [OF l])
  then have "run_same W (W1\<lparr>wd_run := snd (reader_release s')\<rparr>)"
    using execute_query_cases [OF q] reader_release_last [of s'] by (simp add: run_same_def same_hold_def)
  moreover have "reader_err s' = final_error L r" if "fold_res rows (remaining L r) ?out = Inr out'" for out'
    using rr.loop_error [OF l [unfolded that]] by (simp add: last_error_def)
  ultimately show ?thesis
    using q l by (cases "fold_res rows (remaining L r) ?out")
      (auto simp: print_result_def Let_def intro!: exI [of _ "W1\<lparr>wd_run := snd (reader_release s')\<rparr>"])
qed

lemma print_result_returns:
  assumes "params_ok st"
  shows "\<exists>x W' out'. print_result L header rows st (W, out) = Some (x, W', out') \<and> run_same W W'"
proof -
  obtain res n W1 where q: "execute_query L [] st W = Some (res, n, W1)"
    using execute_query_total [OF assms] by blast
  show ?thesis
  proof (cases res)
    case (Inl e)
    then show ?thesis using q execute_query_cases [OF q] by (simp add: print_result_def)
  next
    case (Inr r)
    then show ?thesis using print_result_reads [OF q [unfolded Inr], of header rows out]
      by (cases "fold_res rows (remaining L r) (out @ [header (reader_schema r)])") auto
  qed
qed

lemma quickstart_body_holds: "holds_nothing k (with_statement k pre (quickstart_body L X))"
proof (rule holds_with_statement)
  fix W :: "'a world" and out
  let ?st = "\<lparr>st_cnxn = Some k, st_query = quickstart_sql, st_params = None, st_prepared = False\<rparr>"
  obtain x W' out' where "print_result L (quickstart_header X) (quickstart_rows X) ?st (W, out) = Some (x, W', out')"
      "run_same W W'"
    using print_result_returns [of ?st L "quickstart_header X" "quickstart_rows X" W out]
    by (auto simp: params_ok_def)
  then show "\<exists>x st' W' out'. quickstart_body L X
      \<lparr>st_cnxn = Some k, st_query = [], st_params = None, st_prepared = False\<rparr> (W, out) =
      Some (x, st', W', out') \<and> wd_conns W' = wd_conns W \<and> rt_streams (wd_run W') = rt_streams (wd_run W) \<and>
      (\<forall>i. rt_refs (wd_run W') i = rt_refs (wd_run W) i + stmt_holds st' i)"
    by (simp add: quickstart_body_def set_sql_query_def run_same_def stmt_holds_def)
qed

lemma parameters_body_holds: "holds_nothing k (with_statement k pre (parameters_body L X))"
proof (rule holds_with_statement)
  fix W :: "'a world" and out
  let ?b = "fst (bind_row (wd_run W))"
  let ?st = "\<lparr>st_cnxn = Some k, st_query = parameters_sql, st_params = Some ?b, st_prepared = True\<rparr>"
  let ?W1 = "W\<lparr>wd_run := retain_rec ?b (snd (bind_row (wd_run W)))\<rparr>"
  have st: "params_ok ?st" by (simp add: params_ok_def bind_row_def Let_def valid_batch_def)
  obtain x W' out' where p: "print_result L parameters_header (parameters_rows X) ?st (?W1, out) =
      Some (x, W', out')" "run_same ?W1 W'"
    using print_result_returns [OF st] by blast
  show "\<exists>x st' W' out'. parameters_body L X
      \<lparr>st_cnxn = Some k, st_query = [], st_params = None, st_prepared = False\<rparr> (W, out) =
      Some (x, st', W', out') \<and> wd_conns W' = wd_conns W \<and> rt_streams (wd_run W') = rt_streams (wd_run W) \<and>
      (\<forall>i. rt_refs (wd_run W') i = rt_refs (wd_run W) i + stmt_holds st' i)"
    using p
    by (simp add: parameters_body_def set_sql_query_def prepare_def parameters_sql_def with_params_def
        bind_row_def Let_def bind_params_def release_params_def run_same_def stmt_holds_def retain_rec_def
        release_rec_def add_ref_def)
qed

lemma metadata_body_holds:
  fixes L :: "'srv libs"
  assumes "lib_fits L"
  shows "holds_nothing k (create_view L k)" "holds_nothing k (show_table_types X k :: 'srv prog)"
    "holds_nothing k (show_table_schema L X k table)" "holds_nothing k (show_objects L X k)"
proof -
  show "holds_nothing k (create_view L k)"
    unfolding create_view_def
  proof (rule holds_with_statement)
    fix W :: "'srv world" and out
    let ?st = "\<lparr>st_cnxn = Some k, st_query = view_sql, st_params = None, st_prepared = False\<rparr>"
    obtain e n W' where "execute_update L [] ?st W = Some (e, n, W')" "run_same W W'"
      using execute_update_cases [of ?st L "[]" W] by (auto simp: params_ok_def)
    then show "\<exists>x st' W' out'. (\<lambda>st (W, out). case set_sql_query view_sql st of
       (Some e, st1) \<Rightarrow> Some (RunFailed None e, st1, W, out)
     | (None, st1) \<Rightarrow> (case execute_update L [] st1 W of
         None \<Rightarrow> None
       | Some (e, n, W') \<Rightarrow> Some (result_exit e, st1, W', out)))
      \<lparr>st_cnxn = Some k, st_query = [], st_params = None, st_prepared = False\<rparr> (W, out) =
      Some (x, st', W', out') \<and> wd_conns W' = wd_conns W \<and> rt_streams (wd_run W') = rt_streams (wd_run W) \<and>
      (\<forall>i. rt_refs (wd_run W') i = rt_refs (wd_run W) i + stmt_holds st' i)"
      by (simp add: set_sql_query_def run_same_def stmt_holds_def)
  qed
  have pt: "\<exists>x out'. print_table X h rdr (W, out) = (x, W, out')" for h rdr and W :: "'srv world" and out
    by (auto simp: print_table_def split: sum.split)
  show "holds_nothing k (show_table_types X k :: 'srv prog)"
    unfolding holds_nothing_def
  proof (intro allI impI)
    fix W :: "'srv world" and out
    show "\<exists>x W' out'. show_table_types X k (W, out) = Some (x, W', out') \<and> run_same W W'"
    proof (cases "get_table_types k W")
      case (Inr t)
      then show ?thesis using pt [of "''table types:'' @ newline" "at_types_reader X t" W out]
        by (auto simp: show_table_types_def)
    qed (simp add: show_table_types_def)
  qed
  show "holds_nothing k (show_table_schema L X k table)"
    using yields_get_table_schema [of k L "[]" None None table]
    unfolding holds_nothing_def yields_def
    by (fastforce simp: show_table_schema_def split: sum.split dest: same_world_run)
  show "holds_nothing k (show_objects L X k)"
    unfolding holds_nothing_def
  proof (intro allI impI)
    fix W :: "'srv world" and out assume "conn_client k W \<noteq> None"
    then obtain res W' where g: "get_objects L k [] depth_catalogs None None None None [] W = Some (res, W')"
        "same_world W W'"
      using get_objects_open [OF assms] by blast
    show "\<exists>x W' out'. show_objects L X k (W, out) = Some (x, W', out') \<and> run_same W W'"
    proof (cases res)
      case (Inr rows)
      then show ?thesis
        using g pt [of "newline @ ''catalogs:'' @ newline" "at_objects_reader X rows" W' out] same_world_run [OF g(2)]
        by (auto simp: show_objects_def)
    qed (use g same_world_run [OF g(2)] in \<open>simp add: show_objects_def\<close>)
  qed
qed

text \<open>Around it all: the connection is closed on every way out.\<close>

definition released :: "'srv world \<Rightarrow> 'srv world \<Rightarrow> bool" where
  "released W W' \<longleftrightarrow> rt_refs (wd_run W') = rt_refs (wd_run W) \<and>
     rt_streams (wd_run W') = rt_streams (wd_run W) \<and>
     (wd_conns W' = wd_conns W \<or> wd_conns W' = wd_conns W @ [\<lparr>cn_client = None\<rparr>])"

lemma with_connection_releases:
  fixes W :: "'srv world"
  assumes "\<And>k. holds_nothing k (body k)"
  shows "\<exists>x W' out'. with_connection L uri body (W, out) = Some (x, W', out') \<and> released W W'"
proof -
  obtain res hp where d: "new_database (lib_unicode L) [(key_uri, uri)] (rt_heap (wd_run W)) = (res, hp)"
    by fastforce
  let ?W1 = "W\<lparr>wd_run := (wd_run W)\<lparr>rt_heap := hp\<rparr>\<rparr>"
  show ?thesis
  proof (cases res)
    case (Inl e)
    then show ?thesis using d by (simp add: with_connection_def released_def)
  next
    case (Inr db)
    obtain opened W2 where o: "open_connection L db ?W1 = (opened, W2)" by fastforce
    note oc = open_connection_cases [OF o]
    show ?thesis
    proof (cases opened)
      case (Inl e)
      then show ?thesis using d Inr o oc by (simp add: with_connection_def released_def)
    next
      case k: (Inr k)
      then obtain c where c: "k = length (wd_conns W)" "wd_conns W2 = wd_conns W @ [\<lparr>cn_client = Some c\<rparr>]"
        using oc by auto
      then have "conn_client k W2 \<noteq> None" by (simp add: conn_client_def)
      then obtain x W3 out' where b: "body k (W2, out) = Some (x, W3, out')" "run_same W2 W3"
        using assms [of k] unfolding holds_nothing_def by blast
      obtain err W4 where cl: "connection_close L k W3 = (err, W4)" by fastforce
      have "wd_conns W4 = wd_conns W @ [\<lparr>cn_client = None\<rparr>]"
        using cl b(2) c by (auto simp: connection_close_def conn_client_def run_same_def nth_append
            list_update_append split: prod.splits)
      moreover have "rt_refs (wd_run W4) = rt_refs (wd_run W)" "rt_streams (wd_run W4) = rt_streams (wd_run W)"
        using connection_close_cases(1,2) [OF cl] b(2) oc by (simp_all add: run_same_def)
      ultimately show ?thesis using d Inr o k b(1) cl by (simp add: with_connection_def released_def)
    qed
  qed
qed

section \<open>What is printed\<close>

lemma print_lines_all:
  "print_lines line is out = Inr out' \<Longrightarrow> (\<forall>i\<in>set is. line i \<noteq> None) \<and> out' = out @ map (the \<circ> line) is"
  by (induction "is" arbitrary: out) (fastforce split: option.splits)+

text \<open>The lines of a record, when its columns have the types the program expects.\<close>

definition quickstart_lines :: "arrow_texts \<Rightarrow> record_batch \<Rightarrow> string list" where
  "quickstart_lines X b = (case rb_columns b of
     AInt64 ids # AInt64 squares # cols \<Rightarrow> map (the \<circ> quickstart_line X ids squares) [0..<rb_rows b]
   | _ \<Rightarrow> [])"

definition parameters_lines :: "arrow_texts \<Rightarrow> record_batch \<Rightarrow> string list" where
  "parameters_lines X b = (case rb_columns b of
     AInt64 ids # AString tags # cols \<Rightarrow> map (the \<circ> parameters_line X ids tags) [0..<rb_rows b]
   | _ \<Rightarrow> [])"

lemma rows_lines:
  "quickstart_rows X b out = Inr out' \<Longrightarrow> out' = out @ quickstart_lines X b"
  "parameters_rows X b out = Inr out' \<Longrightarrow> out' = out @ parameters_lines X b"
  by (auto simp: quickstart_rows_def quickstart_lines_def parameters_rows_def parameters_lines_def
      dest: print_lines_all split: list.splits arrow_array.splits)

lemma fold_res_lines:
  assumes "\<And>b out out'. rows b out = Inr out' \<Longrightarrow> out' = out @ f b"
  shows "fold_res rows bs out = Inr out' \<Longrightarrow> out' = out @ concat (map f bs)"
  by (induction bs arbitrary: out) (fastforce dest: assms)+

text \<open>A result that was printed to its end.\<close>

lemma print_result_ok:
  assumes "print_result L header rows st (W, out) = Some (RunOk, W', out')"
    and rows: "\<And>b out out'. rows b out = Inr out' \<Longrightarrow> out' = out @ f b"
  shows "\<exists>c args msgs sc. stmt_client st W = Some c \<and> positional_literals (lib_decimal L) st = Some (Inr args) \<and>
    answer_of L c [] (st_query st) args (wd_run W) = Inr msgs \<and> snd (delivered L msgs) = None \<and>
    out' = out @ header sc # concat (map f (fst (delivered L msgs)))"
proof -
  obtain r n W1 where q: "execute_query L [] st W = Some (Inr r, n, W1)"
    using assms(1) by (auto simp: print_result_def split: option.splits sum.splits)
  obtain c args msgs where a: "stmt_client st W = Some c" "positional_literals (lib_decimal L) st = Some (Inr args)"
      "answer_of L c [] (st_query st) args (wd_run W) = Inr msgs"
      "remaining L r = fst (delivered L msgs)" "final_error L r = snd (delivered L msgs)"
    using execute_query_answer [OF q] by blast
  have "fold_res rows (remaining L r) (out @ [header (reader_schema r)]) = Inr out' \<and> final_error L r = None"
    using print_result_reads [OF q, of header rows out] assms(1)
    by (cases "fold_res rows (remaining L r) (out @ [header (reader_schema r)])"; cases "final_error L r")
      (auto simp: result_exit_def)
  with a fold_res_lines [OF rows, where bs = "remaining L r"] show ?thesis by force
qed

lemma answer_of_frame:
  "rt_heap w' = rt_heap w \<Longrightarrow> rt_clients w' = rt_clients w \<Longrightarrow> rt_server w' = rt_server w \<Longrightarrow>
     rt_uuids w' = rt_uuids w \<Longrightarrow> answer_of L c ctx q args w' = answer_of L c ctx q args w"
  by (simp add: answer_of_def plan_answer_def plan_request_def the_config_def the_client_def session_id_def)

lemma with_connection_ok:
  assumes "with_connection L uri body (W, out) = Some (RunOk, W', out')"
  shows "\<exists>d hp k W1 W2. new_database (lib_unicode L) [(key_uri, uri)] (rt_heap (wd_run W)) = (Inr d, hp) \<and>
    open_connection L d (W\<lparr>wd_run := (wd_run W)\<lparr>rt_heap := hp\<rparr>\<rparr>) = (Inr k, W1) \<and>
    body k (W1, out) = Some (RunOk, W2, out')"
  using assms by (auto simp: with_connection_def Let_def split: prod.splits sum.splits)

lemma with_statement_ok:
  assumes "with_statement k pre body (W, out) = Some (RunOk, W', out')"
  shows "\<exists>st' W1. conn_client k W \<noteq> None \<and>
    body \<lparr>st_cnxn = Some k, st_query = [], st_params = None, st_prepared = False\<rparr> (W, out) =
      Some (RunOk, st', W1, out')"
  using assms by (auto simp: with_statement_def new_statement_def split: option.splits)

section \<open>Properties\<close>

text \<open>C39: Every example program returns, and whatever way it ends - nil, an error of any of its calls, a
  panic because a result has other columns than it expects - its deferred calls have closed the
  connection it opened, cancelled every stream and given back every reference to a record.\<close>

theorem examples_release_everything:
  assumes "lib_fits L" "p \<in> {quickstart_run L X, parameters_run L X, metadata_run L X}"
  shows "\<exists>x W' out'. p uri (W, out) = Some (x, W', out') \<and> released W W'"
proof -
  have "\<exists>x W' out'. quickstart_run L X uri (W, out) = Some (x, W', out') \<and> released W W'"
    unfolding quickstart_run_def by (rule with_connection_releases [OF quickstart_body_holds])
  moreover have "\<exists>x W' out'. parameters_run L X uri (W, out) = Some (x, W', out') \<and> released W W'"
    unfolding parameters_run_def by (rule with_connection_releases [OF parameters_body_holds])
  moreover have "\<exists>x W' out'. metadata_run L X uri (W, out) = Some (x, W', out') \<and> released W W'"
    unfolding metadata_run_def
    by (intro with_connection_releases holds_and_then metadata_body_holds [OF assms(1)])
  ultimately show ?thesis using assms(2) by blast
qed

text \<open>When the quickstart program ends without an error, it has opened the connection, the server has
  answered its query without an error, and what it printed is the schema and then one line per row of
  the records of that answer, all of them and in order.\<close>

theorem quickstart_prints_answer:
  assumes "quickstart_run L X uri (W, out) = Some (RunOk, W', out')"
  shows "\<exists>d hp k W1 c msgs sc.
    new_database (lib_unicode L) [(key_uri, uri)] (rt_heap (wd_run W)) = (Inr d, hp) \<and>
    open_connection L d (W\<lparr>wd_run := (wd_run W)\<lparr>rt_heap := hp\<rparr>\<rparr>) = (Inr k, W1) \<and> conn_client k W1 = Some c \<and>
    answer_of L c [] quickstart_sql [] (wd_run W1) = Inr msgs \<and> snd (delivered L msgs) = None \<and>
    out' = out @ quickstart_header X sc # concat (map (quickstart_lines X) (fst (delivered L msgs)))"
proof -
  obtain d hp k W1 W2 where o: "new_database (lib_unicode L) [(key_uri, uri)] (rt_heap (wd_run W)) = (Inr d, hp)"
      "open_connection L d (W\<lparr>wd_run := (wd_run W)\<lparr>rt_heap := hp\<rparr>\<rparr>) = (Inr k, W1)"
    and b: "with_statement k (Some ''new statement: '') (quickstart_body L X) (W1, out) = Some (RunOk, W2, out')"
    using with_connection_ok [OF assms [unfolded quickstart_run_def]] by blast
  let ?st = "\<lparr>st_cnxn = Some k, st_query = quickstart_sql, st_params = None, st_prepared = False\<rparr>"
  obtain W3 where "print_result L (quickstart_header X) (quickstart_rows X) ?st (W1, out) = Some (RunOk, W3, out')"
    using with_statement_ok [OF b] by (auto simp: quickstart_body_def set_sql_query_def)
  from print_result_ok [OF this rows_lines(1)] o show ?thesis
    by (auto simp: stmt_client_def positional_literals_def)
qed

text \<open>C40: When the parameters program ends without an error, the query it executed had its two
  placeholders bound, in order, to the string and the 64-bit integer of the record it built, and it
  printed one line per row of the records the server answered with, all of them and in order.\<close>

theorem parameters_binds_and_prints:
  assumes "parameters_run L X uri (W, out) = Some (RunOk, W', out')"
  shows "\<exists>d hp k W1 c msgs sc.
    new_database (lib_unicode L) [(key_uri, uri)] (rt_heap (wd_run W)) = (Inr d, hp) \<and>
    open_connection L d (W\<lparr>wd_run := (wd_run W)\<lparr>rt_heap := hp\<rparr>\<rparr>) = (Inr k, W1) \<and> conn_client k W1 = Some c \<and>
    answer_of L c [] parameters_sql [LString ''matched'', LLong 6] (wd_run W1) = Inr msgs \<and>
    snd (delivered L msgs) = None \<and>
    out' = out @ parameters_header sc # concat (map (parameters_lines X) (fst (delivered L msgs)))"
proof -
  obtain d hp k W1 W2 where o: "new_database (lib_unicode L) [(key_uri, uri)] (rt_heap (wd_run W)) = (Inr d, hp)"
      "open_connection L d (W\<lparr>wd_run := (wd_run W)\<lparr>rt_heap := hp\<rparr>\<rparr>) = (Inr k, W1)"
    and b: "with_statement k (Some ''new statement: '') (parameters_body L X) (W1, out) = Some (RunOk, W2, out')"
    using with_connection_ok [OF assms [unfolded parameters_run_def]] by blast
  let ?b = "fst (bind_row (wd_run W1))"
  let ?st = "\<lparr>st_cnxn = Some k, st_query = parameters_sql, st_params = Some ?b, st_prepared = True\<rparr>"
  let ?W = "W1\<lparr>wd_run := retain_rec ?b (snd (bind_row (wd_run W1)))\<rparr>"
  obtain W3 where p: "print_result L parameters_header (parameters_rows X) ?st (?W, out) = Some (RunOk, W3, out')"
    using with_statement_ok [OF b]
    by (auto simp: parameters_body_def set_sql_query_def prepare_def parameters_sql_def with_params_def bind_row_def
        Let_def bind_params_def release_params_def)
  have "answer_of L c [] q args (wd_run ?W) = answer_of L c [] q args (wd_run W1)" for c q args
    by (rule answer_of_frame) (simp_all add: bind_row_def Let_def retain_rec_def add_ref_def)
  moreover have "positional_literals D ?st = Some (Inr args) \<Longrightarrow> args = [LString ''matched'', LLong 6]" for D args
    by (auto simp: positional_literals_def bind_row_def Let_def cell_def)
  moreover have "stmt_client ?st ?W = conn_client k W1" by (simp add: stmt_client_def conn_client_def)
  ultimately show ?thesis using print_result_ok [OF p rows_lines(2)] o by fastforce
qed

section \<open>A run of each program\<close>

text \<open>A connection string opens, when the channel to the server does.\<close>

lemma new_database_uri:
  assumes "parse_connection_string U uri = Inr cfg" "uri \<noteq> []"
  shows "new_database U [(key_uri, uri)] h = (Inr \<lparr>db_cfg = Some (hp_next h)\<rparr>,
    h\<lparr>hp_cfgs := (hp_cfgs h)(hp_next h \<mapsto> cfg), hp_next := Suc (hp_next h)\<rparr>)"
  using assms
  by (simp add: new_database_def set_options_def target_cfg_def opt_get_def apply_option_def)

lemma with_connection_runs:
  fixes W :: "'srv world" and L :: "'srv libs"
  assumes "parse_connection_string (lib_unicode L) uri = Inr cfg" "uri \<noteq> []" "\<And>e tls. lib_dial L e tls = None"
    and body: "\<And>k W1. conn_client k W1 \<noteq> None \<Longrightarrow> \<exists>W2 out'. body k (W1, out) = Some (RunOk, W2, out')"
  shows "\<exists>W' out'. with_connection L uri body (W, out) = Some (RunOk, W', out')"
proof -
  obtain d hp where d: "new_database (lib_unicode L) [(key_uri, uri)] (rt_heap (wd_run W)) = (Inr d, hp)"
      "db_cfg d \<noteq> None"
    using new_database_uri [OF assms(1,2)] by auto
  let ?W1 = "W\<lparr>wd_run := (wd_run W)\<lparr>rt_heap := hp\<rparr>\<rparr>"
  obtain k W1 where o: "open_connection L d ?W1 = (Inr k, W1)"
    using d(2) assms(3)
    by (fastforce simp: open_connection_def database_open_def dial_def Let_def split: prod.splits option.splits)
  from open_connection_cases [OF o] have "conn_client k W1 \<noteq> None" by (auto simp: conn_client_def)
  with body [of k W1] d(1) o show ?thesis by (auto simp: with_connection_def Let_def)
qed

text \<open>A query that is answered without an error is printed, when the rows can be.\<close>

lemma print_result_runs:
  fixes W :: "'srv world"
  assumes "stmt_client st W = Some c" "st_query st \<noteq> []"
    and "positional_literals (lib_decimal L) st = Some (Inr args)"
    and a: "answer_of L c [] (st_query st) args (wd_run W) = Inr msgs" "delivered L msgs = (bs, None)"
    and rows: "\<And>h. \<exists>out'. fold_res rows bs (out @ [h]) = Inr out'"
  shows "\<exists>W' out'. print_result L header rows st (W, out) = Some (RunOk, W', out')"
proof -
  obtain x w where x: "execute_plan L c [] (sql_plan (st_query st) args) (wd_run W) = (x, w)" by fastforce
  then have q: "execute_query L [] st W = Some (x, -1, W\<lparr>wd_run := w\<rparr>)"
    using execute_query_open [OF assms(1-3), of "[]"] by simp
  show ?thesis
  proof (cases x)
    case (Inl e)
    then show ?thesis using execute_plan_ok(1) [OF x] a by (simp add: executed_def answer_of_def)
  next
    case (Inr r)
    then have "remaining L r = bs" "final_error L r = None"
      using execute_plan_ok(1) [OF x] a by (auto simp: executed_def answer_of_def reads_def)
    then show ?thesis
      using print_result_reads [OF q [unfolded Inr], of header rows out] rows [of "header (reader_schema r)"]
      by (auto simp: result_exit_def)
  qed
qed

definition sample_uri :: string where
  "sample_uri = print_connection (new_config\<lparr>cfg_host := ''h''\<rparr>) []"

definition sample_start :: "nat shell" where
  "sample_start = (\<lparr>wd_run = sample_runtime, wd_conns = []\<rparr>, [])"

lemma sample_uri: "parse_connection_string ascii_tables sample_uri = Inr (new_config\<lparr>cfg_host := ''h''\<rparr>)"
    "sample_uri \<noteq> []"
proof -
  show "parse_connection_string ascii_tables sample_uri = Inr (new_config\<lparr>cfg_host := ''h''\<rparr>)"
    unfolding sample_uri_def
    by (rule parse_print_connection) (simp_all add: plain_host_def new_config_def default_port_def in_int64_def)
  then show "sample_uri \<noteq> []" by (auto simp: sample_uri_def print_connection_def)
qed

text \<open>A service that answers each query with two rows of the columns the program expects.\<close>

definition rows_libs :: "arrow_array list \<Rightarrow> nat libs" where
  "rows_libs cols = sample_libs\<lparr>lib_decode := \<lambda>data. Inr
     \<lparr>ipc_schema = sample_schema, ipc_records = [\<lparr>rb_columns = cols, rb_rows = 1\<rparr>], ipc_error = None\<rparr>\<rparr>"

definition sample_texts :: arrow_texts where
  "sample_texts = \<lparr>at_schema = \<lambda>sc. ''schema'', at_type = \<lambda>t. ''type'', at_null_int = \<lambda>xs i. 0,
     at_null_string = \<lambda>xs i. [], at_types_reader = \<lambda>t. ([snd t], None), at_objects_reader = \<lambda>rows. ([], None)\<rparr>"

lemma sample_itoa: "itoa 2 = ''2''" "itoa 4 = ''4''" "itoa 7 = ''7''"
  by code_simp+

lemma rows_libs_simps:
  "lib_unicode (rows_libs cols) = ascii_tables" "lib_dial (rows_libs cols) e tls = None"
  "delivered (rows_libs cols) sample_stream =
     ([\<lparr>rb_columns = cols, rb_rows = 1\<rparr>, \<lparr>rb_columns = cols, rb_rows = 1\<rparr>], None)"
  by (simp_all add: rows_libs_def sample_libs_def sample_stream_def sample_resp_def read_failed_def)

lemma rows_answer:
  "q \<noteq> [] \<Longrightarrow> q \<noteq> ''!'' \<Longrightarrow> answer_of (rows_libs cols) c [] q args w = Inr sample_stream"
  by (simp add: answer_of_def plan_answer_def plan_request_def rows_libs_def sample_libs_def query_of_def sql_plan_def)

theorem examples_release_everything_witness:
  "\<exists>x W' out'. quickstart_run sample_libs sample_texts sample_uri sample_start = Some (x, W', out') \<and>
    released (fst sample_start) W'"
  using examples_release_everything [OF sample_lib_fits,
      of "quickstart_run sample_libs sample_texts" sample_texts sample_uri "fst sample_start" "snd sample_start"]
  by simp

lemma quickstart_sample_runs:
  "\<exists>W' out'. quickstart_run (rows_libs [AInt64 [Some 2], AInt64 [Some 4]]) sample_texts sample_uri sample_start =
     Some (RunOk, W', out')"
proof -
  let ?L = "rows_libs [AInt64 [Some 2], AInt64 [Some 4]]"
  have b: "\<exists>W2 out'. with_statement k (Some ''new statement: '') (quickstart_body ?L sample_texts) (W1, []) =
      Some (RunOk, W2, out')" if c: "conn_client k W1 \<noteq> None" for k W1
  proof -
    obtain c where k: "conn_client k W1 = Some c" using c by auto
    let ?st = "\<lparr>st_cnxn = Some k, st_query = quickstart_sql, st_params = None, st_prepared = False\<rparr>"
    have "\<exists>W' out'. print_result ?L (quickstart_header sample_texts) (quickstart_rows sample_texts) ?st (W1, []) =
        Some (RunOk, W', out')"
    proof (rule print_result_runs)
      show "stmt_client ?st W1 = Some c" using k by (simp add: stmt_client_def)
      show "answer_of ?L c [] (st_query ?st) [] (wd_run W1) = Inr sample_stream"
        by (rule rows_answer) (simp_all add: quickstart_sql_def)
      show "delivered ?L sample_stream = ([\<lparr>rb_columns = [AInt64 [Some 2], AInt64 [Some 4]], rb_rows = 1\<rparr>,
          \<lparr>rb_columns = [AInt64 [Some 2], AInt64 [Some 4]], rb_rows = 1\<rparr>], None)"
        by (rule rows_libs_simps)
    qed (simp_all add: quickstart_sql_def positional_literals_def quickstart_rows_def quickstart_line_def value_at_def)
    then show ?thesis using k
      by (auto simp: with_statement_def new_statement_def quickstart_body_def set_sql_query_def)
  qed
  show ?thesis
    unfolding quickstart_run_def sample_start_def
  proof (rule with_connection_runs)
    show "parse_connection_string (lib_unicode ?L) sample_uri = Inr (new_config\<lparr>cfg_host := ''h''\<rparr>)"
      using sample_uri(1) by (simp add: rows_libs_simps)
  qed (use b sample_uri(2) in \<open>simp_all add: rows_libs_simps\<close>)
qed

theorem quickstart_prints_answer_witness:
  "\<exists>W'. quickstart_run (rows_libs [AInt64 [Some 2], AInt64 [Some 4]]) sample_texts sample_uri sample_start =
     Some (RunOk, W', [''schema: schema'' @ newline, ''  id=2 square=4'' @ newline, ''  id=2 square=4'' @ newline])"
proof -
  let ?L = "rows_libs [AInt64 [Some 2], AInt64 [Some 4]]"
  obtain W' out' where r: "quickstart_run ?L sample_texts sample_uri sample_start = Some (RunOk, W', out')"
    using quickstart_sample_runs by blast
  obtain c w msgs sc where m: "answer_of ?L c [] quickstart_sql [] w = Inr msgs"
      "out' = [] @ quickstart_header sample_texts sc # concat (map (quickstart_lines sample_texts) (fst (delivered ?L msgs)))"
    using quickstart_prints_answer [OF r [unfolded sample_start_def]] by blast
  have "msgs = sample_stream" using m(1) rows_answer [of quickstart_sql] by (simp add: quickstart_sql_def)
  then show ?thesis using r m(2)
    by (simp add: rows_libs_simps quickstart_header_def sample_texts_def quickstart_lines_def quickstart_line_def
        value_at_def sample_itoa)
qed

lemma parameters_sample_runs:
  "\<exists>W' out'. parameters_run (rows_libs [AInt64 [Some 7], AString [Some ''matched'']]) sample_texts sample_uri
     sample_start = Some (RunOk, W', out')"
proof -
  let ?L = "rows_libs [AInt64 [Some 7], AString [Some ''matched'']]"
  have b: "\<exists>W2 out'. with_statement k (Some ''new statement: '') (parameters_body ?L sample_texts) (W1, []) =
      Some (RunOk, W2, out')" if c: "conn_client k W1 \<noteq> None" for k W1
  proof -
    obtain c where k: "conn_client k W1 = Some c" using c by auto
    let ?b = "fst (bind_row (wd_run W1))"
    let ?st = "\<lparr>st_cnxn = Some k, st_query = parameters_sql, st_params = Some ?b, st_prepared = True\<rparr>"
    let ?W = "W1\<lparr>wd_run := retain_rec ?b (snd (bind_row (wd_run W1)))\<rparr>"
    have "\<exists>W' out'. print_result ?L parameters_header (parameters_rows sample_texts) ?st (?W, []) =
        Some (RunOk, W', out')"
    proof (rule print_result_runs)
      show "stmt_client ?st ?W = Some c" using k by (simp add: stmt_client_def conn_client_def)
      show "answer_of ?L c [] (st_query ?st) [LString ''matched'', LLong 6] (wd_run ?W) = Inr sample_stream"
        by (rule rows_answer) (simp_all add: parameters_sql_def)
      show "delivered ?L sample_stream = ([\<lparr>rb_columns = [AInt64 [Some 7], AString [Some ''matched'']], rb_rows = 1\<rparr>,
          \<lparr>rb_columns = [AInt64 [Some 7], AString [Some ''matched'']], rb_rows = 1\<rparr>], None)"
        by (rule rows_libs_simps)
    qed (simp_all add: parameters_sql_def positional_literals_def bind_row_def Let_def cell_def parameters_rows_def
        parameters_line_def value_at_def)
    then show ?thesis using k
      by (auto simp: with_statement_def new_statement_def parameters_body_def set_sql_query_def prepare_def
          parameters_sql_def with_params_def bind_row_def Let_def bind_params_def release_params_def)
  qed
  show ?thesis
    unfolding parameters_run_def sample_start_def
  proof (rule with_connection_runs)
    show "parse_connection_string (lib_unicode ?L) sample_uri = Inr (new_config\<lparr>cfg_host := ''h''\<rparr>)"
      using sample_uri(1) by (simp add: rows_libs_simps)
  qed (use b sample_uri(2) in \<open>simp_all add: rows_libs_simps\<close>)
qed

theorem parameters_binds_and_prints_witness:
  "\<exists>W'. parameters_run (rows_libs [AInt64 [Some 7], AString [Some ''matched'']]) sample_texts sample_uri sample_start =
     Some (RunOk, W', [''rows where id > 6:'' @ newline, ''  id=7 tag=matched'' @ newline,
       ''  id=7 tag=matched'' @ newline])"
proof -
  let ?L = "rows_libs [AInt64 [Some 7], AString [Some ''matched'']]"
  obtain W' out' where r: "parameters_run ?L sample_texts sample_uri sample_start = Some (RunOk, W', out')"
    using parameters_sample_runs by blast
  obtain c w msgs sc where m: "answer_of ?L c [] parameters_sql [LString ''matched'', LLong 6] w = Inr msgs"
      "out' = [] @ parameters_header sc # concat (map (parameters_lines sample_texts) (fst (delivered ?L msgs)))"
    using parameters_binds_and_prints [OF r [unfolded sample_start_def]] by blast
  have "msgs = sample_stream" using m(1) rows_answer [of parameters_sql] by (simp add: parameters_sql_def)
  then show ?thesis using r m(2)
    by (simp add: rows_libs_simps parameters_header_def parameters_lines_def parameters_line_def
        value_at_def sample_itoa)
qed

end
