(* ===== verification/C_Logging.thy ===== *)
theory C_Logging
  imports Go_Strings
begin

text \<open>
  \<^verbatim>\<open>initLoggingFromEnv\<close> of \<^verbatim>\<open>c/driver.go\<close>: what \<^verbatim>\<open>SparkDatabaseInit\<close> does about logging once the database
  is made. It touches neither the database nor the caller's structures, only standard error, so it stands
  apart from the state of the C layer: its outcome is a value.
\<close>

datatype log_level = LevelDebug | LevelInfo | LevelWarn | LevelError

text \<open>Nothing, the help text, a record written by a logger of that level, the logger handed to the database.\<close>

datatype log_effect =
  LogNothing | LogHelp string | LogRecord log_level string | LogInstalled log_level

definition log_env_var :: string where
  "log_env_var = ''ADBC_DRIVER_SPARK_LOG_LEVEL''"

definition logging_help :: string where
  "logging_help = ''Spark: to enable logging, set '' @ log_env_var @
     '' to '' @ [CHR 0x27] @ ''debug'' @ [CHR 0x27] @ '', '' @ [CHR 0x27] @ ''info'' @ [CHR 0x27] @
     '', '' @ [CHR 0x27] @ ''warn'' @ [CHR 0x27] @ '', or '' @ [CHR 0x27] @ ''error'' @ [CHR 0x27]"

definition log_level_of :: "string \<Rightarrow> log_level option" where
  "log_level_of v =
    (if v = ''debug'' then Some LevelDebug
     else if v = ''info'' then Some LevelInfo
     else if v = ''warn'' \<or> v = ''warning'' then Some LevelWarn
     else if v = ''error'' then Some LevelError
     else None)"

text \<open>The methods of \<^verbatim>\<open>*database\<close>. A type assertion on an interface asks for the interface's methods.\<close>

definition database_methods :: "string list" where
  "database_methods = [''SetOptions'', ''Open'', ''Close'']"

definition init_logging_from_env :: "unicode \<Rightarrow> (string \<Rightarrow> string) \<Rightarrow> string list \<Rightarrow> log_effect" where
  "init_logging_from_env U getenv methods =
    (let v = to_lower U (getenv log_env_var) in
     if v = [] then LogNothing
     else case log_level_of v of
       None \<Rightarrow> LogHelp logging_help
     | Some l \<Rightarrow>
         if ''SetLogger'' \<in> set methods then LogInstalled l
         else LogRecord l ''Spark does not support logging'')"

text \<open>The driver's database has no \<^verbatim>\<open>SetLogger\<close>: no value of the variable gives it a logger. The five
  level names, in any case, are answered by an error record, anything else by the help text that names
  the levels which would enable logging.\<close>

theorem logging_is_never_enabled:
  "init_logging_from_env U getenv database_methods =
    (let v = to_lower U (getenv log_env_var) in
     if v = [] then LogNothing
     else if v \<in> {''debug'', ''info'', ''warn'', ''warning'', ''error''}
     then LogRecord (the (log_level_of v)) ''Spark does not support logging''
     else LogHelp logging_help)"
  by (simp add: init_logging_from_env_def database_methods_def Let_def log_level_of_def)

end
