(* ===== verification/Spec2Isabelle.thy ===== *)
theory Spec2Isabelle
  imports Prelude Go_Strings Name_Patterns Sql_Names Conn_Config Adbc_Errors Database Params
    Session Record_Loop Result_Reader Sample_Service Spark_Client Connection Catalog Info_Tables
    Go_Fmt C_Errors C_State C_Database C_Streams C_Connection C_Statement C_Driver C_Invariant C_Calls
    Runs C_Stmt_Calls C_Stream_Calls C_Helpers C_Api C_Lifecycle C_Refinement C_Safety C_Results
    Driver_Calls Examples C_Logging
begin

text \<open>
  The ADBC driver for Apache Spark (Spark Connect), in Go.

  \<^bold>\<open>The program.\<close> An application holds a database (\<^verbatim>\<open>driver/spark/database.go\<close>) whose options
  build a configuration (\<^verbatim>\<open>internal/sparkconnect/config.go\<close>). Opening it dials the server and gives
  a connection (\<^verbatim>\<open>connection.go\<close>) around a client (\<^verbatim>\<open>internal/sparkconnect/client.go\<close>). Statements
  (\<^verbatim>\<open>statement.go\<close>) bind one row of an Arrow record as literals (\<^verbatim>\<open>params.go\<close>) and execute SQL; the
  answer is a gRPC stream of Arrow batches that a record reader (\<^verbatim>\<open>result_reader.go\<close>) hands out one
  record at a time. The metadata calls (\<^verbatim>\<open>objects.go\<close>, \<^verbatim>\<open>metadata.go\<close>) run SHOW statements and
  filter what they give. A C layer (\<^verbatim>\<open>c/driver.go\<close>, \<^verbatim>\<open>c/utils.c\<close>) exports all of this as the functions of
  \<^verbatim>\<open>adbc.h\<close>: the structures of the caller hold cgo handles of Go objects, results are exported as Arrow
  streams with callbacks, Go errors become an \<^verbatim>\<open>AdbcError\<close>, and a panic poisons the driver.

  \<^bold>\<open>Theories and the code they model.\<close>
  \<^item> \<open>Prelude\<close>: names of the model's types, shared lemmas. \<open>Go_Strings\<close>: what the code uses of
    Go's \<^verbatim>\<open>strings\<close>, \<^verbatim>\<open>strconv\<close>, \<^verbatim>\<open>net/url\<close>, \<^verbatim>\<open>unicode\<close>, \<^verbatim>\<open>unicode/utf8\<close>.
  \<^item> \<open>Conn_Config\<close>: \<^verbatim>\<open>config.go\<close>. The record \<open>config\<close> is \<^verbatim>\<open>Config\<close>; \<open>parse_connection_string\<close>
    is \<^verbatim>\<open>ParseConnectionString\<close>, split in its stages. Shown: printing and parsing a configuration is
    the identity; the spelling of a parameter does not matter.
  \<^item> \<open>Adbc_Errors\<close>: \<^verbatim>\<open>errors.go\<close> and the status codes. Shown: the table of codes.
  \<^item> \<open>Database\<close>: \<^verbatim>\<open>database.go\<close>, \<^verbatim>\<open>driver.go\<close>. Configurations live in a heap because clients share
    them. Shown: when \<^verbatim>\<open>SetOptions\<close> succeeds, when the order of Go's map iteration matters, what a
    failing call leaves behind.
  \<^item> \<open>Params\<close>: \<^verbatim>\<open>params.go\<close>, with integers as words of their width. Shown: integers keep their
    value, where timestamps and dates do not.
  \<^item> \<open>Session\<close>: the messages, the libraries (record \<open>libs\<close>) and the state of a running driver
    (record \<open>runtime\<close>): configurations, clients, reference counts of record batches, uncancelled
    streams, requests sent, the service. \<open>Sample_Service\<close>: a concrete instance for the witnesses.
  \<^item> \<open>Record_Loop\<close>: the contract of a record reader as a locale, and the loops the driver runs over
    one. \<open>Result_Reader\<close>: \<^verbatim>\<open>result_reader.go\<close>, which fulfils the contract. Shown: it delivers the
    stream; it returns every reference and the stream; after the end it stays at the end.
  \<^item> \<open>Spark_Client\<close>: \<^verbatim>\<open>client.go\<close>. Shown: each call is one request with the identity of the
    session; the outcomes of \<^verbatim>\<open>ExecuteSQL\<close> and \<^verbatim>\<open>SchemaOf\<close>; \<^verbatim>\<open>Close\<close> works once.
  \<^item> \<open>Sql_Names\<close>, \<open>Connection\<close>: \<^verbatim>\<open>connection.go\<close>, \<^verbatim>\<open>statement.go\<close>. A connection is an object in
    the record \<open>world\<close> that statements refer to by its number. Shown: quoting is read back, parameters
    are bound in order or nothing is sent, references are kept.
  \<^item> \<open>Name_Patterns\<close>, \<open>Catalog\<close>: \<^verbatim>\<open>objects.go\<close>. Shown: the LIKE matcher returns and decides LIKE, the
    clause sent to Spark agrees with it, \<^verbatim>\<open>GetObjects\<close> respects the request. \<open>lib_fits\<close> is what
    it relies on, for each answer of the service by itself: the batches have the columns of that answer's
    schema; \<open>spark_libs\<close> is a service with answers of several widths for which it holds.
  \<^item> \<open>Info_Tables\<close>: \<^verbatim>\<open>metadata.go\<close>. Shown: the rows of \<^verbatim>\<open>GetInfo\<close>.
  \<^item> \<open>Driver_Calls\<close>: what a call of the Go driver leaves behind, for the two users of the driver that
    are modelled: the C layer and the example programs. Shown: what a closed connection refuses.
  \<^item> \<open>Examples\<close>: the programs under \<^verbatim>\<open>examples/go\<close>, each a function of the driver's state and of the
    lines printed that gives how the program ends: nil, an error, a panic of its own. \<open>with_connection\<close>,
    \<open>with_statement\<close>, \<open>with_params\<close> and \<open>print_result\<close> are the pieces of \<^verbatim>\<open>run\<close> with the deferred call
    they open. Shown: they return and leave nothing held on every way out, and what quickstart and
    parameters have sent and printed when they succeed.

  \<^bold>\<open>The C layer\<close>, all of \<^verbatim>\<open>c/driver.go\<close>. An exported function \<^verbatim>\<open>SparkXxxYyy\<close> is \<open>spark_xxx_yyy\<close>.
  \<^item> \<open>Go_Fmt\<close>: \<^verbatim>\<open>fmt.Sprintf\<close> without operands, which is how the layer treats every message. \<open>C_Errors\<close>:
    \<^verbatim>\<open>setErr\<close>, \<^verbatim>\<open>setErrWithDetails\<close>, \<^verbatim>\<open>errToAdbcErr\<close> and the releases and accessors of \<^verbatim>\<open>utils.c\<close>, with the
    number of blocks the driver has allocated. Shown: who owns the blocks, what the caller reads back.
  \<^item> \<open>C_State\<close>: the record \<open>c_world\<close> (structures, handles and the objects behind them, streams,
    contexts, the poison flag, the Go driver's \<open>world\<close>), handles, contexts, \<open>guarded\<close>, which is the
    deferred function with \<^verbatim>\<open>recover\<close>. \<open>C_Database\<close>, \<open>C_Connection\<close>, \<open>C_Statement\<close>, \<open>C_Streams\<close>: the
    exported functions and the callbacks of streams. \<open>C_Driver\<close>: \<^verbatim>\<open>AdbcDriverSparkInit\<close>. \<open>C_Logging\<close>:
    \<^verbatim>\<open>initLoggingFromEnv\<close>, apart from the state because it only writes to standard error. Shown: it
    never gives the database a logger.
  \<^item> \<open>C_Invariant\<close>: the invariant \<open>c_ok R S\<close> of the state (pointers are live handles of their type,
    objects are not shared, live contexts are owned, and the references and streams of the Go driver
    are those the objects hold on top of \<open>R\<close> and \<open>S\<close>), and a weakest precondition \<open>wp\<close> that excludes
    panics. \<open>C_Calls\<close>, \<open>C_Stmt_Calls\<close>, \<open>C_Stream_Calls\<close>: every function and callback keeps it.
  \<^item> \<open>Runs\<close>: runs of a step relation and their refinement, as a locale. \<open>C_Api\<close>: a call as a value, and
    an application (\<open>app_step\<close>) as any sequence of calls, of entry points of \<^verbatim>\<open>utils.c\<close> (\<open>C_Helpers\<close>), callbacks and changes to its own memory.
    \<open>C_Lifecycle\<close>: the contract as a machine over the phases of the structures; \<open>C_Refinement\<close>: every
    function refines it, and the interpretation of the locale. \<open>C_Safety\<close>: what an application can
    rely on. \<open>C_Results\<close>: what a caller reads from streams, partitions and option buffers.

  \<^bold>\<open>How Go is read.\<close> A \<^verbatim>\<open>string\<close> is a list of bytes. A result \<^verbatim>\<open>(T, error)\<close> is a sum with the error
  on the left. A run-time panic, and a loop that does not end, is \<open>None\<close>; theorems say where there
  is none. Loops are structural recursions, functions with a measure (\<open>next_loop\<close>), or partial
  functions into \<open>option\<close> (\<open>equal_fold\<close>, \<open>like_loop\<close>, \<open>for_next\<close>, \<open>drain\<close>) that are shown to
  return, \<open>equal_fold\<close> when the orbits of \<^verbatim>\<open>unicode.SimpleFold\<close> do (\<open>orbits_return\<close>). The only
  fuel is in \<open>read_names\<close>, the scanner that reads quoted names back: one unit per name, and the
  length of the text is more than enough.

  \<^bold>\<open>Parameters.\<close> Code outside the repository is an argument: the case tables of Unicode beyond
  ASCII, Arrow's IPC decoder and decimal printing, gRPC's key normalisation, dialling, the random
  UUIDs, and the service behind the channel with a state of its own. The messages of a stream are
  fixed when the call is made, as a finite list; a stream that never ends is not modelled.

  \<^bold>\<open>Not modelled.\<close> Mutexes and concurrent calls (operations are atomic), cancellation by the
  caller's context, memory inside the Arrow library (builders are the lists of rows they build),
  the generated protocol buffer code, tests, the line \<^verbatim>\<open>log.Fatal\<close> writes when an example program
  fails. Of the C layer: the stack traces printed by \<^verbatim>\<open>poison\<close>, which are output; copies of a
  structure the caller makes and memory it hands out twice (a structure is known by its address);
  sizes from \<open>2 ^ 63\<close> on; the effect of a cancelled context on a stream that is read later. Arrow's
  import of a C array and its readers of in-memory tables are arguments, and an imported record is
  assumed to have a column per field of its schema. An error of the server may carry any gRPC code.
\<close>

end
